(* ===== verification/Go_Prelude.thy ===== *)
theory Go_Prelude
  imports Complex_Main "HOL-Library.Word" "HOL-Library.AList" "HOL-Library.Char_ord"
    "HOL-Library.List_Lexorder"
begin

text \<open>
  What the components of the router share: the Go machine types and the few functions of
  Go's standard library the sources call (\<open>strings\<close>, \<open>bytes\<close>, \<open>time\<close>, \<open>sort\<close>), with the
  generic lemmas on lists, association lists and 64-bit integers that the component proofs
  rest on.

  Conventions used throughout the development.
  \<^item> A Go \<open>string\<close> or \<open>[]byte\<close> is a list of bytes (HOL \<^typ>\<open>char\<close>). \<open>toLower\<close> and
    \<open>trimSpace\<close> are the ASCII part of \<open>strings.ToLower\<close> and \<open>strings.TrimSpace\<close>; bytes of
    multi-byte runes are left alone.
  \<^item> A \<open>time.Time\<close> is an \<^typ>\<open>int\<close>, nanoseconds since the zero time, so \<open>IsZero\<close> is \<open>t = 0\<close>; a
    \<open>time.Duration\<close> is an \<^typ>\<open>int\<close>, nanoseconds. \<open>timeSub\<close> is \<open>Time.Sub\<close> with its saturation
    at the ends of the \<open>int64\<close> range, \<open>timeTruncate\<close> is \<open>Time.Truncate\<close>.
  \<^item> An \<open>int64\<close> is an \<^typ>\<open>int\<close> whose arithmetic is wrapped by \<open>wrap64\<close> where the code adds
    or subtracts values it does not control.
  \<^item> A \<open>float64\<close> is a rational number: rounding, infinities and NaN are not modelled.
  \<^item> A Go map that is iterated or counted is an association list with distinct keys; a map
    that is only looked up is a partial function.
\<close>

section \<open>Types and collections of facts\<close>

type_synonym gostring = string
type_synonym instant = int
type_synonym duration = int
type_synonym float64 = rat

named_theorems go_defs \<open>definitions of the standard-library functions\<close>
named_theorems config_simps \<open>rewrite rules of the configuration accessors\<close>

abbreviation (input) second :: duration where "second \<equiv> 1000000000"
abbreviation (input) minute :: duration where "minute \<equiv> 60 * second"
abbreviation (input) hour :: duration where "hour \<equiv> 60 * minute"

section \<open>64-bit integers\<close>

definition wrap64 :: "int \<Rightarrow> int" where
  "wrap64 x = (x + 2 ^ 63) mod 2 ^ 64 - 2 ^ 63"

definition is_int64 :: "int \<Rightarrow> bool" where
  "is_int64 x \<longleftrightarrow> - (2 ^ 63) \<le> x \<and> x < 2 ^ 63"

definition timeSub :: "instant \<Rightarrow> instant \<Rightarrow> duration" where
  "timeSub t u = max (- (2 ^ 63)) (min (2 ^ 63 - 1) (t - u))"

definition timeTruncate :: "instant \<Rightarrow> duration \<Rightarrow> instant" where
  "timeTruncate t d = (if d \<le> 0 then t else t - t mod d)"

definition wrap32 :: "int \<Rightarrow> int" where
  "wrap32 x = (x + 2 ^ 31) mod 2 ^ 32 - 2 ^ 31"

section \<open>Strings\<close>

definition ascii_lower :: "char \<Rightarrow> char" where
  "ascii_lower c = (let n = (of_char c :: nat) in
     if 65 \<le> n \<and> n \<le> 90 then char_of (n + 32) else c)"

definition toLower :: "gostring \<Rightarrow> gostring" where
  "toLower s = map ascii_lower s"

definition is_space :: "char \<Rightarrow> bool" where
  "is_space c = (let n = (of_char c :: nat) in (9 \<le> n \<and> n \<le> 13) \<or> n = 32)"

definition trimSpace :: "gostring \<Rightarrow> gostring" where
  "trimSpace s = rev (dropWhile is_space (rev (dropWhile is_space s)))"

definition has_prefix :: "gostring \<Rightarrow> gostring \<Rightarrow> bool" where
  "has_prefix p s = (take (length p) s = p)"

definition has_suffix :: "gostring \<Rightarrow> gostring \<Rightarrow> bool" where
  "has_suffix p s = has_prefix (rev p) (rev s)"

definition cut_prefix :: "gostring \<Rightarrow> gostring \<Rightarrow> gostring option" where
  "cut_prefix p s = (if has_prefix p s then Some (drop (length p) s) else None)"

definition cut_at :: "char \<Rightarrow> gostring \<Rightarrow> (gostring \<times> gostring) option" where
  "cut_at c s = (case dropWhile (\<lambda>x. x \<noteq> c) s of
     [] \<Rightarrow> None
   | _ # r \<Rightarrow> Some (takeWhile (\<lambda>x. x \<noteq> c) s, r))"

fun split_on :: "char \<Rightarrow> gostring \<Rightarrow> gostring list" where
  "split_on c [] = [[]]"
| "split_on c (x # xs) = (if x = c then [] # split_on c xs
     else (case split_on c xs of [] \<Rightarrow> [[x]] | y # ys \<Rightarrow> (x # y) # ys))"

fun join_with :: "gostring \<Rightarrow> gostring list \<Rightarrow> gostring" where
  "join_with sep [] = []"
| "join_with sep [x] = x"
| "join_with sep (x # y # ys) = x @ sep @ join_with sep (y # ys)"

section \<open>Maps that are iterated: association lists\<close>

abbreviation alist_get :: "('k \<times> 'v) list \<Rightarrow> 'k \<Rightarrow> 'v option" where
  "alist_get m k \<equiv> map_of m k"

abbreviation alist_set :: "'k \<Rightarrow> 'v \<Rightarrow> ('k \<times> 'v) list \<Rightarrow> ('k \<times> 'v) list" where
  "alist_set \<equiv> AList.update"

abbreviation alist_del :: "'k \<Rightarrow> ('k \<times> 'v) list \<Rightarrow> ('k \<times> 'v) list" where
  "alist_del \<equiv> AList.delete"

abbreviation alist_wf :: "('k \<times> 'v) list \<Rightarrow> bool" where
  "alist_wf m \<equiv> distinct (map fst m)"

section \<open>Lemmas on 64-bit integers\<close>

lemma wrap64_id [simp]: "is_int64 x \<Longrightarrow> wrap64 x = x"
  by (simp add: is_int64_def wrap64_def)

lemma wrap64_range [simp]: "is_int64 (wrap64 x)"
  unfolding is_int64_def wrap64_def
  using pos_mod_bound [of "2 ^ 64" "x + 2 ^ 63"] pos_mod_sign [of "2 ^ 64" "x + 2 ^ 63"]
  by auto

lemma wrap64_idem [simp]: "wrap64 (wrap64 x) = wrap64 x"
  by simp

lemma wrap64_add_left [simp]: "wrap64 (wrap64 a + b) = wrap64 (a + b)"
proof -
  have "((a + 2 ^ 63) mod 2 ^ 64 - 2 ^ 63 + b + 2 ^ 63) mod 2 ^ 64 = ((a + 2 ^ 63) mod 2 ^ 64 + b) mod (2 ^ 64 :: int)"
    by simp
  also have "\<dots> = (a + b + 2 ^ 63) mod 2 ^ 64"
    by (simp add: mod_simps ac_simps)
  finally show ?thesis by (simp add: wrap64_def)
qed

lemma wrap64_add_right [simp]: "wrap64 (a + wrap64 b) = wrap64 (a + b)"
  using wrap64_add_left [of b a] by (simp add: add.commute)

lemma timeSub_exact: "is_int64 (t - u) \<Longrightarrow> timeSub t u = t - u"
  by (auto simp: timeSub_def is_int64_def)

lemma timeSub_gt: "d < 2 ^ 63 - 1 \<Longrightarrow> - (2 ^ 63) \<le> d \<Longrightarrow> timeSub t u > d \<longleftrightarrow> t - u > d"
  by (auto simp: timeSub_def)

lemma timeSub_ge: "d \<le> 2 ^ 63 - 1 \<Longrightarrow> - (2 ^ 63) < d \<Longrightarrow> timeSub t u \<ge> d \<longleftrightarrow> t - u \<ge> d"
  by (auto simp: timeSub_def)

lemma timeTruncate_div: "0 < d \<Longrightarrow> timeTruncate t d = t div d * d"
  by (simp add: timeTruncate_def minus_mod_eq_div_mult)

lemma timeTruncate_bounds: "0 < d \<Longrightarrow> timeTruncate t d \<le> t \<and> t < timeTruncate t d + d"
  by (simp add: timeTruncate_def)

lemma timeTruncate_mono: "0 < d \<Longrightarrow> t \<le> u \<Longrightarrow> timeTruncate t d \<le> timeTruncate u d"
  by (simp add: timeTruncate_div zdiv_mono1 mult_right_mono)

lemma is_int64_small: "0 \<le> x \<Longrightarrow> x < 2 ^ 63 \<Longrightarrow> is_int64 x"
  by (simp add: is_int64_def)

section \<open>Lemmas on strings\<close>

lemma has_prefix_iff: "has_prefix p s \<longleftrightarrow> (\<exists>r. s = p @ r)"
  unfolding has_prefix_def by (metis append_take_drop_id append_eq_conv_conj)

lemma has_prefix_append [simp]: "has_prefix p (p @ r)"
  by (simp add: has_prefix_def)

lemma cut_prefix_append [simp]: "cut_prefix p (p @ r) = Some r"
  by (simp add: cut_prefix_def)

lemma cut_prefix_Some_iff: "cut_prefix p s = Some r \<longleftrightarrow> s = p @ r"
  by (auto simp: cut_prefix_def has_prefix_iff)

lemma cut_at_append: "c \<notin> set a \<Longrightarrow> cut_at c (a @ c # r) = Some (a, r)"
  unfolding cut_at_def by (subst dropWhile_append3 takeWhile_append; auto)+

lemma cut_at_Some_iff: "cut_at c s = Some (a, r) \<longleftrightarrow> s = a @ c # r \<and> c \<notin> set a"
proof
  assume h: "cut_at c s = Some (a, r)"
  then obtain x where dw: "dropWhile (\<lambda>y. y \<noteq> c) s = x # r"
    and a: "a = takeWhile (\<lambda>y. y \<noteq> c) s"
    by (auto simp: cut_at_def split: list.splits)
  have "x = c" using dw by (metis (mono_tags, lifting) dropWhile_eq_Cons_conv)
  then have "s = a @ c # r" using dw a by (metis takeWhile_dropWhile_id)
  moreover have "c \<notin> set a" unfolding a by (metis (mono_tags, lifting) set_takeWhileD)
  ultimately show "s = a @ c # r \<and> c \<notin> set a" by simp
qed (auto simp: cut_at_append)

lemma split_on_nonempty [simp]: "split_on c s \<noteq> []"
  by (induction s) (auto split: list.splits)

section \<open>Lemmas on lists and association lists\<close>

lemma find_split_iff:
  "List.find P xs = Some x \<longleftrightarrow>
     (\<exists>ys zs. xs = ys @ x # zs \<and> P x \<and> (\<forall>y \<in> set ys. \<not> P y))"
proof
  show "List.find P xs = Some x \<Longrightarrow>
    \<exists>ys zs. xs = ys @ x # zs \<and> P x \<and> (\<forall>y \<in> set ys. \<not> P y)"
  proof (induction xs)
    case Nil
    then show ?case by simp
  next
    case (Cons a xs)
    show ?case
    proof (cases "P a")
      case True
      with Cons.prems show ?thesis by (metis append_Nil empty_iff empty_set find.simps(2) option.inject)
    next
      case False
      with Cons obtain ys zs where "xs = ys @ x # zs \<and> P x \<and> (\<forall>y \<in> set ys. \<not> P y)"
        by auto
      with False show ?thesis by (metis Cons_eq_appendI set_ConsD)
    qed
  qed
  assume "\<exists>ys zs. xs = ys @ x # zs \<and> P x \<and> (\<forall>y \<in> set ys. \<not> P y)"
  then obtain ys zs where xs: "xs = ys @ x # zs" and "P x" "\<forall>y \<in> set ys. \<not> P y"
    by blast
  then show "List.find P xs = Some x"
    unfolding xs by (induction ys) auto
qed

lemma find_Some_in: "List.find P xs = Some x \<Longrightarrow> x \<in> set xs \<and> P x"
  by (auto simp: find_split_iff)

lemma find_None_all: "List.find P xs = None \<longleftrightarrow> (\<forall>x \<in> set xs. \<not> P x)"
  by (auto simp: find_None_iff)

lemma map_of_rev_distinct: "distinct (map fst xs) \<Longrightarrow> map_of (rev xs) = map_of xs"
  by (rule map_of_inject_set [THEN iffD2]) (auto simp: rev_map [symmetric])

lemma map_of_key_fun:
  "map_of (map (\<lambda>x. (f x, x)) xs) k = List.find (\<lambda>x. f x = k) xs"
  by (induction xs) auto

lemma alist_set_same [simp]: "alist_get (alist_set k v m) k = Some v"
  by (simp add: update_conv)

lemma alist_set_other [simp]: "k' \<noteq> k \<Longrightarrow> alist_get (alist_set k v m) k' = alist_get m k'"
  by (simp add: update_conv)

lemma alist_wf_set [simp]: "alist_wf m \<Longrightarrow> alist_wf (alist_set k v m)"
  by (rule distinct_update)

lemma alist_wf_del [simp]: "alist_wf m \<Longrightarrow> alist_wf (alist_del k m)"
  by (rule distinct_delete)

lemma alist_del_get [simp]: "alist_get (alist_del k m) k' = (if k' = k then None else alist_get m k')"
  by (simp add: delete_conv)

section \<open>Invariants of transition systems\<close>

text \<open>A component whose operations interleave is a step relation; a property that holds at the
  start and that every step keeps holds in every reachable state.\<close>

locale step_invariant =
  fixes start :: "'s \<Rightarrow> bool"
    and step :: "'s \<Rightarrow> 's \<Rightarrow> bool"
    and holds :: "'s \<Rightarrow> bool"
  assumes holds_start: "start s \<Longrightarrow> holds s"
    and holds_step: "holds s \<Longrightarrow> step s s' \<Longrightarrow> holds s'"
begin

lemma holds_steps: "step\<^sup>*\<^sup>* s s' \<Longrightarrow> holds s \<Longrightarrow> holds s'"
  by (induction rule: rtranclp_induct) (auto intro: holds_step)

lemma holds_reachable: "start s \<Longrightarrow> step\<^sup>*\<^sup>* s s' \<Longrightarrow> holds s'"
  using holds_start holds_steps by blast

end

end
