(* ===== verification/Router_Config.thy ===== *)
theory Router_Config
  imports Go_Prelude
begin

text \<open>
  The router-proxy configuration (\<open>internal/router/config.go\<close>): the wire data types, the
  runtime validation \<open>Config.Validate\<close> with every rejection as a constructor of
  \<open>config_error\<close>, and the small accessors the dispatch path reads. \<open>Validate_None_iff\<close> states
  that validation accepts exactly the configurations that satisfy the declarative predicate
  \<open>config_ok\<close>; the router's other components take \<open>config_ok\<close> as their well-formedness
  hypothesis. \<open>httpguts.ValidHeaderFieldName\<close> belongs to \<open>golang.org/x/net\<close> and is the
  parameter \<open>validName\<close>.
\<close>

section \<open>Data types\<close>

record TokenCost =
  PromptUSD :: float64
  CompletionUSD :: float64

record EndpointSource =
  es_Namespace :: gostring
  es_Service :: gostring
  es_Port :: int

record Balancing =
  bal_Mode :: gostring
  bal_SessionHeaders :: "gostring list"
  bal_SessionIdleTimeout :: duration

record MetricsProfile =
  mp_Path :: gostring
  mp_Running :: gostring
  mp_Waiting :: gostring
  mp_KVUsage :: gostring

record BackendPool =
  pool_Name :: gostring
  pool_Namespace :: gostring
  pool_Member :: gostring
  pool_Members :: "gostring list"
  pool_SwapBudget :: duration

record Backend =
  be_Name :: gostring
  be_DisplayName :: gostring
  be_Tier :: gostring
  be_Address :: gostring
  be_Endpoints :: "gostring list"
  be_EndpointSource :: "EndpointSource option"
  be_Balancing :: "Balancing option"
  be_Metrics :: "MetricsProfile option"
  be_Provider :: gostring
  be_Model :: gostring
  be_ServedModel :: gostring
  be_InferenceService :: gostring
  be_Capabilities :: "gostring list"
  be_Weight :: int
  be_CredentialsEnv :: gostring
  be_Timeout :: duration
  be_Pool :: "BackendPool option"
  be_CostPerMillionTokens :: "TokenCost option"

record RuleMatch =
  DataClassification :: "gostring list"
  TaskComplexity :: gostring
  RequiredCapabilities :: "gostring list"
  match_Headers :: "(gostring \<times> gostring) list"
  match_Models :: "gostring list"

record RuleRoute =
  route_Backends :: "gostring list"
  route_Strategy :: gostring
  route_PoolActivation :: gostring

record Rule =
  rule_Name :: gostring
  rule_Match :: RuleMatch
  rule_Route :: RuleRoute
  rule_FailClosed :: bool
  rule_Timeout :: duration

record Budget =
  bud_Name :: gostring
  bud_Scope :: gostring
  bud_RuleName :: gostring
  bud_HeaderKey :: gostring
  bud_Window :: duration
  bud_MaxTokens :: int
  bud_MaxUSD :: float64

record ClassificationPolicy =
  cls_Mode :: gostring
  cls_HeaderKey :: gostring
  cls_Sensitive :: "gostring list"

record AuditLogPolicy =
  audit_Sink :: gostring
  audit_FilePath :: gostring
  audit_IncludeRequestBody :: bool

record Policy =
  pol_Classification :: ClassificationPolicy
  pol_AuditLog :: AuditLogPolicy
  pol_Budgets :: "Budget list"

record Config =
  cfg_Backends :: "Backend list"
  cfg_Rules :: "Rule list"
  cfg_DefaultRoute :: gostring
  cfg_DefaultRouteStrategy :: gostring
  cfg_Policy :: Policy

definition DefaultRouteStrategyStatic :: gostring where
  "DefaultRouteStrategyStatic = ''Static''"

definition DefaultRouteStrategyBackendNameMatch :: gostring where
  "DefaultRouteStrategyBackendNameMatch = ''BackendNameMatch''"

definition BalancingRoundRobin :: gostring where
  "BalancingRoundRobin = ''RoundRobin''"

definition BalancingLoadAware :: gostring where
  "BalancingLoadAware = ''LoadAware''"

definition minSessionIdleTimeout :: duration where
  "minSessionIdleTimeout = minute"

definition maxSessionIdleTimeout :: duration where
  "maxSessionIdleTimeout = 24 * hour"

definition PoolActivationWait :: gostring where
  "PoolActivationWait = ''Wait''"

definition PoolActivationIfIdle :: gostring where
  "PoolActivationIfIdle = ''IfIdle''"

definition BudgetScopeRouter :: gostring where
  "BudgetScopeRouter = ''router''"

definition BudgetScopeRule :: gostring where
  "BudgetScopeRule = ''rule''"

definition BudgetScopeTeam :: gostring where
  "BudgetScopeTeam = ''team''"

definition DefaultTeamHeaderKey :: gostring where
  "DefaultTeamHeaderKey = ''x-llmkube-team''"

definition maxSessionHeaderNameLen :: nat where
  "maxSessionHeaderNameLen = 256"

lemmas config_consts [config_simps] =
  DefaultRouteStrategyStatic_def DefaultRouteStrategyBackendNameMatch_def
  BalancingRoundRobin_def BalancingLoadAware_def PoolActivationWait_def
  PoolActivationIfIdle_def BudgetScopeRouter_def BudgetScopeRule_def BudgetScopeTeam_def
  DefaultTeamHeaderKey_def maxSessionHeaderNameLen_def
  minSessionIdleTimeout_def maxSessionIdleTimeout_def

section \<open>Accessors\<close>

definition HasLoadAware :: "Config \<Rightarrow> bool" where
  "HasLoadAware c = (\<exists>b \<in> set (cfg_Backends c).
     case be_Balancing b of None \<Rightarrow> False | Some bal \<Rightarrow> bal_Mode bal = BalancingLoadAware)"

definition HasSessionAffinity :: "Config \<Rightarrow> bool" where
  "HasSessionAffinity c = (\<exists>b \<in> set (cfg_Backends c).
     case be_Balancing b of None \<Rightarrow> False
     | Some bal \<Rightarrow> bal_Mode bal = BalancingLoadAware \<and> bal_SessionHeaders bal \<noteq> [])"

definition pricesTokens :: "Backend \<Rightarrow> bool" where
  "pricesTokens b = (case be_CostPerMillionTokens b of None \<Rightarrow> False
     | Some t \<Rightarrow> PromptUSD t > 0 \<or> CompletionUSD t > 0)"

definition BackendByName :: "Config \<Rightarrow> gostring \<Rightarrow> Backend option" where
  "BackendByName c name = List.find (\<lambda>b. be_Name b = name) (cfg_Backends c)"

definition SensitiveSet :: "Config \<Rightarrow> gostring set" where
  "SensitiveSet c = (let s = cls_Sensitive (pol_Classification (cfg_Policy c)) in
     if s \<noteq> [] then set s else {''pii'', ''phi''})"

definition ClassificationHeader :: "Config \<Rightarrow> gostring" where
  "ClassificationHeader c = (let h = trimSpace (cls_HeaderKey (pol_Classification (cfg_Policy c))) in
     if h \<noteq> '''' then h else ''x-llmkube-classification'')"

section \<open>Validation\<close>

datatype config_error =
    NoBackends
  | BackendNameRequired nat
  | DuplicateBackend nat gostring
  | BadTier nat gostring gostring
  | AddressRequired nat gostring
  | BadEndpointSource nat gostring
  | BadBalancingMode nat gostring gostring
  | BadSessionIdleTimeout nat gostring duration
  | BadSessionHeader nat gostring gostring
  | BadMetricsProfile nat gostring
  | UnknownDefaultRoute gostring
  | BadDefaultRouteStrategy gostring
  | RuleNameRequired nat
  | RuleNoBackends nat gostring
  | RuleUnknownBackend nat gostring nat gostring
  | BadPoolActivation nat gostring gostring
  | BudgetNameRequired nat
  | DuplicateBudget nat gostring
  | BudgetRuleNameRequired nat gostring
  | BudgetUnknownRule nat gostring gostring
  | BadBudgetScope nat gostring gostring
  | BadBudgetWindow nat gostring
  | BudgetNoCap nat gostring
  | BackendUnpriced nat gostring

fun validateSessionHeaders ::
    "(gostring \<Rightarrow> bool) \<Rightarrow> nat \<Rightarrow> gostring \<Rightarrow> gostring list \<Rightarrow> config_error option" where
  "validateSessionHeaders validName i n [] = None"
| "validateSessionHeaders validName i n (h # hs) =
     (if length h > maxSessionHeaderNameLen \<or> \<not> validName h then Some (BadSessionHeader i n h)
      else validateSessionHeaders validName i n hs)"

definition validateBalancing ::
    "(gostring \<Rightarrow> bool) \<Rightarrow> nat \<Rightarrow> Backend \<Rightarrow> config_error option" where
  "validateBalancing validName i b =
     (case (case be_Balancing b of None \<Rightarrow> None
            | Some bal \<Rightarrow>
                if bal_Mode bal \<notin> {'''', BalancingRoundRobin, BalancingLoadAware}
                then Some (BadBalancingMode i (be_Name b) (bal_Mode bal))
                else (let t = bal_SessionIdleTimeout bal in
                  if t \<noteq> 0 \<and> (t < minSessionIdleTimeout \<or> t > maxSessionIdleTimeout)
                  then Some (BadSessionIdleTimeout i (be_Name b) t)
                  else validateSessionHeaders validName i (be_Name b) (bal_SessionHeaders bal))) of
        Some e \<Rightarrow> Some e
      | None \<Rightarrow>
          (case be_Metrics b of None \<Rightarrow> None
           | Some m \<Rightarrow> if mp_Path m = '''' \<or> mp_Running m = '''' \<or> mp_Waiting m = ''''
                       then Some (BadMetricsProfile i (be_Name b)) else None))"

fun validateBackends ::
    "(gostring \<Rightarrow> bool) \<Rightarrow> nat \<Rightarrow> gostring list \<Rightarrow> Backend list \<Rightarrow> config_error + gostring list" where
  "validateBackends validName i names [] = Inr names"
| "validateBackends validName i names (b # bs) =
     (if be_Name b = '''' then Inl (BackendNameRequired i)
      else if be_Name b \<in> set names then Inl (DuplicateBackend i (be_Name b))
      else if be_Tier b \<noteq> ''local'' \<and> be_Tier b \<noteq> ''cloud'' then Inl (BadTier i (be_Name b) (be_Tier b))
      else if be_Address b = '''' \<and> be_Endpoints b = [] then Inl (AddressRequired i (be_Name b))
      else if (case be_EndpointSource b of None \<Rightarrow> False
               | Some s \<Rightarrow> es_Namespace s = '''' \<or> es_Service s = '''' \<or> es_Port s \<le> 0)
      then Inl (BadEndpointSource i (be_Name b))
      else (case validateBalancing validName i b of
              Some e \<Rightarrow> Inl e
            | None \<Rightarrow> validateBackends validName (Suc i) (be_Name b # names) bs))"

fun validateRouteBackends ::
    "gostring list \<Rightarrow> nat \<Rightarrow> gostring \<Rightarrow> nat \<Rightarrow> gostring list \<Rightarrow> config_error option" where
  "validateRouteBackends names i r j [] = None"
| "validateRouteBackends names i r j (n # ns) =
     (if n \<notin> set names then Some (RuleUnknownBackend i r j n)
      else validateRouteBackends names i r (Suc j) ns)"

fun validateRules ::
    "gostring list \<Rightarrow> nat \<Rightarrow> gostring list \<Rightarrow> Rule list \<Rightarrow> config_error + gostring list" where
  "validateRules names i ruleNames [] = Inr ruleNames"
| "validateRules names i ruleNames (r # rs) =
     (if rule_Name r = '''' then Inl (RuleNameRequired i)
      else if route_Backends (rule_Route r) = [] then Inl (RuleNoBackends i (rule_Name r))
      else (case validateRouteBackends names i (rule_Name r) 0 (route_Backends (rule_Route r)) of
              Some e \<Rightarrow> Inl e
            | None \<Rightarrow>
                if route_PoolActivation (rule_Route r) \<notin> {'''', PoolActivationWait, PoolActivationIfIdle}
                then Inl (BadPoolActivation i (rule_Name r) (route_PoolActivation (rule_Route r)))
                else validateRules names (Suc i) (rule_Name r # ruleNames) rs))"

fun validatePricing :: "nat \<Rightarrow> Backend list \<Rightarrow> config_error option" where
  "validatePricing j [] = None"
| "validatePricing j (b # bs) =
     (if \<not> pricesTokens b then Some (BackendUnpriced j (be_Name b)) else validatePricing (Suc j) bs)"

fun validateBudgets ::
    "Backend list \<Rightarrow> gostring list \<Rightarrow> nat \<Rightarrow> gostring list \<Rightarrow> Budget list \<Rightarrow> config_error option" where
  "validateBudgets backends ruleNames i budgetNames [] = None"
| "validateBudgets backends ruleNames i budgetNames (b # bs) =
     (if bud_Name b = '''' then Some (BudgetNameRequired i)
      else if bud_Name b \<in> set budgetNames then Some (DuplicateBudget i (bud_Name b))
      else if bud_Scope b = BudgetScopeRule \<and> bud_RuleName b = ''''
      then Some (BudgetRuleNameRequired i (bud_Name b))
      else if bud_Scope b = BudgetScopeRule \<and> bud_RuleName b \<notin> set ruleNames
      then Some (BudgetUnknownRule i (bud_Name b) (bud_RuleName b))
      else if bud_Scope b \<notin> {BudgetScopeRouter, BudgetScopeTeam, BudgetScopeRule}
      then Some (BadBudgetScope i (bud_Name b) (bud_Scope b))
      else if bud_Window b \<le> 0 then Some (BadBudgetWindow i (bud_Name b))
      else if bud_MaxTokens b \<le> 0 \<and> bud_MaxUSD b \<le> 0 then Some (BudgetNoCap i (bud_Name b))
      else (case (if bud_MaxUSD b > 0 then validatePricing 0 backends else None) of
              Some e \<Rightarrow> Some e
            | None \<Rightarrow> validateBudgets backends ruleNames (Suc i) (bud_Name b # budgetNames) bs))"

definition Validate :: "(gostring \<Rightarrow> bool) \<Rightarrow> Config \<Rightarrow> config_error option" where
  "Validate validName c =
     (if cfg_Backends c = [] then Some NoBackends
      else (case validateBackends validName 0 [] (cfg_Backends c) of
        Inl e \<Rightarrow> Some e
      | Inr names \<Rightarrow>
          if cfg_DefaultRoute c \<noteq> '''' \<and> cfg_DefaultRoute c \<notin> set names
          then Some (UnknownDefaultRoute (cfg_DefaultRoute c))
          else if cfg_DefaultRouteStrategy c \<notin>
               {'''', DefaultRouteStrategyStatic, DefaultRouteStrategyBackendNameMatch}
          then Some (BadDefaultRouteStrategy (cfg_DefaultRouteStrategy c))
          else (case validateRules names 0 [] (cfg_Rules c) of
            Inl e \<Rightarrow> Some e
          | Inr ruleNames \<Rightarrow>
              validateBudgets (cfg_Backends c) ruleNames 0 [] (pol_Budgets (cfg_Policy c)))))"

datatype load_error = ReadError | ParseError | InvalidConfig config_error

definition LoadConfig ::
    "(gostring \<Rightarrow> gostring option) \<Rightarrow> (gostring \<Rightarrow> Config option) \<Rightarrow> (gostring \<Rightarrow> bool)
     \<Rightarrow> gostring \<Rightarrow> load_error + Config" where
  "LoadConfig readFile unmarshal validName path =
     (case readFile path of
        None \<Rightarrow> Inl ReadError
      | Some data \<Rightarrow> (case unmarshal data of
          None \<Rightarrow> Inl ParseError
        | Some cfg \<Rightarrow> (case Validate validName cfg of
            Some e \<Rightarrow> Inl (InvalidConfig e)
          | None \<Rightarrow> Inr cfg)))"

section \<open>The declarative contract\<close>

definition balancing_ok :: "(gostring \<Rightarrow> bool) \<Rightarrow> Backend \<Rightarrow> bool" where
  "balancing_ok validName b \<longleftrightarrow>
     (\<forall>bal. be_Balancing b = Some bal \<longrightarrow>
        bal_Mode bal \<in> {'''', BalancingRoundRobin, BalancingLoadAware} \<and>
        (bal_SessionIdleTimeout bal = 0 \<or>
         minSessionIdleTimeout \<le> bal_SessionIdleTimeout bal \<and>
         bal_SessionIdleTimeout bal \<le> maxSessionIdleTimeout) \<and>
        (\<forall>h \<in> set (bal_SessionHeaders bal). length h \<le> maxSessionHeaderNameLen \<and> validName h)) \<and>
     (\<forall>m. be_Metrics b = Some m \<longrightarrow> mp_Path m \<noteq> '''' \<and> mp_Running m \<noteq> '''' \<and> mp_Waiting m \<noteq> '''')"

definition backend_ok :: "(gostring \<Rightarrow> bool) \<Rightarrow> Backend \<Rightarrow> bool" where
  "backend_ok validName b \<longleftrightarrow>
     be_Name b \<noteq> '''' \<and> (be_Tier b = ''local'' \<or> be_Tier b = ''cloud'') \<and>
     (be_Address b \<noteq> '''' \<or> be_Endpoints b \<noteq> []) \<and>
     (\<forall>s. be_EndpointSource b = Some s \<longrightarrow>
        es_Namespace s \<noteq> '''' \<and> es_Service s \<noteq> '''' \<and> 0 < es_Port s) \<and>
     balancing_ok validName b"

definition rule_ok :: "gostring set \<Rightarrow> Rule \<Rightarrow> bool" where
  "rule_ok names r \<longleftrightarrow> rule_Name r \<noteq> '''' \<and> route_Backends (rule_Route r) \<noteq> [] \<and>
     set (route_Backends (rule_Route r)) \<subseteq> names \<and>
     route_PoolActivation (rule_Route r) \<in> {'''', PoolActivationWait, PoolActivationIfIdle}"

definition budget_ok :: "Backend list \<Rightarrow> gostring set \<Rightarrow> Budget \<Rightarrow> bool" where
  "budget_ok backends ruleNames b \<longleftrightarrow> bud_Name b \<noteq> '''' \<and>
     bud_Scope b \<in> {BudgetScopeRouter, BudgetScopeTeam, BudgetScopeRule} \<and>
     (bud_Scope b = BudgetScopeRule \<longrightarrow> bud_RuleName b \<noteq> '''' \<and> bud_RuleName b \<in> ruleNames) \<and>
     0 < bud_Window b \<and> (0 < bud_MaxTokens b \<or> 0 < bud_MaxUSD b) \<and>
     (0 < bud_MaxUSD b \<longrightarrow> (\<forall>x \<in> set backends. pricesTokens x))"

definition config_ok :: "(gostring \<Rightarrow> bool) \<Rightarrow> Config \<Rightarrow> bool" where
  "config_ok validName c \<longleftrightarrow> cfg_Backends c \<noteq> [] \<and>
     (\<forall>b \<in> set (cfg_Backends c). backend_ok validName b) \<and>
     distinct (map be_Name (cfg_Backends c)) \<and>
     (cfg_DefaultRoute c = '''' \<or> cfg_DefaultRoute c \<in> be_Name ` set (cfg_Backends c)) \<and>
     cfg_DefaultRouteStrategy c \<in> {'''', DefaultRouteStrategyStatic, DefaultRouteStrategyBackendNameMatch} \<and>
     (\<forall>r \<in> set (cfg_Rules c). rule_ok (be_Name ` set (cfg_Backends c)) r) \<and>
     (\<forall>b \<in> set (pol_Budgets (cfg_Policy c)).
        budget_ok (cfg_Backends c) (rule_Name ` set (cfg_Rules c)) b) \<and>
     distinct (map bud_Name (pol_Budgets (cfg_Policy c)))"

section \<open>Validation decides the contract\<close>

lemma validateSessionHeaders_None_iff:
  "validateSessionHeaders v i n hs = None \<longleftrightarrow>
     (\<forall>h \<in> set hs. length h \<le> maxSessionHeaderNameLen \<and> v h)"
  by (induction hs) auto

lemma validateBalancing_None_iff: "validateBalancing v i b = None \<longleftrightarrow> balancing_ok v b"
proof (cases "be_Balancing b")
  case None
  then show ?thesis by (auto simp: validateBalancing_def balancing_ok_def split: option.splits)
next
  case (Some bal)
  then show ?thesis
    using validateSessionHeaders_None_iff [of v i "be_Name b" "bal_SessionHeaders bal"]
    by (auto simp: validateBalancing_def balancing_ok_def Let_def not_less
        split: option.splits if_splits)
qed

lemma validateBackends_Inr_iff:
  "validateBackends v i names bs = Inr names' \<longleftrightarrow>
     (\<forall>b \<in> set bs. backend_ok v b) \<and> distinct (map be_Name bs) \<and>
     be_Name ` set bs \<inter> set names = {} \<and> names' = rev (map be_Name bs) @ names"
proof (induction bs arbitrary: i names)
  case Nil
  then show ?case by auto
next
  case (Cons b bs)
  show ?case
  proof (cases "backend_ok v b \<and> be_Name b \<notin> set names")
    case True
    then have "validateBackends v i names (b # bs) =
        validateBackends v (Suc i) (be_Name b # names) bs"
      using validateBalancing_None_iff [of v i b]
      by (auto simp: backend_ok_def split: option.splits)
    with True Cons.IH [of "Suc i" "be_Name b # names"] show ?thesis by auto
  next
    case False
    have "\<not> (\<exists>ns. validateBackends v i names (b # bs) = Inr ns)"
      using False validateBalancing_None_iff [of v i b]
      by (auto simp: backend_ok_def split: option.splits if_splits)
    with False show ?thesis by auto
  qed
qed

lemma validateRouteBackends_None_iff:
  "validateRouteBackends names i r j ns = None \<longleftrightarrow> set ns \<subseteq> set names"
  by (induction ns arbitrary: j) auto

lemma validateRules_Inr_iff:
  "validateRules names i rn rs = Inr rn' \<longleftrightarrow>
     (\<forall>r \<in> set rs. rule_ok (set names) r) \<and> rn' = rev (map rule_Name rs) @ rn"
proof (induction rs arbitrary: i rn)
  case Nil
  then show ?case by auto
next
  case (Cons r rs)
  have step: "validateRules names i rn (r # rs) = Inr rn' \<longleftrightarrow>
      rule_ok (set names) r \<and> validateRules names (Suc i) (rule_Name r # rn) rs = Inr rn'"
    using validateRouteBackends_None_iff [of names i "rule_Name r" 0 "route_Backends (rule_Route r)"]
    by (auto simp: rule_ok_def split: option.splits)
  show ?case unfolding step Cons.IH by auto
qed

lemma validatePricing_None_iff: "validatePricing j bs = None \<longleftrightarrow> (\<forall>b \<in> set bs. pricesTokens b)"
  by (induction bs arbitrary: j) auto

lemma validateBudgets_None_iff:
  "validateBudgets bks rn i names bs = None \<longleftrightarrow>
     (\<forall>b \<in> set bs. budget_ok bks (set rn) b) \<and> distinct (map bud_Name bs) \<and>
     bud_Name ` set bs \<inter> set names = {}"
proof (induction bs arbitrary: i names)
  case Nil
  then show ?case by simp
next
  case (Cons b bs)
  have step: "validateBudgets bks rn i names (b # bs) = None \<longleftrightarrow>
      budget_ok bks (set rn) b \<and> bud_Name b \<notin> set names \<and>
      validateBudgets bks rn (Suc i) (bud_Name b # names) bs = None"
    using validatePricing_None_iff [of 0 bks]
    by (auto simp: budget_ok_def not_less split: option.splits if_splits)
  show ?case unfolding step Cons.IH by auto
qed

lemma Validate_None_iff: "Validate validName c = None \<longleftrightarrow> config_ok validName c"
proof (cases "validateBackends validName 0 [] (cfg_Backends c)")
  case (Inl e)
  then have "\<not> ((\<forall>b \<in> set (cfg_Backends c). backend_ok validName b) \<and>
      distinct (map be_Name (cfg_Backends c)))"
    using validateBackends_Inr_iff [of validName 0 "[]" "cfg_Backends c"] by force
  with Inl show ?thesis by (auto simp: Validate_def config_ok_def)
next
  case (Inr names)
  then have bk: "\<forall>b \<in> set (cfg_Backends c). backend_ok validName b"
      "distinct (map be_Name (cfg_Backends c))"
    and names: "names = rev (map be_Name (cfg_Backends c))"
    using validateBackends_Inr_iff [of validName 0 "[]" "cfg_Backends c" names] by auto
  have nset: "set names = be_Name ` set (cfg_Backends c)" by (simp add: names)
  have rules: "validateRules names 0 [] (cfg_Rules c) = Inr rn \<longleftrightarrow>
      (\<forall>r \<in> set (cfg_Rules c). rule_ok (set names) r) \<and> rn = rev (map rule_Name (cfg_Rules c))" for rn
    by (simp add: validateRules_Inr_iff)
  show ?thesis
  proof (cases "validateRules names 0 [] (cfg_Rules c)")
    case (Inl e)
    then have "\<not> (\<forall>r \<in> set (cfg_Rules c). rule_ok (set names) r)" using rules by force
    with Inl Inr show ?thesis by (auto simp: Validate_def config_ok_def nset)
  next
    case (Inr rn)
    then have r: "\<forall>r \<in> set (cfg_Rules c). rule_ok (set names) r"
      and rn: "set rn = rule_Name ` set (cfg_Rules c)"
      using rules by auto
    show ?thesis
      using bk r Inr \<open>validateBackends validName 0 [] (cfg_Backends c) = Inr names\<close>
      by (simp add: Validate_def config_ok_def nset validateBudgets_None_iff rn)
  qed
qed

section \<open>Consequences of a validated configuration\<close>

lemma LoadConfig_ok: "LoadConfig rf um v p = Inr c \<Longrightarrow> config_ok v c"
  by (auto simp: LoadConfig_def Validate_None_iff split: option.splits)

lemma BackendByName_Some:
  "BackendByName c n = Some b \<Longrightarrow> b \<in> set (cfg_Backends c) \<and> be_Name b = n"
  unfolding BackendByName_def by (drule find_Some_in) simp

lemma BackendByName_distinct:
  assumes "distinct (map be_Name (cfg_Backends c))" and "b \<in> set (cfg_Backends c)"
  shows "BackendByName c (be_Name b) = Some b"
proof -
  obtain b' where b': "BackendByName c (be_Name b) = Some b'"
    using assms(2) by (cases "BackendByName c (be_Name b)") (auto simp: BackendByName_def find_None_all)
  with assms show ?thesis
    using BackendByName_Some [OF b'] by (auto simp: distinct_map inj_on_def)
qed

lemma config_ok_backend:
  assumes "config_ok v c" and "b \<in> set (cfg_Backends c)"
  shows "backend_ok v b" and "BackendByName c (be_Name b) = Some b"
  using assms BackendByName_distinct by (auto simp: config_ok_def)

lemma config_ok_rule_backend:
  assumes "config_ok v c" and "r \<in> set (cfg_Rules c)" and "n \<in> set (route_Backends (rule_Route r))"
  shows "\<exists>b. BackendByName c n = Some b"
proof -
  from assms have "n \<in> be_Name ` set (cfg_Backends c)"
    unfolding config_ok_def rule_ok_def by blast
  then obtain b where "b \<in> set (cfg_Backends c)" "be_Name b = n"
    by blast
  with assms(1) show ?thesis using config_ok_backend(2) by blast
qed

section \<open>Properties\<close>

text \<open>C28. The router only starts on a configuration that satisfies the declarative contract
  \<open>config_ok\<close> (unique backends with an address, rules, default route and budgets that refer to
  existing backends and rules, priced backends wherever a budget is in dollars), and every
  configuration that reads, parses and satisfies it is accepted.\<close>
theorem LoadConfig_accepts:
  "LoadConfig readFile unmarshal validName path = Inr c \<longleftrightarrow>
     (\<exists>data. readFile path = Some data \<and> unmarshal data = Some c \<and> config_ok validName c)"
proof (cases "readFile path")
  case None
  then show ?thesis by (simp add: LoadConfig_def)
next
  case (Some data)
  show ?thesis
  proof (cases "unmarshal data")
    case None
    with Some show ?thesis by (simp add: LoadConfig_def)
  next
    case (Some d)
    show ?thesis
      using Validate_None_iff [of validName d] \<open>readFile path = Some data\<close> Some
      by (auto simp: LoadConfig_def split: option.splits)
  qed
qed

section \<open>A worked configuration\<close>

text \<open>A router with a local and a cloud backend: requests classified \<open>pii\<close> are pinned to the
  local backend and fail closed, everything else goes to the cloud backend. It satisfies the
  contract, and the witnesses of the development evaluate on it.\<close>

definition ex_backend :: "gostring \<Rightarrow> gostring \<Rightarrow> Backend" where
  "ex_backend name tier =
     \<lparr>be_Name = name, be_DisplayName = '''', be_Tier = tier, be_Address = ''http://'' @ name,
      be_Endpoints = [], be_EndpointSource = None, be_Balancing = None, be_Metrics = None,
      be_Provider = '''', be_Model = '''', be_ServedModel = '''', be_InferenceService = '''',
      be_Capabilities = [''chat''], be_Weight = 0, be_CredentialsEnv = '''', be_Timeout = 0,
      be_Pool = None, be_CostPerMillionTokens = Some \<lparr>PromptUSD = 1, CompletionUSD = 2\<rparr>\<rparr>"

definition ex_rule :: Rule where
  "ex_rule = \<lparr>rule_Name = ''pii'',
     rule_Match = \<lparr>DataClassification = [''pii''], TaskComplexity = '''', RequiredCapabilities = [],
       match_Headers = [], match_Models = []\<rparr>,
     rule_Route = \<lparr>route_Backends = [''local''], route_Strategy = '''', route_PoolActivation = ''''\<rparr>,
     rule_FailClosed = True, rule_Timeout = 0\<rparr>"

definition ex_budget :: Budget where
  "ex_budget = \<lparr>bud_Name = ''all'', bud_Scope = BudgetScopeRouter, bud_RuleName = '''',
     bud_HeaderKey = '''', bud_Window = minute, bud_MaxTokens = 100, bud_MaxUSD = 0\<rparr>"

definition ex_config :: Config where
  "ex_config = \<lparr>cfg_Backends = [ex_backend ''local'' ''local'', ex_backend ''gpt'' ''cloud''],
     cfg_Rules = [ex_rule], cfg_DefaultRoute = ''gpt'', cfg_DefaultRouteStrategy = '''',
     cfg_Policy = \<lparr>pol_Classification = \<lparr>cls_Mode = ''header'', cls_HeaderKey = '''',
         cls_Sensitive = [''pii'']\<rparr>,
       pol_AuditLog = \<lparr>audit_Sink = '''', audit_FilePath = '''', audit_IncludeRequestBody = False\<rparr>,
       pol_Budgets = [ex_budget]\<rparr>\<rparr>"

lemma ex_config_ok: "config_ok (\<lambda>_. True) ex_config"
  by (simp add: config_ok_def ex_config_def ex_backend_def ex_rule_def ex_budget_def backend_ok_def
      balancing_ok_def rule_ok_def budget_ok_def config_simps)

end
