(* ===== verification/Path_Match.thy ===== *)
theory Path_Match
  imports Go_Prelude
begin

text \<open>
  The shell glob matcher \<open>path.Match\<close> of Go's standard library, which
  \<open>internal/router/match.go\<close> calls on every model pattern of a rule. The functions follow
  the library's algorithm: \<open>scanChunk\<close> splits a pattern at its unescaped stars,
  \<open>matchChunk\<close> matches one star-free chunk (literals, \<open>?\<close>, character classes, escapes)
  against the front of the name and keeps checking the syntax of the chunk after a mismatch,
  and \<open>path_Match\<close> tries the positions a star may skip. \<open>None\<close> is \<open>ErrBadPattern\<close>. The
  lemmas characterise the two shapes of pattern the router's documentation uses: a literal
  name, and a literal prefix followed by a star.
\<close>

section \<open>UTF-8 decoding\<close>

definition byte_at :: "gostring \<Rightarrow> nat \<Rightarrow> nat" where
  "byte_at s i = (if i < length s then of_char (s ! i) else 0)"

definition in_range :: "nat \<Rightarrow> nat \<Rightarrow> nat \<Rightarrow> bool" where
  "in_range lo hi x = (lo \<le> x \<and> x \<le> hi)"

text \<open>\<open>utf8.DecodeRuneInString\<close>: the first rune and its width; an invalid encoding is the
  replacement rune with width 1, an empty string has width 0.\<close>

definition decodeRune :: "gostring \<Rightarrow> nat \<times> nat" where
  "decodeRune s =
     (let b0 = byte_at s 0; b1 = byte_at s 1; b2 = byte_at s 2; b3 = byte_at s 3;
          cont = in_range 128 191 in
      if s = [] then (65533, 0)
      else if b0 < 128 then (b0, 1)
      else if in_range 194 223 b0 \<and> cont b1 then ((b0 - 192) * 64 + (b1 - 128), 2)
      else if in_range 224 239 b0 \<and> cont b1 \<and> cont b2 \<and>
              (b0 = 224 \<longrightarrow> 160 \<le> b1) \<and> (b0 = 237 \<longrightarrow> b1 \<le> 159)
           then ((b0 - 224) * 4096 + (b1 - 128) * 64 + (b2 - 128), 3)
      else if in_range 240 244 b0 \<and> cont b1 \<and> cont b2 \<and> cont b3 \<and>
              (b0 = 240 \<longrightarrow> 144 \<le> b1) \<and> (b0 = 244 \<longrightarrow> b1 \<le> 143)
           then ((b0 - 240) * 262144 + (b1 - 128) * 4096 + (b2 - 128) * 64 + (b3 - 128), 4)
      else (65533, 1))"

section \<open>Chunks\<close>

text \<open>\<open>getEsc\<close>: one possibly escaped rune of a character class, and what follows it.\<close>

definition getEsc :: "gostring \<Rightarrow> (nat \<times> gostring) option" where
  "getEsc chunk =
     (case chunk of
        [] \<Rightarrow> None
      | c # cs \<Rightarrow>
          if c = CHR ''-'' \<or> c = CHR '']'' then None
          else (let ch = (if c = CHR 0x5C then cs else chunk) in
            if ch = [] then None
            else (let (r, n) = decodeRune ch; rest = drop n ch in
              if (r = 65533 \<and> n = 1) \<or> rest = [] then None else Some (r, rest))))"

lemma decodeRune_width: "s \<noteq> [] \<Longrightarrow> 1 \<le> snd (decodeRune s)"
  by (auto simp: decodeRune_def Let_def)

lemma getEsc_shorter: "getEsc chunk = Some (r, rest) \<Longrightarrow> length rest < length chunk"
proof -
  assume h: "getEsc chunk = Some (r, rest)"
  then obtain c cs where c: "chunk = c # cs" by (cases chunk) (auto simp: getEsc_def)
  define ch where "ch = (if c = CHR 0x5C then cs else chunk)"
  have ne: "ch \<noteq> []" and rest: "rest = drop (snd (decodeRune ch)) ch"
    using h unfolding c ch_def
    by (auto simp: getEsc_def Let_def split: if_splits prod.splits)
  have "length rest < length ch"
    using decodeRune_width [OF ne] ne unfolding rest by (cases ch) auto
  also have "length ch \<le> length chunk" by (simp add: ch_def c)
  finally show ?thesis .
qed

text \<open>The loop over the ranges of a character class, from after the optional caret.\<close>

function classLoop :: "nat \<Rightarrow> bool \<Rightarrow> nat \<Rightarrow> gostring \<Rightarrow> (bool \<times> gostring) option" where
  "classLoop r m nrange chunk =
     (if chunk \<noteq> [] \<and> hd chunk = CHR '']'' \<and> nrange > 0 then Some (m, tl chunk)
      else (case getEsc chunk of
          None \<Rightarrow> None
        | Some (lo, ch1) \<Rightarrow>
            (if hd ch1 = CHR ''-''
             then (case getEsc (tl ch1) of
                 None \<Rightarrow> None
               | Some (hi, ch2) \<Rightarrow> classLoop r (m \<or> (lo \<le> r \<and> r \<le> hi)) (Suc nrange) ch2)
             else classLoop r (m \<or> (lo \<le> r \<and> r \<le> lo)) (Suc nrange) ch1)))"
  by pat_completeness auto
termination
proof (relation "measure (\<lambda>(r, m, n, chunk). length chunk)")
  show "wf (measure (\<lambda>(r :: nat, m :: bool, n :: nat, chunk :: gostring). length chunk))" by simp
next
  fix r m n and chunk :: gostring and x2 :: "nat \<times> gostring" and lo ch1 and y2 :: "nat \<times> gostring" and hi ch2
  assume "getEsc chunk = Some x2" "(lo, ch1) = x2" "getEsc (tl ch1) = Some y2" "(hi, ch2) = y2"
  then have "length ch1 < length chunk" "length ch2 < length (tl ch1)"
    by (auto dest: getEsc_shorter)
  then show "((r, m \<or> lo \<le> r \<and> r \<le> hi, Suc n, ch2), r, m, n, chunk)
      \<in> measure (\<lambda>(r, m, n, chunk). length chunk)" by auto
next
  fix r m n and chunk :: gostring and x2 :: "nat \<times> gostring" and lo ch1
  assume "getEsc chunk = Some x2" "(lo, ch1) = x2"
  then show "((r, m \<or> lo \<le> r \<and> r \<le> lo, Suc n, ch1), r, m, n, chunk)
      \<in> measure (\<lambda>(r, m, n, chunk). length chunk)"
    by (auto dest: getEsc_shorter)
qed

declare classLoop.simps [simp del]

lemma classLoop_shorter:
  "classLoop r m n chunk = Some (b, rest) \<Longrightarrow> length rest < length chunk"
proof (induction r m n chunk rule: classLoop.induct)
  case (1 r m n chunk)
  show ?case
  proof (cases "chunk \<noteq> [] \<and> hd chunk = CHR '']'' \<and> n > 0")
    case True
    with "1.prems" have "rest = tl chunk" by (simp add: classLoop.simps [of r m n chunk])
    with True show ?thesis by simp
  next
    case False
    with "1.prems" obtain lo ch1 where e: "getEsc chunk = Some (lo, ch1)"
      by (auto simp: classLoop.simps [of r m n chunk] split: option.splits)
    then have l1: "length ch1 < length chunk" by (rule getEsc_shorter)
    show ?thesis
    proof (cases "hd ch1 = CHR ''-''")
      case True
      then obtain hi ch2 where e2: "getEsc (tl ch1) = Some (hi, ch2)"
        using "1.prems" e False
        by (auto simp: classLoop.simps [of r m n chunk] split: option.splits)
      have "length rest < length ch2"
        using "1.IH"(1) [OF False e _ True e2] "1.prems" e e2 False True
        by (auto simp: classLoop.simps [of r m n chunk])
      with getEsc_shorter [OF e2] l1 show ?thesis by simp
    next
      case nd: False
      have "length rest < length ch1"
        using "1.IH"(2) [OF False e _ nd] "1.prems" e False nd
        by (auto simp: classLoop.simps [of r m n chunk])
      with l1 show ?thesis by simp
    qed
  qed
qed

text \<open>\<open>matchChunk\<close>: \<open>Some (rest, ok)\<close>, or \<open>None\<close> for a malformed chunk.\<close>

function matchChunk :: "bool \<Rightarrow> gostring \<Rightarrow> gostring \<Rightarrow> (gostring \<times> bool) option" where
  "matchChunk failed [] s = Some (if failed then ([], False) else (s, True))"
| "matchChunk failed (c # cs) s =
     (let f = (failed \<or> s = []) in
      if c = CHR ''['' then
        (let (r, s') = (if f then (0, s) else (fst (decodeRune s), drop (snd (decodeRune s)) s));
             neg = (cs \<noteq> [] \<and> hd cs = CHR ''^'');
             cs' = (if neg then tl cs else cs) in
         case classLoop r False 0 cs' of
           None \<Rightarrow> None
         | Some (m, cs2) \<Rightarrow> matchChunk (f \<or> m = neg) cs2 s')
      else if c = CHR ''?'' then
        (if f then matchChunk f cs s
         else matchChunk (hd s = CHR ''/'') cs (drop (snd (decodeRune s)) s))
      else if c = CHR 0x5C then
        (case cs of
           [] \<Rightarrow> None
         | x # xs \<Rightarrow> if f then matchChunk f xs s else matchChunk (x \<noteq> hd s) xs (tl s))
      else (if f then matchChunk f cs s else matchChunk (c \<noteq> hd s) cs (tl s)))"
  by pat_completeness auto
termination
proof (relation "measure (\<lambda>(failed, chunk, s). length chunk)", goal_cases)
  case (2 failed c cs s f r0 r s' neg cs' x2 m cs2)
  then have "length cs2 < length cs'" by (auto dest: classLoop_shorter)
  moreover have "length cs' \<le> length cs" using 2 by auto
  ultimately show ?case by auto
qed auto

section \<open>Patterns\<close>

fun scan :: "bool \<Rightarrow> gostring \<Rightarrow> gostring \<times> gostring" where
  "scan inrange [] = ([], [])"
| "scan inrange (c # cs) =
     (if c = CHR 0x5C then
        (case cs of [] \<Rightarrow> ([c], []) | d # ds \<Rightarrow> apfst (\<lambda>a. c # d # a) (scan inrange ds))
      else if c = CHR ''['' then apfst ((#) c) (scan True cs)
      else if c = CHR '']'' then apfst ((#) c) (scan False cs)
      else if c = CHR ''*'' \<and> \<not> inrange then ([], c # cs)
      else apfst ((#) c) (scan inrange cs))"

definition scanChunk :: "gostring \<Rightarrow> bool \<times> gostring \<times> gostring" where
  "scanChunk p = (p \<noteq> [] \<and> hd p = CHR ''*'', scan False (dropWhile (\<lambda>c. c = CHR ''*'') p))"

lemma scan_length: "length (snd (scan i p)) \<le> length p"
proof (induction i p rule: scan.induct)
  case (1 i)
  show ?case by simp
next
  case (2 i c cs)
  show ?case
  proof (cases cs)
    case Nil
    then show ?thesis using 2 by simp
  next
    case (Cons d ds)
    have a: "c = CHR 0x5C \<Longrightarrow> length (snd (scan i ds)) \<le> length ds" using 2(1) Cons by blast
    show ?thesis
    proof (cases "c = CHR 0x5C")
      case True
      with a show ?thesis by (simp add: Cons)
    next
      case False
      with 2(2-4) show ?thesis by (auto simp del: scan.simps simp: scan.simps(2))
    qed
  qed
qed

lemma scan_shorter:
  assumes "c \<noteq> CHR ''*''"
  shows "length (snd (scan False (c # cs))) < length (c # cs)"
proof (cases cs)
  case Nil
  with assms show ?thesis by simp
next
  case (Cons d ds)
  have "length (snd (scan i cs)) < length (c # cs)" "length (snd (scan False ds)) < length (c # cs)" for i
    using scan_length [of i cs] scan_length [of False ds] by (simp_all add: Cons)
  with assms show ?thesis by (simp add: Cons)
qed

lemma scanChunk_shorter:
  assumes "p \<noteq> []" and "(star, chunk, rest) = scanChunk p"
  shows "length rest < length p"
proof -
  obtain c cs where p: "p = c # cs" using assms(1) by (cases p) auto
  define q where "q = dropWhile (\<lambda>c. c = CHR ''*'') p"
  have rest: "rest = snd (scan False q)"
    using assms(2) unfolding scanChunk_def q_def by (metis snd_conv)
  show ?thesis
  proof (cases "c = CHR ''*''")
    case True
    then have "length q \<le> length cs" unfolding q_def p by (simp add: length_dropWhile_le)
    then show ?thesis using scan_length [of False q] unfolding rest p by simp
  next
    case False
    then have "q = c # cs" unfolding q_def p by simp
    then show ?thesis using scan_shorter [OF False, of cs] unfolding rest p by (simp only:)
  qed
qed

text \<open>The positions a star may skip to: \<open>Some (Some t)\<close> is a match with \<open>t\<close> left over.\<close>

fun starLoop :: "gostring \<Rightarrow> bool \<Rightarrow> gostring \<Rightarrow> gostring option option" where
  "starLoop chunk lastp [] = Some None"
| "starLoop chunk lastp (x # xs) =
     (if x = CHR ''/'' then Some None
      else (case matchChunk False chunk xs of
          None \<Rightarrow> None
        | Some (t, ok) \<Rightarrow>
            if ok \<and> \<not> (lastp \<and> t \<noteq> []) then Some (Some t) else starLoop chunk lastp xs))"

text \<open>After a mismatch the rest of the pattern is still checked for syntax.\<close>

function checkRest :: "gostring \<Rightarrow> bool option" where
  "checkRest p =
     (if p = [] then Some False
      else (let (star, chunk, rest) = scanChunk p in
        if matchChunk False chunk [] = None then None else checkRest rest))"
  by pat_completeness auto
termination
  by (relation "measure length") (auto intro: scanChunk_shorter)

declare checkRest.simps [simp del]

function path_Match :: "gostring \<Rightarrow> gostring \<Rightarrow> bool option" where
  "path_Match p name =
     (if p = [] then Some (name = [])
      else (let (star, chunk, rest) = scanChunk p in
        if star \<and> chunk = [] then Some (CHR ''/'' \<notin> set name)
        else (case matchChunk False chunk name of
            None \<Rightarrow> None
          | Some (t, ok) \<Rightarrow>
              if ok \<and> (t = [] \<or> rest \<noteq> []) then path_Match rest t
              else if star then
                (case starLoop chunk (rest = []) name of
                   None \<Rightarrow> None
                 | Some (Some t') \<Rightarrow> path_Match rest t'
                 | Some None \<Rightarrow> checkRest rest)
              else checkRest rest)))"
  by pat_completeness auto
termination
  by (relation "measure (\<lambda>(p, name). length p)") (auto intro: scanChunk_shorter)

declare path_Match.simps [simp del]

section \<open>Literal patterns and prefix patterns\<close>

definition literal :: "gostring \<Rightarrow> bool" where
  "literal p \<longleftrightarrow> (\<forall>c \<in> set p. c \<notin> {CHR ''*'', CHR ''?'', CHR ''['', CHR '']'', CHR 0x5C})"

lemma literal_simps [simp]:
  "literal []"
  "literal (c # cs) \<longleftrightarrow> c \<notin> {CHR ''*'', CHR ''?'', CHR ''['', CHR '']'', CHR 0x5C} \<and> literal cs"
  by (auto simp: literal_def)

lemma matchChunk_failed_literal: "literal p \<Longrightarrow> matchChunk True p s = Some ([], False)"
  by (induction p arbitrary: s) auto

lemma matchChunk_literal:
  "literal p \<Longrightarrow> matchChunk False p s =
     Some (if has_prefix p s then (drop (length p) s, True) else ([], False))"
proof (induction p arbitrary: s)
  case Nil
  then show ?case by (simp add: has_prefix_def)
next
  case (Cons c cs)
  show ?case
  proof (cases s)
    case Nil
    with Cons.prems show ?thesis
      by (simp add: has_prefix_def matchChunk_failed_literal)
  next
    case (Cons x xs)
    with Cons.prems Cons.IH show ?thesis
      by (cases "c = x") (auto simp: has_prefix_def matchChunk_failed_literal)
  qed
qed

lemma scan_literal: "literal p \<Longrightarrow> scan i (p @ q) = apfst ((@) p) (scan i q)"
  by (induction p) (auto simp: apfst_def map_prod_def case_prod_unfold)

lemma scanChunk_literal:
  assumes "literal p" and "p \<noteq> []" and "q = [] \<or> hd q = CHR ''*''"
  shows "scanChunk (p @ q) = (False, p, q)"
proof -
  obtain c cs where p: "p = c # cs" using assms(2) by (cases p) auto
  have "scan False q = ([], q)" using assms(3) by (cases q) auto
  then have "scan False (p @ q) = (p, q)" using scan_literal [OF assms(1)] by simp
  with assms(1) p show ?thesis by (auto simp: scanChunk_def)
qed

lemma path_Match_literal:
  assumes "literal p"
  shows "path_Match p name = Some (name = p)"
proof (cases "p = []")
  case True
  then show ?thesis by (simp add: path_Match.simps [of "[]"])
next
  case False
  have sc: "scanChunk p = (False, p, [])"
    using scanChunk_literal [OF assms False, of "[]"] by simp
  have nil: "path_Match [] t = Some (t = [])" "checkRest [] = Some False" for t
    by (simp_all add: path_Match.simps [of "[]"] checkRest.simps [of "[]"])
  have pre: "has_prefix p name \<and> drop (length p) name = [] \<longleftrightarrow> name = p"
    by (auto simp: has_prefix_iff)
  show ?thesis
    unfolding path_Match.simps [of p name] sc
    using False pre by (auto simp: nil matchChunk_literal [OF assms])
qed

lemma path_Match_prefix_star:
  assumes "literal p"
  shows "path_Match (p @ ''*'') name = Some (\<exists>r. name = p @ r \<and> CHR ''/'' \<notin> set r)"
proof -
  have star: "path_Match ''*'' t = Some (CHR ''/'' \<notin> set t)" for t
    by (simp add: path_Match.simps [of "''*''"] scanChunk_def)
  show ?thesis
  proof (cases "p = []")
    case True
    then show ?thesis by (simp add: star)
  next
    case False
    have sc: "scanChunk (p @ ''*'') = (False, p, ''*'')"
      using scanChunk_literal [OF assms False, of "''*''"] by simp
    have cr: "checkRest ''*'' = Some False"
      by (simp add: checkRest.simps [of "''*''"] checkRest.simps [of "[]"] scanChunk_def)
    show ?thesis
      unfolding path_Match.simps [of "p @ ''*''" name] sc
      by (auto simp: star cr has_prefix_iff matchChunk_literal [OF assms])
  qed
qed

lemma path_Match_star: "path_Match ''*'' name = Some (CHR ''/'' \<notin> set name)"
  using path_Match_prefix_star [of "[]" name] by simp

end
