(* ===== verification/Router_Match.thy ===== *)
theory Router_Match
  imports Router_Config Path_Match
begin

text \<open>
  The rule matcher (\<open>internal/router/match.go\<close>): request features, the match predicates of a
  rule, and \<open>Matcher.Match\<close> with its three ways of resolving a request (first matching rule,
  backend addressed by its published id, default route). The lemmas state first-match
  semantics, that every backend of a decision is configured, and that the matcher's name
  index agrees with the linear scan of \<open>Config.BackendByName\<close>.
\<close>

section \<open>Data types\<close>

record RequestFeatures =
  rf_Model :: gostring
  rf_Classification :: gostring
  rf_TaskComplexity :: gostring
  rf_Headers :: "gostring \<Rightarrow> gostring option"

record MatchResult =
  mr_Rule :: "Rule option"
  mr_Backends :: "gostring list"
  mr_Strategy :: gostring
  mr_FailClosed :: bool
  mr_PoolActivation :: gostring

record Matcher =
  m_cfg :: Config
  m_backendsByName :: "gostring \<Rightarrow> Backend option"

definition strategyPrimaryFallback :: gostring where
  "strategyPrimaryFallback = ''primary-fallback''"

definition emptyMatchResult :: MatchResult where
  "emptyMatchResult = \<lparr>mr_Rule = None, mr_Backends = [], mr_Strategy = '''',
     mr_FailClosed = False, mr_PoolActivation = ''''\<rparr>"

section \<open>Matching one rule\<close>

definition NewMatcher :: "Config \<Rightarrow> Matcher" where
  "NewMatcher cfg = \<lparr>m_cfg = cfg,
     m_backendsByName = foldl (\<lambda>m b. m(be_Name b \<mapsto> b)) Map.empty (cfg_Backends cfg)\<rparr>"

definition publishedID :: "Backend \<Rightarrow> gostring" where
  "publishedID b = (if be_DisplayName b \<noteq> '''' then be_DisplayName b else be_Name b)"

definition Matcher_BackendByName :: "Matcher \<Rightarrow> gostring \<Rightarrow> Backend option" where
  "Matcher_BackendByName m name = m_backendsByName m name"

definition backendByPublishedID :: "Matcher \<Rightarrow> gostring \<Rightarrow> Backend option" where
  "backendByPublishedID m ident = List.find (\<lambda>b. publishedID b = ident) (cfg_Backends (m_cfg m))"

definition strategyOrDefault :: "gostring \<Rightarrow> gostring" where
  "strategyOrDefault s = (if s = '''' then strategyPrimaryFallback else s)"

definition contains :: "gostring list \<Rightarrow> gostring \<Rightarrow> bool" where
  "contains haystack needle = (\<exists>s \<in> set haystack. s = needle)"

definition matchModels :: "gostring list \<Rightarrow> gostring \<Rightarrow> bool" where
  "matchModels patterns model =
     (if patterns = [] then True
      else if model = '''' then (\<exists>p \<in> set patterns. p = ''*'')
      else (\<exists>p \<in> set patterns. path_Match p model = Some True))"

definition matchHeaders ::
    "(gostring \<times> gostring) list \<Rightarrow> (gostring \<Rightarrow> gostring option) \<Rightarrow> bool" where
  "matchHeaders want hdrs = (\<forall>(k, wantVal) \<in> set want. hdrs (toLower k) = Some wantVal)"

definition hasAllCapabilities :: "gostring list \<Rightarrow> gostring list \<Rightarrow> bool" where
  "hasAllCapabilities caps want = (\<forall>w \<in> set want. w \<in> set caps)"

definition satisfiesRequiredCapabilities :: "Matcher \<Rightarrow> gostring list \<Rightarrow> gostring list \<Rightarrow> bool" where
  "satisfiesRequiredCapabilities m required backendNames =
     (if required = [] then True
      else (\<exists>name \<in> set backendNames.
              case m_backendsByName m name of
                None \<Rightarrow> False
              | Some b \<Rightarrow> hasAllCapabilities (be_Capabilities b) required))"

definition ruleMatches :: "Matcher \<Rightarrow> Rule \<Rightarrow> RequestFeatures \<Rightarrow> bool" where
  "ruleMatches m rule f =
     (let mt = rule_Match rule in
      if DataClassification mt \<noteq> [] \<and> \<not> contains (DataClassification mt) (rf_Classification f) then False
      else if TaskComplexity mt \<noteq> '''' \<and> TaskComplexity mt \<noteq> rf_TaskComplexity f then False
      else if \<not> matchModels (match_Models mt) (rf_Model f) then False
      else if \<not> matchHeaders (match_Headers mt) (rf_Headers f) then False
      else if \<not> satisfiesRequiredCapabilities m (RequiredCapabilities mt) (route_Backends (rule_Route rule))
      then False
      else True)"

section \<open>Matching a request\<close>

fun firstRule :: "Matcher \<Rightarrow> Rule list \<Rightarrow> RequestFeatures \<Rightarrow> Rule option" where
  "firstRule m [] f = None"
| "firstRule m (r # rs) f = (if ruleMatches m r f then Some r else firstRule m rs f)"

definition Match :: "Matcher \<Rightarrow> RequestFeatures \<Rightarrow> MatchResult" where
  "Match m f =
     (case firstRule m (cfg_Rules (m_cfg m)) f of
        Some rule \<Rightarrow>
          \<lparr>mr_Rule = Some rule,
           mr_Backends = route_Backends (rule_Route rule),
           mr_Strategy = strategyOrDefault (route_Strategy (rule_Route rule)),
           mr_FailClosed = rule_FailClosed rule,
           mr_PoolActivation = route_PoolActivation (rule_Route rule)\<rparr>
      | None \<Rightarrow>
          (let named =
             (if cfg_DefaultRouteStrategy (m_cfg m) = DefaultRouteStrategyBackendNameMatch
                 \<and> rf_Model f \<noteq> ''''
              then backendByPublishedID m (rf_Model f) else None) in
           case named of
             Some b \<Rightarrow> emptyMatchResult\<lparr>mr_Backends := [be_Name b], mr_Strategy := strategyPrimaryFallback\<rparr>
           | None \<Rightarrow>
               if cfg_DefaultRoute (m_cfg m) \<noteq> ''''
               then emptyMatchResult\<lparr>mr_Backends := [cfg_DefaultRoute (m_cfg m)],
                      mr_Strategy := strategyPrimaryFallback\<rparr>
               else emptyMatchResult))"

section \<open>The name index\<close>

lemma fold_index_map_of:
  "foldl (\<lambda>m b. m(f b \<mapsto> b)) M bs = M ++ map_of (rev (map (\<lambda>b. (f b, b)) bs))"
  by (induction bs arbitrary: M) (auto simp: map_add_def fun_eq_iff split: option.splits)

lemma NewMatcher_index:
  assumes "distinct (map be_Name (cfg_Backends c))"
  shows "m_backendsByName (NewMatcher c) n = BackendByName c n"
proof -
  have "map fst (map (\<lambda>b. (be_Name b, b)) (cfg_Backends c)) = map be_Name (cfg_Backends c)" by simp
  then have "map_of (rev (map (\<lambda>b. (be_Name b, b)) (cfg_Backends c))) =
      map_of (map (\<lambda>b. (be_Name b, b)) (cfg_Backends c))"
    using assms by (intro map_of_rev_distinct) (simp add: comp_def)
  then show ?thesis
    unfolding NewMatcher_def BackendByName_def
    by (simp add: fold_index_map_of map_of_key_fun)
qed

lemma NewMatcher_cfg [simp]: "m_cfg (NewMatcher c) = c"
  by (simp add: NewMatcher_def)

lemma config_ok_index: "config_ok v c \<Longrightarrow> Matcher_BackendByName (NewMatcher c) n = BackendByName c n"
  by (simp add: Matcher_BackendByName_def NewMatcher_index config_ok_def)

section \<open>First-match semantics\<close>

lemma firstRule_find: "firstRule m rs f = List.find (\<lambda>r. ruleMatches m r f) rs"
  by (induction rs) auto

lemma Match_rule: "mr_Rule (Match m f) = firstRule m (cfg_Rules (m_cfg m)) f"
  by (auto simp: Match_def emptyMatchResult_def Let_def split: option.splits)

lemma Match_rule_in: "mr_Rule (Match m f) = Some r \<Longrightarrow> r \<in> set (cfg_Rules (m_cfg m)) \<and> ruleMatches m r f"
  unfolding Match_rule firstRule_find by (rule find_Some_in)

lemma Match_of_rule:
  assumes "mr_Rule (Match m f) = Some r"
  shows "mr_Backends (Match m f) = route_Backends (rule_Route r)"
    and "mr_FailClosed (Match m f) = rule_FailClosed r"
    and "mr_PoolActivation (Match m f) = route_PoolActivation (rule_Route r)"
  using assms unfolding Match_rule by (simp_all add: Match_def)

lemma Match_FailClosed_rule:
  "mr_FailClosed (Match m f) \<Longrightarrow> \<exists>r. mr_Rule (Match m f) = Some r \<and> rule_FailClosed r"
  by (auto simp: Match_def emptyMatchResult_def Let_def split: option.splits if_splits)

lemma Match_unmatched_backends:
  assumes "mr_Rule (Match m f) = None" and "n \<in> set (mr_Backends (Match m f))"
  shows "(\<exists>b \<in> set (cfg_Backends (m_cfg m)). be_Name b = n \<and> publishedID b = rf_Model f) \<or>
         n = cfg_DefaultRoute (m_cfg m) \<and> n \<noteq> ''''"
  using assms unfolding Match_rule
  by (auto simp: Match_def emptyMatchResult_def Let_def backendByPublishedID_def
      split: option.splits if_splits dest!: find_Some_in)

lemma Match_backends_configured:
  assumes ok: "config_ok v c" and n: "n \<in> set (mr_Backends (Match (NewMatcher c) f))"
  shows "\<exists>b. BackendByName c n = Some b \<and> be_Name b = n"
proof (cases "mr_Rule (Match (NewMatcher c) f)")
  case (Some r)
  with n have "n \<in> set (route_Backends (rule_Route r))" by (simp add: Match_of_rule)
  moreover have "r \<in> set (cfg_Rules c)" using Match_rule_in [OF Some] by simp
  ultimately show ?thesis
    using config_ok_rule_backend [OF ok] BackendByName_Some by blast
next
  case None
  from Match_unmatched_backends [OF None n] ok
  have "n \<in> be_Name ` set (cfg_Backends c)" by (auto simp: config_ok_def)
  then obtain b where "b \<in> set (cfg_Backends c)" "be_Name b = n" by blast
  then show ?thesis using config_ok_backend(2) [OF ok] by blast
qed

section \<open>Model patterns\<close>

lemma matchModels_literal:
  assumes "\<forall>p \<in> set ps. literal p" and "ps \<noteq> []" and "model \<noteq> ''''"
  shows "matchModels ps model \<longleftrightarrow> model \<in> set ps"
  using assms by (auto simp: matchModels_def path_Match_literal)

lemma matchModels_prefix:
  assumes "literal p" and "model \<noteq> ''''"
  shows "matchModels [p @ ''*''] model \<longleftrightarrow> (\<exists>r. model = p @ r \<and> CHR ''/'' \<notin> set r)"
  using assms by (simp add: matchModels_def path_Match_prefix_star)

section \<open>Properties\<close>

definition ex_features :: RequestFeatures where
  "ex_features = \<lparr>rf_Model = ''any'', rf_Classification = ''pii'', rf_TaskComplexity = '''',
     rf_Headers = Map.empty\<rparr>"

lemma ex_ruleMatches: "ruleMatches (NewMatcher ex_config) ex_rule ex_features"
  by (simp add: ruleMatches_def ex_rule_def ex_features_def contains_def matchModels_def
      matchHeaders_def satisfiesRequiredCapabilities_def)

lemma ex_rules: "cfg_Rules ex_config = [ex_rule]"
  by (simp add: ex_config_def)

text \<open>First-match semantics: a request is decided by rule \<open>r\<close> exactly when \<open>r\<close> matches it
  and no earlier rule of the configuration does; the decision then carries that rule's
  backends in their order, its fail-closed flag and its pool activation mode.\<close>
lemma Match_first_match:
  "mr_Rule (Match m f) = Some r \<longleftrightarrow>
     (\<exists>pre post. cfg_Rules (m_cfg m) = pre @ r # post \<and> ruleMatches m r f \<and>
        (\<forall>q \<in> set pre. \<not> ruleMatches m q f) \<and>
        mr_Backends (Match m f) = route_Backends (rule_Route r) \<and>
        mr_FailClosed (Match m f) = rule_FailClosed r \<and>
        mr_PoolActivation (Match m f) = route_PoolActivation (rule_Route r))"
  using Match_of_rule [of m f r] find_split_iff [of "\<lambda>r. ruleMatches m r f" "cfg_Rules (m_cfg m)" r]
  unfolding Match_rule firstRule_find by blast

text \<open>Every backend a decision names, by rule, by published id or by default route, exists in
  the configuration, for every accepted configuration and every request, and the matcher's
  index resolves it to the backend the configuration declares under that name.\<close>
lemma Match_backends_exist:
  assumes "config_ok validName c" and "n \<in> set (mr_Backends (Match (NewMatcher c) f))"
  shows "\<exists>b. b \<in> set (cfg_Backends c) \<and> be_Name b = n \<and>
    Matcher_BackendByName (NewMatcher c) n = Some b"
  using Match_backends_configured [OF assms] assms(1) BackendByName_Some
  by (metis config_ok_index)

end
