(* ===== verification/Router_Budget.thy ===== *)
theory Router_Budget
  imports Go_Prelude
begin

text \<open>
  The rolling-window budget store (\<open>internal/router/budget.go\<close>): budget rules keyed by scope,
  per-scope one-second buckets, \<open>Allowed\<close>, \<open>Charge\<close> and \<open>Snapshot\<close>. The clock \<open>nowFn\<close> is the
  argument \<open>now\<close> of every operation. The store is shown to implement an event log of all
  charges: under a clock that does not run backwards the usage it reports is the log's usage
  in the window, and the number of buckets it keeps is bounded by the window.
\<close>

section \<open>State\<close>

record BudgetRule =
  br_Name :: gostring
  br_ScopeKey :: gostring
  br_MaxTokens :: int
  br_MaxUSD :: float64
  br_Window :: duration

record BudgetUsage =
  bu_Name :: gostring
  bu_ScopeKey :: gostring
  bu_UsedTokens :: int
  bu_UsedUSD :: float64
  bu_MaxTokens :: int
  bu_MaxUSD :: float64
  bu_Window :: duration

record bucket =
  bk_start :: instant
  bk_tokens :: int
  bk_usd :: float64

record BudgetStore =
  bs_rules :: "(gostring \<times> BudgetRule) list"
  bs_buckets :: "(gostring \<times> bucket list) list"

definition bucketDuration :: duration where
  "bucketDuration = second"

definition NewBudgetStore :: "BudgetRule list \<Rightarrow> BudgetStore" where
  "NewBudgetStore rules =
     \<lparr>bs_rules = foldl (\<lambda>m r. alist_set (br_ScopeKey r) r m) [] rules, bs_buckets = []\<rparr>"

section \<open>Operations\<close>

definition teamHeaderKey :: "gostring \<Rightarrow> gostring option" where
  "teamHeaderKey sk =
     (case cut_prefix ''team:'' sk of
        None \<Rightarrow> None
      | Some rest \<Rightarrow> (case cut_at (CHR '':'') rest of
          None \<Rightarrow> None
        | Some (hk, val) \<Rightarrow> if hk = '''' \<or> val = '''' then None else Some hk))"

definition ruleFor :: "BudgetStore \<Rightarrow> gostring \<Rightarrow> BudgetRule option" where
  "ruleFor s sk =
     (case alist_get (bs_rules s) sk of
        Some r \<Rightarrow> Some r
      | None \<Rightarrow> (case teamHeaderKey sk of
          None \<Rightarrow> None
        | Some hk \<Rightarrow> alist_get (bs_rules s) (''team:'' @ hk)))"

definition bucketsOf :: "BudgetStore \<Rightarrow> gostring \<Rightarrow> bucket list" where
  "bucketsOf s sk = (case alist_get (bs_buckets s) sk of None \<Rightarrow> [] | Some bs \<Rightarrow> bs)"

fun sumWindow :: "instant \<Rightarrow> bucket list \<Rightarrow> int \<times> float64 \<times> instant \<Rightarrow> int \<times> float64 \<times> instant" where
  "sumWindow windowStart [] acc = acc"
| "sumWindow windowStart (b # bs) (tokens, usd, oldest) =
     (if bk_start b > windowStart
      then sumWindow windowStart bs
             (wrap64 (tokens + bk_tokens b), usd + bk_usd b,
              if oldest = 0 \<or> bk_start b < oldest then bk_start b else oldest)
      else sumWindow windowStart bs (tokens, usd, oldest))"

definition usedInWindow :: "BudgetStore \<Rightarrow> gostring \<Rightarrow> instant \<Rightarrow> duration \<Rightarrow> int \<times> float64 \<times> instant" where
  "usedInWindow s sk now window =
     (let bkts = bucketsOf s sk in
      if bkts = [] then (0, 0, now)
      else sumWindow (now - window) bkts (0, 0, now))"

definition chargeBuckets :: "bucket list \<Rightarrow> instant \<Rightarrow> duration \<Rightarrow> int \<Rightarrow> float64 \<Rightarrow> bucket list" where
  "chargeBuckets bkts0 now window tokens usd =
     (let bucketStart = timeTruncate now bucketDuration in
      if bkts0 = [] then [\<lparr>bk_start = bucketStart, bk_tokens = tokens, bk_usd = usd\<rparr>]
      else
        (let bkts = filter (\<lambda>b. bk_start b > now - window) bkts0 in
         if bkts \<noteq> [] \<and> bk_start (last bkts) = bucketStart
         then bkts[length bkts - 1 := (last bkts)\<lparr>bk_tokens := wrap64 (bk_tokens (last bkts) + tokens),
                                                 bk_usd := bk_usd (last bkts) + usd\<rparr>]
         else bkts @ [\<lparr>bk_start = bucketStart, bk_tokens = tokens, bk_usd = usd\<rparr>]))"

definition charge :: "BudgetStore \<Rightarrow> gostring \<Rightarrow> instant \<Rightarrow> duration \<Rightarrow> int \<Rightarrow> float64 \<Rightarrow> BudgetStore" where
  "charge s sk now window tokens usd =
     s\<lparr>bs_buckets := alist_set sk (chargeBuckets (bucketsOf s sk) now window tokens usd) (bs_buckets s)\<rparr>"

datatype budget_verdict = BudgetOK | BudgetExhausted duration gostring

fun Allowed :: "BudgetStore \<Rightarrow> instant \<Rightarrow> gostring list \<Rightarrow> budget_verdict" where
  "Allowed s now [] = BudgetOK"
| "Allowed s now (sk # sks) =
     (case ruleFor s sk of
        None \<Rightarrow> Allowed s now sks
      | Some rule \<Rightarrow>
          (let (usedTokens, usedUSD, oldest) = usedInWindow s sk now (br_Window rule);
               retryAfter = timeSub (oldest + br_Window rule) now in
           if br_MaxTokens rule > 0 \<and> usedTokens \<ge> br_MaxTokens rule
           then BudgetExhausted (if retryAfter < 0 then 0 else retryAfter) (br_Name rule)
           else if br_MaxUSD rule > 0 \<and> usedUSD \<ge> br_MaxUSD rule
           then BudgetExhausted (if retryAfter < 0 then 0 else retryAfter) (br_Name rule)
           else Allowed s now sks))"

fun Charge :: "BudgetStore \<Rightarrow> instant \<Rightarrow> gostring list \<Rightarrow> int \<Rightarrow> float64 \<Rightarrow> BudgetStore" where
  "Charge s now [] tokens usd = s"
| "Charge s now (sk # sks) tokens usd =
     (case ruleFor s sk of
        None \<Rightarrow> Charge s now sks tokens usd
      | Some rule \<Rightarrow> Charge (charge s sk now (br_Window rule) tokens usd) now sks tokens usd)"

definition usageOf :: "BudgetStore \<Rightarrow> instant \<Rightarrow> gostring \<Rightarrow> BudgetUsage option" where
  "usageOf s now sk =
     (case ruleFor s sk of
        None \<Rightarrow> None
      | Some rule \<Rightarrow>
          (let (usedTokens, usedUSD, _) = usedInWindow s sk now (br_Window rule) in
           Some \<lparr>bu_Name = br_Name rule, bu_ScopeKey = sk, bu_UsedTokens = usedTokens,
                 bu_UsedUSD = usedUSD, bu_MaxTokens = br_MaxTokens rule, bu_MaxUSD = br_MaxUSD rule,
                 bu_Window = br_Window rule\<rparr>))"

definition Snapshot :: "BudgetStore \<Rightarrow> instant \<Rightarrow> BudgetUsage list" where
  "Snapshot s now =
     List.map_filter (usageOf s now)
       (sort (remdups (map fst (bs_rules s) @ map fst (bs_buckets s))))"

section \<open>The ledger a store implements\<close>

type_synonym entry = "instant \<times> int \<times> float64"

definition live_entries :: "instant \<Rightarrow> entry list \<Rightarrow> entry list" where
  "live_entries windowStart L =
     filter (\<lambda>(t, _, _). timeTruncate t bucketDuration > windowStart) L"

definition ledger_tokens :: "instant \<Rightarrow> entry list \<Rightarrow> int" where
  "ledger_tokens windowStart L = wrap64 (\<Sum>(_, tokens, _) \<leftarrow> live_entries windowStart L. tokens)"

definition ledger_usd :: "instant \<Rightarrow> entry list \<Rightarrow> float64" where
  "ledger_usd windowStart L = (\<Sum>(_, _, usd) \<leftarrow> live_entries windowStart L. usd)"

lemma live_entries_simps [simp]:
  "live_entries w [] = []"
  "live_entries w (L @ M) = live_entries w L @ live_entries w M"
  "live_entries w [(t, k, u)] = (if timeTruncate t bucketDuration > w then [(t, k, u)] else [])"
  by (simp_all add: live_entries_def)

text \<open>
  The contract between the accounting of one scope and its clients: a meter is created empty,
  is charged, and reports what was charged in the window. \<open>rel\<close> relates a meter to the ledger
  of every charge it has seen.
\<close>

locale usage_meter =
  fixes new_meter :: 'm
    and put :: "'m \<Rightarrow> instant \<Rightarrow> duration \<Rightarrow> int \<Rightarrow> float64 \<Rightarrow> 'm"
    and report :: "'m \<Rightarrow> instant \<Rightarrow> duration \<Rightarrow> int \<times> float64"
    and rel :: "duration \<Rightarrow> 'm \<Rightarrow> entry list \<Rightarrow> bool"
  assumes rel_new: "rel w new_meter []"
    and rel_put: "rel w m L \<Longrightarrow> \<forall>e \<in> set L. fst e \<le> now \<Longrightarrow> rel w (put m now w k u) (L @ [(now, k, u)])"
    and rel_report: "rel w m L \<Longrightarrow> \<forall>e \<in> set L. fst e \<le> now \<Longrightarrow>
      report m now w = (ledger_tokens (now - w) L, ledger_usd (now - w) L)"
begin

definition put_all :: "duration \<Rightarrow> 'm \<Rightarrow> entry list \<Rightarrow> 'm" where
  "put_all w m L = foldl (\<lambda>m (t, k, u). put m t w k u) m L"

lemma put_all_simps [simp]:
  "put_all w m [] = m"
  "put_all w m (L @ [(t, k, u)]) = put (put_all w m L) t w k u"
  by (simp_all add: put_all_def)

lemma rel_put_all: "sorted (map fst L) \<Longrightarrow> rel w (put_all w new_meter L) L"
proof (induction L rule: rev_induct)
  case Nil
  show ?case by (simp add: rel_new)
next
  case (snoc e L)
  obtain t k u where e: "e = (t, k, u)" by (cases e)
  from snoc.prems have "\<forall>e \<in> set L. fst e \<le> t" "sorted (map fst L)"
    by (auto simp: sorted_append e)
  with snoc.IH show ?case by (simp add: e rel_put)
qed

lemma report_put_all:
  assumes "sorted (map fst L)" and "\<forall>e \<in> set L. fst e \<le> now"
  shows "report (put_all w new_meter L) now w = (ledger_tokens (now - w) L, ledger_usd (now - w) L)"
  using rel_put_all [OF assms(1)] assms(2) by (rule rel_report)

end

section \<open>Buckets implement the ledger\<close>

definition bucket_tokens :: "instant \<Rightarrow> bucket list \<Rightarrow> int" where
  "bucket_tokens w bs = (\<Sum>b \<leftarrow> filter (\<lambda>b. bk_start b > w) bs. bk_tokens b)"

definition bucket_usd :: "instant \<Rightarrow> bucket list \<Rightarrow> float64" where
  "bucket_usd w bs = (\<Sum>b \<leftarrow> filter (\<lambda>b. bk_start b > w) bs. bk_usd b)"

definition bucket_report :: "bucket list \<Rightarrow> instant \<Rightarrow> duration \<Rightarrow> int \<times> float64" where
  "bucket_report bs now window = (wrap64 (bucket_tokens (now - window) bs), bucket_usd (now - window) bs)"

definition buckets_rel :: "duration \<Rightarrow> bucket list \<Rightarrow> entry list \<Rightarrow> bool" where
  "buckets_rel w bs L \<longleftrightarrow>
     (\<forall>\<theta>. (\<forall>e \<in> set L. fst e - w \<le> \<theta>) \<longrightarrow>
        wrap64 (bucket_tokens \<theta> bs) = ledger_tokens \<theta> L \<and> bucket_usd \<theta> bs = ledger_usd \<theta> L)"

lemma bucket_sums_append [simp]:
  "bucket_tokens w (bs @ cs) = bucket_tokens w bs + bucket_tokens w cs"
  "bucket_usd w (bs @ cs) = bucket_usd w bs + bucket_usd w cs"
  by (simp_all add: bucket_tokens_def bucket_usd_def)

lemma bucket_sums_one [simp]:
  "bucket_tokens w [b] = (if bk_start b > w then bk_tokens b else 0)"
  "bucket_usd w [b] = (if bk_start b > w then bk_usd b else 0)"
  "bucket_tokens w [] = 0" "bucket_usd w [] = 0"
  by (simp_all add: bucket_tokens_def bucket_usd_def)

lemma bucket_sums_evict:
  assumes "w \<le> \<theta>"
  shows "bucket_tokens \<theta> (filter (\<lambda>b. bk_start b > w) bs) = bucket_tokens \<theta> bs"
    and "bucket_usd \<theta> (filter (\<lambda>b. bk_start b > w) bs) = bucket_usd \<theta> bs"
proof -
  have "filter (\<lambda>b. bk_start b > \<theta>) (filter (\<lambda>b. bk_start b > w) bs) = filter (\<lambda>b. bk_start b > \<theta>) bs"
    using assms by (auto simp: filter_filter intro!: filter_cong)
  then show "bucket_tokens \<theta> (filter (\<lambda>b. bk_start b > w) bs) = bucket_tokens \<theta> bs"
    and "bucket_usd \<theta> (filter (\<lambda>b. bk_start b > w) bs) = bucket_usd \<theta> bs"
    by (simp_all only: bucket_tokens_def bucket_usd_def)
qed

lemma chargeBuckets_alt:
  "chargeBuckets bs0 now w k u =
     (let bs = filter (\<lambda>b. bk_start b > now - w) bs0; t = timeTruncate now bucketDuration in
      if bs \<noteq> [] \<and> bk_start (last bs) = t
      then butlast bs @ [(last bs)\<lparr>bk_tokens := wrap64 (bk_tokens (last bs) + k), bk_usd := bk_usd (last bs) + u\<rparr>]
      else bs @ [\<lparr>bk_start = t, bk_tokens = k, bk_usd = u\<rparr>])"
proof -
  have "xs \<noteq> [] \<Longrightarrow> xs[length xs - 1 := y] = butlast xs @ [y]" for xs :: "bucket list" and y
    by (cases xs rule: rev_cases) auto
  then show ?thesis by (auto simp: chargeBuckets_def Let_def)
qed

lemma chargeBuckets_sums:
  fixes \<theta> now k u
  defines "hit \<equiv> timeTruncate now bucketDuration > \<theta>"
  assumes "now - w \<le> \<theta>"
  shows "wrap64 (bucket_tokens \<theta> (chargeBuckets bs now w k u)) =
           wrap64 (bucket_tokens \<theta> bs + (if hit then k else 0))"
    and "bucket_usd \<theta> (chargeBuckets bs now w k u) = bucket_usd \<theta> bs + (if hit then u else 0)"
proof -
  define cs where "cs = filter (\<lambda>b. bk_start b > now - w) bs"
  have ev: "bucket_tokens \<theta> bs = bucket_tokens \<theta> cs" "bucket_usd \<theta> bs = bucket_usd \<theta> cs"
    using bucket_sums_evict [OF assms(2), of bs] by (simp_all add: cs_def)
  have "cs \<noteq> [] \<Longrightarrow> bucket_tokens \<theta> cs = bucket_tokens \<theta> (butlast cs) + bucket_tokens \<theta> [last cs]"
    "cs \<noteq> [] \<Longrightarrow> bucket_usd \<theta> cs = bucket_usd \<theta> (butlast cs) + bucket_usd \<theta> [last cs]"
    using bucket_sums_append [of \<theta> "butlast cs" "[last cs]"] by simp_all
  then show "wrap64 (bucket_tokens \<theta> (chargeBuckets bs now w k u)) =
           wrap64 (bucket_tokens \<theta> bs + (if hit then k else 0))"
    and "bucket_usd \<theta> (chargeBuckets bs now w k u) = bucket_usd \<theta> bs + (if hit then u else 0)"
    by (auto simp: chargeBuckets_alt Let_def cs_def [symmetric] ev hit_def add.assoc)
qed

interpretation bucket_meter: usage_meter "[]" chargeBuckets bucket_report buckets_rel
proof
  fix w show "buckets_rel w [] []" by (simp add: buckets_rel_def ledger_tokens_def ledger_usd_def wrap64_def)
next
  fix w :: duration and m L and now :: instant and k u
  assume rel: "buckets_rel w m L" and mono: "\<forall>e \<in> set L. fst e \<le> now"
  show "buckets_rel w (chargeBuckets m now w k u) (L @ [(now, k, u)])"
    unfolding buckets_rel_def
  proof (intro allI impI)
    fix \<theta> assume bound: "\<forall>e \<in> set (L @ [(now, k, u)]). fst e - w \<le> \<theta>"
    then have ih: "wrap64 (bucket_tokens \<theta> m) = ledger_tokens \<theta> L" "bucket_usd \<theta> m = ledger_usd \<theta> L"
      using rel by (simp_all add: buckets_rel_def)
    have "wrap64 (bucket_tokens \<theta> m + x) = wrap64 (ledger_tokens \<theta> L + x)" for x
      by (simp flip: ih(1))
    with ih(2) chargeBuckets_sums [of now w \<theta> m k u] bound
    show "wrap64 (bucket_tokens \<theta> (chargeBuckets m now w k u)) = ledger_tokens \<theta> (L @ [(now, k, u)]) \<and>
          bucket_usd \<theta> (chargeBuckets m now w k u) = ledger_usd \<theta> (L @ [(now, k, u)])"
      by (simp add: ledger_tokens_def ledger_usd_def)
  qed
next
  fix w :: duration and m L and now :: instant
  assume "buckets_rel w m L" "\<forall>e \<in> set L. fst e \<le> now"
  then show "bucket_report m now w = (ledger_tokens (now - w) L, ledger_usd (now - w) L)"
    by (simp add: buckets_rel_def bucket_report_def)
qed

section \<open>Usage of a store\<close>

lemma bucket_sums_Cons:
  "bucket_tokens w (b # bs) = (if bk_start b > w then bk_tokens b else 0) + bucket_tokens w bs"
  "bucket_usd w (b # bs) = (if bk_start b > w then bk_usd b else 0) + bucket_usd w bs"
  using bucket_sums_append [of w "[b]" bs] by simp_all

lemma sumWindow_tokens:
  "is_int64 k \<Longrightarrow> fst (sumWindow w bs (k, u, oldest)) = wrap64 (k + bucket_tokens w bs)"
  by (induction bs arbitrary: k u oldest) (simp_all add: bucket_sums_Cons add.assoc)

lemma sumWindow_usd: "fst (snd (sumWindow w bs (k, u, oldest))) = u + bucket_usd w bs"
  by (induction bs arbitrary: k u oldest) (simp_all add: bucket_sums_Cons add.assoc)

lemma usedInWindow_report:
  "(fst (usedInWindow s sk now w), fst (snd (usedInWindow s sk now w))) = bucket_report (bucketsOf s sk) now w"
proof -
  have "wrap64 0 = 0" by (simp add: wrap64_def)
  then show ?thesis
    by (simp add: usedInWindow_def bucket_report_def Let_def sumWindow_tokens sumWindow_usd is_int64_small)
qed

lemma bucketsOf_charge [simp]:
  "bucketsOf (charge s sk now w k u) sk' =
     (if sk' = sk then chargeBuckets (bucketsOf s sk) now w k u else bucketsOf s sk')"
  by (simp add: charge_def bucketsOf_def)

lemma ruleFor_charge [simp]: "ruleFor (charge s sk now w k u) = ruleFor s"
  by (simp add: charge_def ruleFor_def fun_eq_iff split: option.splits)

lemma ruleFor_Charge [simp]: "ruleFor (Charge s now keys k u) = ruleFor s"
  by (induction s now keys k u rule: Charge.induct) (auto split: option.splits)

lemma bucketsOf_Charge:
  assumes "ruleFor s sk = Some r"
  shows "bucketsOf (Charge s now keys k u) sk =
    bucket_meter.put_all (br_Window r) (bucketsOf s sk) (replicate (count_list keys sk) (now, k, u))"
  using assms
  by (induction s now keys k u rule: Charge.induct)
     (auto simp: bucket_meter.put_all_def split: option.splits)

text \<open>A history is the sequence of \<open>Charge\<close> calls a store has served, each with the instant it read.\<close>

type_synonym charge_call = "instant \<times> gostring list \<times> int \<times> float64"

definition run_charges :: "BudgetStore \<Rightarrow> charge_call list \<Rightarrow> BudgetStore" where
  "run_charges s calls = foldl (\<lambda>s (now, keys, k, u). Charge s now keys k u) s calls"

definition ledger_of :: "charge_call list \<Rightarrow> gostring \<Rightarrow> entry list" where
  "ledger_of calls sk =
     concat (map (\<lambda>(now, keys, k, u). replicate (count_list keys sk) (now, k, u)) calls)"

lemma run_charges_simps [simp]:
  "run_charges s [] = s"
  "run_charges s ((now, keys, k, u) # calls) = run_charges (Charge s now keys k u) calls"
  by (simp_all add: run_charges_def)

lemma ruleFor_run [simp]: "ruleFor (run_charges s calls) = ruleFor s"
  by (induction calls arbitrary: s) (auto split: prod.splits)

lemma bucketsOf_run:
  assumes "ruleFor s sk = Some r"
  shows "bucketsOf (run_charges s calls) sk =
    bucket_meter.put_all (br_Window r) (bucketsOf s sk) (ledger_of calls sk)"
  using assms
  by (induction calls arbitrary: s)
     (auto simp: ledger_of_def bucketsOf_Charge bucket_meter.put_all_def)

lemma ledger_of_sorted: "sorted (map fst calls) \<Longrightarrow> sorted (map fst (ledger_of calls sk))"
  by (induction calls) (force simp: ledger_of_def sorted_append sorted_replicate)+

lemma ledger_of_before:
  "\<forall>c \<in> set calls. fst c \<le> now \<Longrightarrow> \<forall>e \<in> set (ledger_of calls sk). fst e \<le> now"
  by (induction calls) (auto simp: ledger_of_def split: if_splits)

lemma bucketsOf_New [simp]: "bucketsOf (NewBudgetStore rules) sk = []"
  by (simp add: NewBudgetStore_def bucketsOf_def)

lemma usage_is_ledger:
  assumes "ruleFor (NewBudgetStore rules) sk = Some r"
    and "sorted (map fst calls)" and "\<forall>c \<in> set calls. fst c \<le> now"
  shows "\<exists>oldest. usedInWindow (run_charges (NewBudgetStore rules) calls) sk now (br_Window r) =
    (ledger_tokens (now - br_Window r) (ledger_of calls sk),
     ledger_usd (now - br_Window r) (ledger_of calls sk), oldest)"
proof -
  let ?s = "run_charges (NewBudgetStore rules) calls"
  have "bucket_report (bucketsOf ?s sk) now (br_Window r) =
      (ledger_tokens (now - br_Window r) (ledger_of calls sk), ledger_usd (now - br_Window r) (ledger_of calls sk))"
    using bucket_meter.report_put_all [OF ledger_of_sorted [OF assms(2)] ledger_of_before [OF assms(3)]]
    by (simp add: bucketsOf_run [OF assms(1)])
  then have "(fst (usedInWindow ?s sk now (br_Window r)), fst (snd (usedInWindow ?s sk now (br_Window r)))) =
      (ledger_tokens (now - br_Window r) (ledger_of calls sk), ledger_usd (now - br_Window r) (ledger_of calls sk))"
    by (simp only: usedInWindow_report)
  then show ?thesis by (cases "usedInWindow ?s sk now (br_Window r)") auto
qed

section \<open>The verdict\<close>

definition exhausted :: "BudgetStore \<Rightarrow> instant \<Rightarrow> gostring \<Rightarrow> BudgetRule \<Rightarrow> bool" where
  "exhausted s now sk r \<longleftrightarrow>
     (br_MaxTokens r > 0 \<and> fst (usedInWindow s sk now (br_Window r)) \<ge> br_MaxTokens r) \<or>
     (br_MaxUSD r > 0 \<and> fst (snd (usedInWindow s sk now (br_Window r))) \<ge> br_MaxUSD r)"

definition retryAfterOf :: "BudgetStore \<Rightarrow> instant \<Rightarrow> gostring \<Rightarrow> BudgetRule \<Rightarrow> duration" where
  "retryAfterOf s now sk r =
     max 0 (timeSub (snd (snd (usedInWindow s sk now (br_Window r))) + br_Window r) now)"

lemma Allowed_step:
  "Allowed s now (sk # sks) =
     (case ruleFor s sk of
        None \<Rightarrow> Allowed s now sks
      | Some r \<Rightarrow> if exhausted s now sk r then BudgetExhausted (retryAfterOf s now sk r) (br_Name r)
                  else Allowed s now sks)"
  by (auto simp: exhausted_def retryAfterOf_def Let_def split: option.splits prod.splits)

declare Allowed.simps(2) [simp del]

lemma Allowed_OK_iff:
  "Allowed s now keys = BudgetOK \<longleftrightarrow>
     (\<forall>sk \<in> set keys. \<forall>r. ruleFor s sk = Some r \<longrightarrow> \<not> exhausted s now sk r)"
  by (induction keys) (auto simp: Allowed_step split: option.splits)

lemma Allowed_Exhausted_iff:
  "Allowed s now keys = BudgetExhausted ra name \<longleftrightarrow>
     (\<exists>pre sk post r. keys = pre @ sk # post \<and> Allowed s now pre = BudgetOK \<and>
        ruleFor s sk = Some r \<and> exhausted s now sk r \<and> name = br_Name r \<and> ra = retryAfterOf s now sk r)"
  (is "_ \<longleftrightarrow> ?R keys")
proof (induction keys)
  case Nil
  show ?case by simp
next
  case (Cons k keys)
  show ?case
  proof (cases "\<exists>r. ruleFor s k = Some r \<and> exhausted s now k r")
    case True
    then obtain r where r: "ruleFor s k = Some r" "exhausted s now k r" by blast
    then have "?R (k # keys) \<longleftrightarrow> name = br_Name r \<and> ra = retryAfterOf s now k r"
      by (force simp: Cons_eq_append_conv Allowed_step)
    with r show ?thesis by (auto simp: Allowed_step)
  next
    case False
    then have step: "Allowed s now (k # xs) = Allowed s now xs" for xs
      by (auto simp: Allowed_step split: option.splits)
    have "?R (k # keys) \<longleftrightarrow> ?R keys"
    proof
      assume "?R (k # keys)"
      then show "?R keys" using False by (force simp: Cons_eq_append_conv step)
    next
      assume "?R keys"
      then obtain pre sk post r where "keys = pre @ sk # post" "Allowed s now (k # pre) = BudgetOK"
        "ruleFor s sk = Some r" "exhausted s now sk r" "name = br_Name r" "ra = retryAfterOf s now sk r"
        by (auto simp: step)
      then show "?R (k # keys)"
        by (intro exI [of _ "k # pre"] exI [of _ sk] exI [of _ post] exI [of _ r]) simp
    qed
    with Cons.IH show ?thesis by (simp add: step)
  qed
qed

section \<open>Bounds\<close>

definition buckets_ok :: "instant \<Rightarrow> bucket list \<Rightarrow> bool" where
  "buckets_ok now bs \<longleftrightarrow> sorted_wrt (<) (map bk_start bs) \<and>
     (\<forall>b \<in> set bs. bucketDuration dvd bk_start b \<and> bk_start b \<le> timeTruncate now bucketDuration)"

lemma buckets_ok_mono: "buckets_ok now bs \<Longrightarrow> now \<le> now' \<Longrightarrow> buckets_ok now' bs"
  using timeTruncate_mono [of bucketDuration now now']
  by (force simp: buckets_ok_def bucketDuration_def)

lemma buckets_ok_filter: "buckets_ok now bs \<Longrightarrow> buckets_ok now (filter P bs)"
  by (auto simp: buckets_ok_def sorted_wrt_map intro: sorted_wrt_filter)

lemma buckets_ok_snoc:
  "buckets_ok now (bs @ [b]) \<longleftrightarrow> buckets_ok now bs \<and> (\<forall>x \<in> set bs. bk_start x < bk_start b) \<and>
     bucketDuration dvd bk_start b \<and> bk_start b \<le> timeTruncate now bucketDuration"
  by (auto simp: buckets_ok_def sorted_wrt_append)

lemma truncate_dvd: "bucketDuration dvd timeTruncate now bucketDuration"
  by (simp add: timeTruncate_div bucketDuration_def)

lemma buckets_ok_charge:
  assumes "buckets_ok now bs"
  shows "buckets_ok now (chargeBuckets bs now w k u)"
proof -
  define cs where "cs = filter (\<lambda>b. bk_start b > now - w) bs"
  have ok: "buckets_ok now cs" using assms by (simp add: cs_def buckets_ok_filter)
  show ?thesis
  proof (cases "cs = []")
    case True
    then show ?thesis
      by (simp add: chargeBuckets_alt Let_def flip: cs_def) (simp add: buckets_ok_def truncate_dvd)
  next
    case False
    then have cs: "cs = butlast cs @ [last cs]" by simp
    with ok have bl: "buckets_ok now (butlast cs @ [last cs])" by simp
    have "bk_start (last cs) \<noteq> timeTruncate now bucketDuration \<Longrightarrow>
        \<forall>x \<in> set cs. bk_start x < timeTruncate now bucketDuration"
      using bl unfolding buckets_ok_snoc by (subst cs) force
    with False ok bl [unfolded buckets_ok_snoc] show ?thesis
      by (auto simp: chargeBuckets_alt Let_def buckets_ok_snoc truncate_dvd cs_def [symmetric])
  qed
qed

lemma window_seconds:
  "now div bucketDuration - (now - w) div bucketDuration \<le> w div bucketDuration + 1"
  unfolding bucketDuration_def by linarith

lemma buckets_count:
  assumes ok: "buckets_ok now bs" and live: "\<forall>b \<in> set bs. bk_start b > now - w" and w: "0 \<le> w"
  shows "length bs \<le> nat (w div bucketDuration) + 1"
proof -
  let ?f = "\<lambda>b. bk_start b div bucketDuration"
  have d: "distinct (map bk_start bs)"
    using ok by (auto simp: buckets_ok_def strict_sorted_iff)
  then have "inj_on bk_start (set bs)" "distinct bs" by (simp_all add: distinct_map)
  then have "inj_on ?f (set bs)"
    using ok unfolding inj_on_def buckets_ok_def by (metis dvd_div_eq_cancel)
  then have "length bs = card (?f ` set bs)"
    using \<open>distinct bs\<close> by (simp add: card_image distinct_card)
  also have "\<dots> \<le> card {(now - w) div bucketDuration <.. now div bucketDuration}"
  proof (intro card_mono subsetI)
    fix k assume "k \<in> ?f ` set bs"
    then obtain b where b: "b \<in> set bs" "k = bk_start b div bucketDuration" by blast
    then have "bk_start b = k * bucketDuration" "bk_start b \<le> now" "bk_start b > now - w"
      using ok live timeTruncate_bounds [of bucketDuration now]
      by (auto simp: buckets_ok_def bucketDuration_def)
    then show "k \<in> {(now - w) div bucketDuration <.. now div bucketDuration}"
      unfolding bucketDuration_def by simp linarith
  qed simp
  finally show ?thesis using window_seconds [of now w] w by (simp add: bucketDuration_def)
qed

lemma chargeBuckets_count:
  assumes ok: "buckets_ok now bs" and w: "0 \<le> w"
  shows "length (chargeBuckets bs now w k u) \<le> nat (w div bucketDuration) + 1"
proof -
  let ?rs = "chargeBuckets bs now w k u" and ?t = "timeTruncate now bucketDuration"
  have in_rs: "\<And>b. b \<in> set ?rs \<Longrightarrow> bk_start b > now - w \<or> bk_start b = ?t"
    by (auto simp: chargeBuckets_alt Let_def dest: in_set_butlastD split: if_splits)
  show ?thesis
  proof (cases "?t > now - w")
    case True
    then show ?thesis using buckets_count [OF buckets_ok_charge [OF ok] _ w] in_rs by force
  next
    case False
    have "filter (\<lambda>b. bk_start b > now - w) bs = []"
      using ok False by (auto simp: buckets_ok_def filter_empty_conv)
    then show ?thesis by (simp add: chargeBuckets_alt)
  qed
qed

lemma buckets_ok_run:
  assumes "sorted (map fst L)" and "\<forall>e \<in> set L. fst e \<le> now"
  shows "buckets_ok now (bucket_meter.put_all w [] L)"
  using assms
proof (induction L arbitrary: now rule: rev_induct)
  case Nil
  show ?case by (simp add: buckets_ok_def)
next
  case (snoc e L)
  obtain t k u where e: "e = (t, k, u)" by (cases e)
  have "buckets_ok t (bucket_meter.put_all w [] L)"
    using snoc.prems by (intro snoc.IH) (auto simp: sorted_append e)
  then have "buckets_ok t (chargeBuckets (bucket_meter.put_all w [] L) t w k u)"
    by (rule buckets_ok_charge)
  then show ?case using snoc.prems by (auto simp: e intro: buckets_ok_mono)
qed

lemma run_bucket_count:
  assumes "sorted (map fst L)" and "0 \<le> w"
  shows "length (bucket_meter.put_all w [] L) \<le> nat (w div bucketDuration) + 1"
proof (cases L rule: rev_cases)
  case Nil
  then show ?thesis by simp
next
  case (snoc M e)
  obtain t k u where e: "e = (t, k, u)" by (cases e)
  have "buckets_ok t (bucket_meter.put_all w [] M)"
    using assms(1) by (intro buckets_ok_run) (auto simp: snoc sorted_append e)
  then show ?thesis using chargeBuckets_count assms(2) by (simp add: snoc e)
qed

section \<open>Retry-After\<close>

lemma sumWindow_oldest:
  assumes "w < oldest" "oldest \<le> now" "\<forall>b \<in> set bs. bk_start b \<le> now"
  shows "w < snd (snd (sumWindow w bs (k, u, oldest))) \<and> snd (snd (sumWindow w bs (k, u, oldest))) \<le> now"
  using assms by (induction bs arbitrary: k u oldest) auto

lemma retryAfter_bounds:
  assumes ok: "buckets_ok now (bucketsOf s sk)" and w: "0 < br_Window r" "is_int64 (br_Window r)"
  shows "0 < retryAfterOf s now sk r \<and> retryAfterOf s now sk r \<le> br_Window r"
proof -
  define oldest where "oldest = snd (snd (usedInWindow s sk now (br_Window r)))"
  have "\<forall>b \<in> set (bucketsOf s sk). bk_start b \<le> now"
    using ok timeTruncate_bounds [of bucketDuration now] by (force simp: buckets_ok_def bucketDuration_def)
  then have "now - br_Window r < oldest \<and> oldest \<le> now"
    using sumWindow_oldest [of "now - br_Window r" now now] w(1)
    by (simp add: oldest_def usedInWindow_def Let_def)
  then show ?thesis
    using w(2) by (auto simp: retryAfterOf_def timeSub_def is_int64_def simp flip: oldest_def)
qed

lemma window_passed_not_exhausted:
  assumes ok: "buckets_ok now (bucketsOf s sk)" and later: "now + br_Window r \<le> now'"
  shows "\<not> exhausted s now' sk r"
proof -
  have "\<forall>b \<in> set (bucketsOf s sk). \<not> bk_start b > now' - br_Window r"
    using ok later timeTruncate_bounds [of bucketDuration now]
    by (force simp: buckets_ok_def bucketDuration_def)
  then have "filter (\<lambda>b. bk_start b > now' - br_Window r) (bucketsOf s sk) = []"
    by (simp add: filter_empty_conv)
  then have "bucket_report (bucketsOf s sk) now' (br_Window r) = (0, 0)"
    by (simp add: bucket_report_def bucket_tokens_def bucket_usd_def wrap64_def)
  then show ?thesis
    using usedInWindow_report [of s sk now' "br_Window r"] by (auto simp: exhausted_def)
qed

section \<open>Rule lookup\<close>

lemma rules_New:
  "alist_get (bs_rules (NewBudgetStore rules)) = map_of (rev (map (\<lambda>r. (br_ScopeKey r, r)) rules))"
proof -
  have "map_of (foldl (\<lambda>m r. alist_set (br_ScopeKey r) r m) M rules) =
      map_of M ++ map_of (rev (map (\<lambda>r. (br_ScopeKey r, r)) rules))" for M
    by (induction rules arbitrary: M)
       (auto simp: update_conv' map_add_def fun_eq_iff split: option.splits)
  from this [of "[]"] show ?thesis by (simp add: NewBudgetStore_def)
qed

lemma ruleFor_team:
  assumes "alist_get (bs_rules s) (''team:'' @ hk @ CHR '':'' # v) = None"
    and "hk \<noteq> ''''" "CHR '':'' \<notin> set hk" "v \<noteq> ''''"
  shows "ruleFor s (''team:'' @ hk @ CHR '':'' # v) = alist_get (bs_rules s) (''team:'' @ hk)"
proof -
  have "cut_prefix ''team:'' (''team:'' @ hk @ CHR '':'' # v) = Some (hk @ CHR '':'' # v)"
    by (rule cut_prefix_append)
  then have "teamHeaderKey (''team:'' @ hk @ CHR '':'' # v) = Some hk"
    using assms by (simp only: teamHeaderKey_def) (simp add: cut_at_append)
  with assms show ?thesis by (simp add: ruleFor_def)
qed

section \<open>Properties\<close>

definition ledger_exhausted :: "instant \<Rightarrow> BudgetRule \<Rightarrow> entry list \<Rightarrow> bool" where
  "ledger_exhausted now r L \<longleftrightarrow>
     br_MaxTokens r > 0 \<and> ledger_tokens (now - br_Window r) L \<ge> br_MaxTokens r \<or>
     br_MaxUSD r > 0 \<and> ledger_usd (now - br_Window r) L \<ge> br_MaxUSD r"

lemma exhausted_is_ledger:
  assumes "ruleFor (NewBudgetStore rules) sk = Some r"
    and "sorted (map fst calls)" and "\<forall>c \<in> set calls. fst c \<le> now"
  shows "exhausted (run_charges (NewBudgetStore rules) calls) now sk r \<longleftrightarrow>
    ledger_exhausted now r (ledger_of calls sk)"
  using usage_is_ledger [OF assms] by (auto simp: exhausted_def ledger_exhausted_def)

lemma buckets_ok_history:
  assumes "ruleFor (NewBudgetStore rules) sk = Some r"
    and "sorted (map fst calls)" and "\<forall>c \<in> set calls. fst c \<le> now"
  shows "buckets_ok now (bucketsOf (run_charges (NewBudgetStore rules) calls) sk)"
  using buckets_ok_run [OF ledger_of_sorted [OF assms(2)] ledger_of_before [OF assms(3)]]
  by (simp add: bucketsOf_run [OF assms(1)])

definition ex_rules :: "BudgetRule list" where
  "ex_rules = [\<lparr>br_Name = ''all'', br_ScopeKey = ''router'', br_MaxTokens = 100, br_MaxUSD = 0,
                 br_Window = minute\<rparr>,
               \<lparr>br_Name = ''per-team'', br_ScopeKey = ''team:x-team'', br_MaxTokens = 50, br_MaxUSD = 0,
                 br_Window = hour\<rparr>]"

definition ex_calls :: "charge_call list" where
  "ex_calls = [(5 * second + 1, [''router'', ''team:x-team:red''], 60, 0),
               (5 * second + 7, [''router''], 40, 0)]"

lemma ex_ruleFor: "ruleFor (NewBudgetStore ex_rules) ''router'' = Some (hd ex_rules)"
  by (simp add: ex_rules_def NewBudgetStore_def ruleFor_def)

lemma ex_calls_sorted: "sorted (map fst ex_calls)" "\<forall>c \<in> set ex_calls. fst c \<le> 6 * second"
  by (simp_all add: ex_calls_def)

text \<open>C5. The store implements the ledger of every charge: for a scope governed by rule \<open>r\<close>,
  after any history of \<open>Charge\<close> calls under a clock that does not run backwards, the tokens
  and dollars that \<open>usedInWindow\<close> reports are exactly those charged to the scope in seconds
  that started inside the window (tokens modulo the \<open>int64\<close> wrap-around), although \<open>charge\<close>
  has merged and evicted buckets on the way.\<close>
theorem budget_store_refines_ledger:
  assumes "ruleFor (NewBudgetStore rules) sk = Some r"
    and "sorted (map fst calls)" and "\<forall>c \<in> set calls. fst c \<le> now"
  shows "\<exists>oldest. usedInWindow (run_charges (NewBudgetStore rules) calls) sk now (br_Window r) =
    (ledger_tokens (now - br_Window r) (ledger_of calls sk),
     ledger_usd (now - br_Window r) (ledger_of calls sk), oldest)"
  using assms by (rule usage_is_ledger)

theorem budget_store_refines_ledger_witness:
  "\<exists>oldest. usedInWindow (run_charges (NewBudgetStore ex_rules) ex_calls) ''router'' (6 * second) minute =
     (100, 0, oldest)"
proof -
  have "ledger_tokens (6 * second - minute) (ledger_of ex_calls ''router'') = 100"
    "ledger_usd (6 * second - minute) (ledger_of ex_calls ''router'') = 0"
    by (simp_all add: ledger_tokens_def ledger_usd_def live_entries_def ledger_of_def ex_calls_def
        timeTruncate_def bucketDuration_def wrap64_def)
  with budget_store_refines_ledger [OF ex_ruleFor ex_calls_sorted] show ?thesis
    by (simp add: ex_rules_def)
qed

text \<open>C20. Enforcement: after any such history, \<open>Allowed\<close> admits a request exactly when no
  budget governing one of its scope keys is exhausted on the ledger, so every matching budget
  is enforced.\<close>
theorem budget_enforced:
  assumes "sorted (map fst calls)" and "\<forall>c \<in> set calls. fst c \<le> now"
  shows "Allowed (run_charges (NewBudgetStore rules) calls) now keys = BudgetOK \<longleftrightarrow>
    (\<forall>sk \<in> set keys. \<forall>r. ruleFor (NewBudgetStore rules) sk = Some r \<longrightarrow>
       \<not> ledger_exhausted now r (ledger_of calls sk))"
  using assms by (auto simp: Allowed_OK_iff exhausted_is_ledger)

theorem budget_enforced_witness:
  "Allowed (run_charges (NewBudgetStore ex_rules) ex_calls) (6 * second) [''router''] \<noteq> BudgetOK"
proof -
  have "ledger_exhausted (6 * second) (hd ex_rules) (ledger_of ex_calls ''router'')"
    by (simp add: ledger_exhausted_def ledger_tokens_def live_entries_def ledger_of_def ex_calls_def
        ex_rules_def timeTruncate_def bucketDuration_def wrap64_def)
  with budget_enforced [OF ex_calls_sorted, of ex_rules "[''router'']"] show ?thesis
    using ex_ruleFor by simp
qed

text \<open>A rejection names the first exhausted budget among the scope keys, in their order, and
  its retry-after is positive and at most that budget's window.\<close>
lemma budget_rejection:
  assumes "sorted (map fst calls)" and "\<forall>c \<in> set calls. fst c \<le> now"
    and "\<forall>r \<in> set rules. 0 < br_Window r \<and> is_int64 (br_Window r)"
    and "Allowed (run_charges (NewBudgetStore rules) calls) now keys = BudgetExhausted ra name"
  shows "\<exists>pre sk post r. keys = pre @ sk # post \<and>
    Allowed (run_charges (NewBudgetStore rules) calls) now pre = BudgetOK \<and>
    ruleFor (NewBudgetStore rules) sk = Some r \<and> ledger_exhausted now r (ledger_of calls sk) \<and>
    name = br_Name r \<and> 0 < ra \<and> ra \<le> br_Window r"
proof -
  let ?s = "run_charges (NewBudgetStore rules) calls"
  obtain pre sk post r where k: "keys = pre @ sk # post" "Allowed ?s now pre = BudgetOK"
    and r: "ruleFor (NewBudgetStore rules) sk = Some r" and ex: "exhausted ?s now sk r"
    and o: "name = br_Name r" "ra = retryAfterOf ?s now sk r"
    using assms(4) unfolding Allowed_Exhausted_iff by auto
  from r have "r \<in> set rules"
    by (auto simp: ruleFor_def rules_New split: option.splits dest!: map_of_SomeD)
  with assms(3) have "0 < ra \<and> ra \<le> br_Window r"
    unfolding o by (intro retryAfter_bounds buckets_ok_history [OF r assms(1,2)]) auto
  moreover from ex have "ledger_exhausted now r (ledger_of calls sk)"
    by (simp add: exhausted_is_ledger [OF r assms(1,2)])
  ultimately show ?thesis using k r o by blast
qed

lemma ex_rejected:
  "Allowed (run_charges (NewBudgetStore ex_rules) ex_calls) (6 * second) [''router''] =
     BudgetExhausted (59 * second) ''all''"
  by code_simp

text \<open>Recovery: once no more is charged, every scope is admitted again as soon as the
  window of each budget governing it has passed.\<close>
lemma budget_recovers:
  assumes "sorted (map fst calls)" and "\<forall>c \<in> set calls. fst c \<le> now"
    and "\<forall>sk \<in> set keys. \<forall>r. ruleFor (NewBudgetStore rules) sk = Some r \<longrightarrow> now + br_Window r \<le> now'"
  shows "Allowed (run_charges (NewBudgetStore rules) calls) now' keys = BudgetOK"
  using assms
  by (auto simp: Allowed_OK_iff dest: window_passed_not_exhausted [OF buckets_ok_history])

text \<open>C29. Memory: whatever the traffic, a scope never holds more buckets than its window has
  seconds, plus one.\<close>
theorem budget_buckets_bounded:
  assumes "ruleFor (NewBudgetStore rules) sk = Some r" and "0 \<le> br_Window r"
    and "sorted (map fst calls)"
  shows "length (bucketsOf (run_charges (NewBudgetStore rules) calls) sk)
    \<le> nat (br_Window r div bucketDuration) + 1"
  using run_bucket_count [OF ledger_of_sorted [OF assms(3)] assms(2), of sk]
  by (simp add: bucketsOf_run [OF assms(1)])

theorem budget_buckets_bounded_witness:
  "length (bucketsOf (run_charges (NewBudgetStore ex_rules) ex_calls) ''router'') \<le> 61"
  using budget_buckets_bounded [OF ex_ruleFor _ ex_calls_sorted(1)]
  by (simp add: ex_rules_def bucketDuration_def)

lemma usageOf_key: "usageOf s now sk = Some x \<Longrightarrow> bu_ScopeKey x = sk"
  by (auto simp: usageOf_def split: option.splits prod.splits)

lemma map_filter_sorted_keys:
  assumes "\<And>k x. f k = Some x \<Longrightarrow> key x = k" "sorted ks" "distinct ks"
  shows "sorted (map key (List.map_filter f ks)) \<and> distinct (map key (List.map_filter f ks)) \<and>
    set (map key (List.map_filter f ks)) \<subseteq> set ks"
  using assms(2,3) by (induction ks) (auto simp: map_filter_simps assms(1) split: option.splits)

lemma in_map_filter: "x \<in> set (List.map_filter f ks) \<longleftrightarrow> (\<exists>k \<in> set ks. f k = Some x)"
  by (induction ks) (auto simp: map_filter_simps split: option.splits)

text \<open>\<open>Snapshot\<close> is a stable report: its scope keys are sorted without duplicates, every
  configured rule appears, so does every scope that saw a charge, and each entry carries the
  usage \<open>Allowed\<close> decides on.\<close>
lemma Snapshot_report:
  "sorted (map bu_ScopeKey (Snapshot s now)) \<and> distinct (map bu_ScopeKey (Snapshot s now)) \<and>
   set (Snapshot s now) =
     {u. \<exists>sk. sk \<in> dom (alist_get (bs_rules s)) \<union> dom (alist_get (bs_buckets s)) \<and>
        usageOf s now sk = Some u}"
proof -
  let ?ks = "sort (remdups (map fst (bs_rules s) @ map fst (bs_buckets s)))"
  have "sorted ?ks" "distinct ?ks" by simp_all
  from map_filter_sorted_keys [of "usageOf s now", OF usageOf_key this]
  have "sorted (map bu_ScopeKey (Snapshot s now)) \<and> distinct (map bu_ScopeKey (Snapshot s now))"
    by (simp add: Snapshot_def)
  moreover have "set ?ks = dom (alist_get (bs_rules s)) \<union> dom (alist_get (bs_buckets s))"
    by (simp add: dom_map_of_conv_image_fst)
  then have "set (Snapshot s now) = {u. \<exists>sk. sk \<in> dom (alist_get (bs_rules s)) \<union>
      dom (alist_get (bs_buckets s)) \<and> usageOf s now sk = Some u}"
    unfolding Snapshot_def by (intro set_eqI) (simp only: in_map_filter mem_Collect_eq Bex_def)
  ultimately show ?thesis by blast
qed

end
