(* ===== verification/Picker.thy ===== *)
theory Picker
  imports Go_Prelude
begin

text \<open>
  Pod placement (\<open>internal/router/picker/picker.go\<close>): load samples, the score of a pod,
  least-loaded picking with a rotating tie break, and the consistent-hash ring. The lemmas show
  that a pick is a candidate of minimal score, that pods with a full KV cache are avoided
  whenever another pod is left, and that removing an endpoint from the ring moves only the keys
  that endpoint owned.
\<close>

unbundle bit_operations_syntax

section \<open>Candidates and their load\<close>

record Sample =
  smp_Running :: float64
  smp_Waiting :: float64
  smp_KVUsage :: float64
  smp_At :: instant
  smp_InFlightAt :: int

record Candidate =
  cand_Endpoint :: gostring
  cand_InFlight :: int
  cand_Sample :: "Sample option"
  cand_Prefill :: int

datatype Result = NoResult | LeastLoaded | Sticky | Spill | Fallback | Migrated

datatype Reason = ReasonNone | ReasonWaiting | ReasonKVFull | ReasonNotReady

definition StaleAfter :: duration where "StaleAfter = 5 * second"
definition KVFullThreshold :: float64 where "KVFullThreshold = 9 / 10"
definition VirtualNodes :: nat where "VirtualNodes = 128"
definition BytesPerToken :: int where "BytesPerToken = 4"
definition TokensPerRequest :: int where "TokensPerRequest = 16384"
definition MaxRequestTokens :: int where "MaxRequestTokens = 262144"

definition EstimateTokens :: "int \<Rightarrow> int" where
  "EstimateTokens bodyBytes =
     (if bodyBytes \<le> 0 then 0 else min (bodyBytes div BytesPerToken) MaxRequestTokens)"

definition freshSample :: "Candidate \<Rightarrow> instant \<Rightarrow> Sample option" where
  "freshSample c now =
     (case cand_Sample c of
        None \<Rightarrow> None
      | Some s \<Rightarrow> if timeSub now (smp_At s) > StaleAfter then None else Some s)"

text \<open>Conversion of a \<open>float64\<close> integer to \<open>int64\<close>; out of range it is the least \<open>int64\<close>, as on
  amd64.\<close>

definition int64_of_float :: "int \<Rightarrow> int" where
  "int64_of_float x = (if is_int64 x then x else - (2 ^ 63))"

definition Load :: "Candidate \<Rightarrow> instant \<Rightarrow> int" where
  "Load c now =
     (case freshSample c now of
        None \<Rightarrow> cand_InFlight c
      | Some s \<Rightarrow>
          (let sent = wrap64 (cand_InFlight c - smp_InFlightAt s);
               sent = (if sent < 0 then 0 else sent) in
           wrap64 (int64_of_float \<lceil>smp_Running s + smp_Waiting s\<rceil> + sent)))"

definition kvFull :: "Candidate \<Rightarrow> instant \<Rightarrow> bool" where
  "kvFull c now =
     (case freshSample c now of None \<Rightarrow> False | Some s \<Rightarrow> smp_KVUsage s \<ge> KVFullThreshold)"

definition Eligible :: "Candidate list \<Rightarrow> instant \<Rightarrow> Candidate list" where
  "Eligible cands now =
     (let out = filter (\<lambda>c. \<not> kvFull c now) cands in if out = [] then cands else out)"

definition Score :: "Candidate \<Rightarrow> instant \<Rightarrow> int" where
  "Score c now = wrap64 (wrap64 (Load c now * TokensPerRequest) + cand_Prefill c)"

section \<open>Least-loaded picking\<close>

definition scanStart :: "int \<Rightarrow> nat \<Rightarrow> nat" where
  "scanStart tieStart n =
     (let mag = (if tieStart < 0 then ((- (tieStart + 1)) mod 2 ^ 64 + 1) mod 2 ^ 64
                 else tieStart mod 2 ^ 64) in
      nat (mag mod int n))"

definition scanLeast :: "Candidate list \<Rightarrow> instant \<Rightarrow> nat \<Rightarrow> nat list \<Rightarrow> nat \<times> int \<Rightarrow> nat \<times> int" where
  "scanLeast cands now start is acc =
     foldl (\<lambda>(best, bestScore) i.
       let j = (start + i) mod length cands; sc = Score (cands ! j) now in
       if sc < bestScore then (j, sc) else (best, bestScore)) acc is"

definition PickLeastLoaded :: "Candidate list \<Rightarrow> instant \<Rightarrow> int \<Rightarrow> gostring \<times> Result" where
  "PickLeastLoaded cands now tieStart =
     (let n = length cands in
      if n = 0 then ('''', NoResult)
      else
        (let start = scanStart tieStart n;
             (best, _) = scanLeast cands now start [1..<n] (start, Score (cands ! start) now) in
         (cand_Endpoint (cands ! best), LeastLoaded)))"

section \<open>The consistent-hash ring\<close>

record Ring =
  ring_points :: "64 word list"
  ring_owner :: "64 word \<Rightarrow> gostring option"

text \<open>\<open>hash/fnv\<close>'s \<open>New64a\<close> and \<open>strconv.Itoa\<close>.\<close>

definition fnv64a :: "gostring \<Rightarrow> 64 word" where
  "fnv64a s = foldl (\<lambda>h c. (h XOR word_of_nat (of_char c)) * 1099511628211) 14695981039346656037 s"

fun itoa :: "nat \<Rightarrow> gostring" where
  "itoa n = (if n < 10 then [char_of (48 + n)] else itoa (n div 10) @ [char_of (48 + n mod 10)])"

definition hash64 :: "gostring \<Rightarrow> 64 word" where
  "hash64 s =
     (let x = fnv64a s;
          x = x XOR drop_bit 30 x;
          x = x * 0xbf58476d1ce4e5b9;
          x = x XOR drop_bit 27 x;
          x = x * 0x94d049bb133111eb;
          x = x XOR drop_bit 31 x in x)"

definition SessionHash :: "gostring \<Rightarrow> 64 word" where
  "SessionHash key = hash64 key"

definition vnode :: "gostring \<Rightarrow> nat \<Rightarrow> 64 word" where
  "vnode ep i = hash64 (ep @ ''#'' @ itoa i)"

definition addPoint :: "gostring \<Rightarrow> Ring \<Rightarrow> 64 word \<Rightarrow> Ring" where
  "addPoint ep r p =
     (if ring_owner r p \<noteq> None then r
      else \<lparr>ring_points = ring_points r @ [p], ring_owner = (ring_owner r)(p \<mapsto> ep)\<rparr>)"

definition NewRing :: "gostring list \<Rightarrow> Ring" where
  "NewRing endpoints =
     (let r = foldl (\<lambda>r ep. foldl (addPoint ep) r (map (vnode ep) [0..<VirtualNodes]))
                \<lparr>ring_points = [], ring_owner = Map.empty\<rparr> endpoints in
      r\<lparr>ring_points := sort (ring_points r)\<rparr>)"

text \<open>\<open>sort.Search\<close>: the least index in \<open>[i, j)\<close> satisfying a monotone predicate, or \<open>j\<close>.\<close>

function sortSearch :: "(nat \<Rightarrow> bool) \<Rightarrow> nat \<Rightarrow> nat \<Rightarrow> nat" where
  "sortSearch f i j =
     (if i < j then
        (let h = (i + j) div 2 in if \<not> f h then sortSearch f (h + 1) j else sortSearch f i h)
      else i)"
  by auto
termination by (relation "measure (\<lambda>(f, i, j). j - i)") auto

declare sortSearch.simps [simp del]
declare itoa.simps [simp del]

definition Ring_start :: "Ring \<Rightarrow> gostring \<Rightarrow> nat" where
  "Ring_start r key =
     (let h = hash64 key;
          i = sortSearch (\<lambda>i. ring_points r ! i \<ge> h) 0 (length (ring_points r)) in
      if i = length (ring_points r) then 0 else i)"

definition Home :: "Ring \<Rightarrow> gostring \<Rightarrow> gostring" where
  "Home r key =
     (if ring_points r = [] then ''''
      else (case ring_owner r (ring_points r ! Ring_start r key) of None \<Rightarrow> '''' | Some ep \<Rightarrow> ep))"

section \<open>Picking returns a candidate of minimal score\<close>

lemma scanStart_less: "0 < n \<Longrightarrow> scanStart tieStart n < n"
  by (simp add: scanStart_def Let_def nat_less_iff)

lemma scanLeast_snoc:
  "scanLeast cands now start (is @ [i]) acc =
     (let (best, sc) = scanLeast cands now start is acc; j = (start + i) mod length cands in
      if Score (cands ! j) now < sc then (j, Score (cands ! j) now) else (best, sc))"
  by (simp add: scanLeast_def Let_def split: prod.splits)

lemma scanLeast_first_min:
  fixes cands now start
  defines "S \<equiv> \<lambda>i. Score (cands ! ((start + i) mod length cands)) now"
  assumes "start < length cands"
  shows "\<exists>m \<le> k. scanLeast cands now start [1..<Suc k] (start, Score (cands ! start) now) =
           ((start + m) mod length cands, S m) \<and> (\<forall>i < m. S m < S i) \<and> (\<forall>i \<le> k. S m \<le> S i)"
proof (induction k)
  case 0
  show ?case using assms(2) by (simp add: scanLeast_def S_def)
next
  case (Suc k)
  then obtain m where m: "m \<le> k" "scanLeast cands now start [1..<Suc k] (start, Score (cands ! start) now) =
      ((start + m) mod length cands, S m)" "\<forall>i < m. S m < S i" "\<forall>i \<le> k. S m \<le> S i" by blast
  have step: "scanLeast cands now start [1..<Suc (Suc k)] (start, Score (cands ! start) now) =
      (if S (Suc k) < S m then ((start + Suc k) mod length cands, S (Suc k))
       else ((start + m) mod length cands, S m))"
    using m(2) by (simp add: scanLeast_snoc S_def Let_def)
  show ?case
  proof (cases "S (Suc k) < S m")
    case True
    then have "\<forall>i < Suc k. S (Suc k) < S i" using m(4) by (auto intro: less_le_trans simp: less_Suc_eq_le)
    with True show ?thesis unfolding step
      by (intro exI [of _ "Suc k"]) (auto simp: le_Suc_eq less_imp_le)
  next
    case False
    with m show ?thesis unfolding step by (intro exI [of _ m]) (auto simp: le_Suc_eq)
  qed
qed

lemma PickLeastLoaded_first_min:
  assumes "cands \<noteq> []"
  shows "\<exists>pre c post. rotate (scanStart tieStart (length cands)) cands = pre @ c # post \<and>
    PickLeastLoaded cands now tieStart = (cand_Endpoint c, LeastLoaded) \<and>
    (\<forall>d \<in> set pre. Score c now < Score d now) \<and> (\<forall>d \<in> set post. Score c now \<le> Score d now)"
proof -
  define n where "n = length cands"
  define start where "start = scanStart tieStart n"
  define rs where "rs = rotate start cands"
  have n: "0 < n" using assms by (simp add: n_def)
  have start: "start < length cands" using n by (simp add: start_def n_def scanStart_less)
  have nth: "i < n \<Longrightarrow> rs ! i = cands ! ((start + i) mod length cands)" for i
    using nth_rotate [of i cands start] by (simp add: rs_def n_def add.commute)
  let ?S = "\<lambda>i. Score (cands ! ((start + i) mod length cands)) now"
  have "Suc (n - 1) = n" using n by simp
  with scanLeast_first_min [where k = "n - 1" and now = now, OF start, unfolded \<open>Suc (n - 1) = n\<close>]
  obtain m where S: "m \<le> n - 1"
      "scanLeast cands now start [1..<n] (start, Score (cands ! start) now) =
        ((start + m) mod length cands, ?S m)" "\<forall>i < m. ?S m < ?S i" "\<forall>i \<le> n - 1. ?S m \<le> ?S i"
    by blast
  have S_rs: "i < n \<Longrightarrow> ?S i = Score (rs ! i) now" for i by (simp add: nth)
  have "m < n" using S(1) n by simp
  have before: "\<forall>i < m. Score (rs ! m) now < Score (rs ! i) now"
  proof (intro allI impI)
    fix i assume "i < m"
    moreover from this have "?S m < ?S i" using S(3) by blast
    ultimately show "Score (rs ! m) now < Score (rs ! i) now"
      using S_rs [of m] S_rs [of i] \<open>m < n\<close> by simp
  qed
  have after: "\<forall>i < n. Score (rs ! m) now \<le> Score (rs ! i) now"
  proof (intro allI impI)
    fix i assume "i < n"
    moreover from this have "?S m \<le> ?S i" using S(4) by simp
    ultimately show "Score (rs ! m) now \<le> Score (rs ! i) now"
      using S_rs [of m] S_rs [of i] \<open>m < n\<close> by simp
  qed
  have lm: "m < length rs" using \<open>m < n\<close> by (simp add: rs_def n_def)
  have "rs = take m rs @ rs ! m # drop (Suc m) rs" using lm by (rule id_take_nth_drop)
  moreover have "PickLeastLoaded cands now tieStart = (cand_Endpoint (rs ! m), LeastLoaded)"
    using S(2) n nth [OF \<open>m < n\<close>]
    by (simp add: PickLeastLoaded_def Let_def flip: n_def start_def)
  moreover have "\<forall>d \<in> set (take m rs). Score (rs ! m) now < Score d now"
    using before lm by (auto simp: in_set_conv_nth)
  moreover have "\<forall>d \<in> set (drop (Suc m) rs). Score (rs ! m) now \<le> Score d now"
    using after by (auto simp: in_set_conv_nth rs_def n_def)
  ultimately show ?thesis unfolding rs_def start_def n_def by blast
qed

lemma PickLeastLoaded_min:
  assumes "cands \<noteq> []"
  shows "\<exists>c \<in> set cands. PickLeastLoaded cands now tieStart = (cand_Endpoint c, LeastLoaded) \<and>
    (\<forall>d \<in> set cands. Score c now \<le> Score d now)"
proof -
  obtain pre c post where *: "rotate (scanStart tieStart (length cands)) cands = pre @ c # post"
    "PickLeastLoaded cands now tieStart = (cand_Endpoint c, LeastLoaded)"
    "\<forall>d \<in> set pre. Score c now < Score d now" "\<forall>d \<in> set post. Score c now \<le> Score d now"
    using PickLeastLoaded_first_min [OF assms] by blast
  have "set cands = insert c (set pre \<union> set post)"
    using arg_cong [OF *(1), of set] by simp
  with * show ?thesis by (intro bexI [of _ c]) (auto intro: less_imp_le)
qed

section \<open>Eligibility\<close>

lemma Eligible_subset: "set (Eligible cands now) \<subseteq> set cands"
  by (auto simp: Eligible_def Let_def)

lemma Eligible_nonempty [simp]: "Eligible cands now = [] \<longleftrightarrow> cands = []"
  by (auto simp: Eligible_def Let_def)

lemma Eligible_not_full:
  "c \<in> set (Eligible cands now) \<Longrightarrow> kvFull c now \<Longrightarrow> \<forall>d \<in> set cands. kvFull d now"
  by (auto simp: Eligible_def Let_def filter_empty_conv split: if_splits)

text \<open>
  What placement relies on from a picking policy: it answers with the endpoint of one of its
  candidates. Every policy keeps this when it is fed the eligible candidates, and then avoids
  KV-full pods whenever it can.
\<close>

locale pod_policy =
  fixes pick :: "Candidate list \<Rightarrow> instant \<Rightarrow> int \<Rightarrow> gostring"
  assumes pick_candidate: "cands \<noteq> [] \<Longrightarrow> pick cands now tie \<in> cand_Endpoint ` set cands"
begin

lemma pick_eligible:
  "cands \<noteq> [] \<Longrightarrow> pick (Eligible cands now) now tie \<in> cand_Endpoint ` set cands"
  using pick_candidate [of "Eligible cands now" now tie] Eligible_subset by fastforce

lemma pick_avoids_full:
  assumes "d \<in> set cands" and "\<not> kvFull d now"
  shows "\<exists>c \<in> set cands. \<not> kvFull c now \<and> pick (Eligible cands now) now tie = cand_Endpoint c"
proof -
  have "Eligible cands now \<noteq> []" using assms(1) by auto
  then obtain c where "c \<in> set (Eligible cands now)" "pick (Eligible cands now) now tie = cand_Endpoint c"
    using pick_candidate by blast
  then show ?thesis using assms Eligible_not_full Eligible_subset by blast
qed

lemma pick_filtered:
  "filter P cands \<noteq> [] \<Longrightarrow> \<exists>c \<in> set cands. P c \<and> pick (filter P cands) now tie = cand_Endpoint c"
  using pick_candidate [of "filter P cands" now tie] by auto

end

lemma PickLeastLoaded_member:
  "cands \<noteq> [] \<Longrightarrow> fst (PickLeastLoaded cands now tie) \<in> cand_Endpoint ` set cands"
  by (drule PickLeastLoaded_min [of cands now tie]) (elim bexE conjE, simp)

interpretation least_loaded: pod_policy "\<lambda>cands now tie. fst (PickLeastLoaded cands now tie)"
  by unfold_locales (rule PickLeastLoaded_member)

section \<open>The ring is a successor function on virtual nodes\<close>

definition vnodes :: "gostring list \<Rightarrow> (64 word \<times> gostring) list" where
  "vnodes eps = concat (map (\<lambda>ep. map (\<lambda>i. (vnode ep i, ep)) [0..<VirtualNodes]) eps)"

definition owner_of :: "gostring list \<Rightarrow> 64 word \<Rightarrow> gostring option" where
  "owner_of eps = map_of (vnodes eps)"

lemma foldl_concat_map:
  "foldl (\<lambda>r x. foldl (g x) r (h x)) r xs =
     foldl (\<lambda>r (x, y). g x r y) r (concat (map (\<lambda>x. map (Pair x) (h x)) xs))"
proof -
  have "foldl (g x) r ys = foldl (\<lambda>r (x, y). g x r y) r (map (Pair x) ys)" for x r ys
    by (simp add: foldl_map)
  then show ?thesis by (induction xs arbitrary: r) simp_all
qed

lemma addPoints:
  fixes r0 :: Ring
  defines "r0 \<equiv> \<lparr>ring_points = [], ring_owner = Map.empty\<rparr>"
  shows "ring_owner (foldl (\<lambda>r (ep, p). addPoint ep r p) r0 ps) = map_of (map prod.swap ps) \<and>
    distinct (ring_points (foldl (\<lambda>r (ep, p). addPoint ep r p) r0 ps)) \<and>
    set (ring_points (foldl (\<lambda>r (ep, p). addPoint ep r p) r0 ps)) = dom (map_of (map prod.swap ps))"
proof (induction ps rule: rev_induct)
  case Nil
  show ?case by (simp add: r0_def)
next
  case (snoc e ps)
  obtain ep p where "e = (ep, p)" by (cases e)
  with snoc show ?case
    by (auto simp: addPoint_def map_add_def fun_eq_iff dom_def split: option.splits)
qed

lemma NewRing_spec:
  "ring_owner (NewRing eps) = owner_of eps"
  "sorted (ring_points (NewRing eps))" "distinct (ring_points (NewRing eps))"
  "set (ring_points (NewRing eps)) = dom (owner_of eps)"
proof -
  let ?ps = "concat (map (\<lambda>ep. map (Pair ep) (map (vnode ep) [0..<VirtualNodes])) eps)"
  have "map prod.swap ?ps = vnodes eps"
    by (simp add: vnodes_def map_concat comp_def)
  with addPoints [where ps = ?ps]
  show "ring_owner (NewRing eps) = owner_of eps"
    "sorted (ring_points (NewRing eps))" "distinct (ring_points (NewRing eps))"
    "set (ring_points (NewRing eps)) = dom (owner_of eps)"
    unfolding NewRing_def foldl_concat_map by (simp_all add: owner_of_def Let_def)
qed

lemma sortSearch_least:
  assumes "\<And>a b. i \<le> a \<Longrightarrow> a \<le> b \<Longrightarrow> b < j \<Longrightarrow> f a \<Longrightarrow> f b" and "i \<le> j"
  shows "i \<le> sortSearch f i j \<and> sortSearch f i j \<le> j \<and>
    (\<forall>k. i \<le> k \<longrightarrow> k < sortSearch f i j \<longrightarrow> \<not> f k) \<and>
    (\<forall>k. sortSearch f i j \<le> k \<longrightarrow> k < j \<longrightarrow> f k)"
  using assms
proof (induction f i j rule: sortSearch.induct)
  case (1 f i j)
  define h where "h = (i + j) div 2"
  show ?case
  proof (cases "i < j")
    case False
    then have "sortSearch f i j = i" by (subst sortSearch.simps) simp
    with False 1(4) show ?thesis by simp
  next
    case ij: True
    then have h: "i \<le> h" "h < j" by (auto simp: h_def)
    show ?thesis
    proof (cases "f h")
      case True
      have eq: "sortSearch f i j = sortSearch f i h"
        using ij True by (simp add: sortSearch.simps [of f i j] h_def)
      have yes: "h \<le> k \<Longrightarrow> k < j \<Longrightarrow> f k" for k using 1(3) [of h k] h True by simp
      have "i \<le> sortSearch f i h \<and> sortSearch f i h \<le> h \<and>
        (\<forall>k. i \<le> k \<longrightarrow> k < sortSearch f i h \<longrightarrow> \<not> f k) \<and>
        (\<forall>k. sortSearch f i h \<le> k \<longrightarrow> k < h \<longrightarrow> f k)"
      proof (rule 1(2) [OF ij h_def])
        show "f b" if "i \<le> a" "a \<le> b" "b < h" "f a" for a b
          using 1(3) [OF that(1,2) _ that(4)] that(3) h by simp
      qed (use True h in simp_all)
      then show ?thesis unfolding eq using yes h by (auto simp: not_less dest: not_le_imp_less)
    next
      case False
      have eq: "sortSearch f i j = sortSearch f (h + 1) j"
        using ij False by (simp add: sortSearch.simps [of f i j] h_def)
      have no: "i \<le> k \<Longrightarrow> k \<le> h \<Longrightarrow> \<not> f k" for k using 1(3) [of k h] h False by auto
      have "h + 1 \<le> sortSearch f (h + 1) j \<and> sortSearch f (h + 1) j \<le> j \<and>
        (\<forall>k. h + 1 \<le> k \<longrightarrow> k < sortSearch f (h + 1) j \<longrightarrow> \<not> f k) \<and>
        (\<forall>k. sortSearch f (h + 1) j \<le> k \<longrightarrow> k < j \<longrightarrow> f k)"
      proof (rule 1(1) [OF ij h_def False])
        show "f b" if "h + 1 \<le> a" "a \<le> b" "b < j" "f a" for a b
          using 1(3) [OF _ that(2,3,4)] that(1) h by simp
      qed (use h in simp)
      then show ?thesis unfolding eq using no h
        by (auto simp: Suc_le_eq) (metis not_le)
    qed
  qed
qed

text \<open>The clockwise successor of a hash among the points of a ring.\<close>

definition succ_point :: "64 word set \<Rightarrow> 64 word \<Rightarrow> 64 word" where
  "succ_point P h = (if \<exists>p \<in> P. h \<le> p then Min {p \<in> P. h \<le> p} else Min P)"

lemma succ_point_in: "finite P \<Longrightarrow> P \<noteq> {} \<Longrightarrow> succ_point P h \<in> P"
  using Min_in [of "{p \<in> P. h \<le> p}"] Min_in [of P] by (auto simp: succ_point_def)

lemma succ_point_subset:
  assumes "finite P" "Q \<subseteq> P" "succ_point P h \<in> Q"
  shows "succ_point Q h = succ_point P h"
proof (cases "\<exists>p \<in> P. h \<le> p")
  case True
  then have s: "succ_point P h = Min {p \<in> P. h \<le> p}" by (simp add: succ_point_def)
  have "Min {p \<in> P. h \<le> p} \<in> {p \<in> P. h \<le> p}" using assms(1) True by (intro Min_in) auto
  then have m: "succ_point P h \<in> {p \<in> Q. h \<le> p}" using assms(3) s by simp
  then have "succ_point Q h = Min {p \<in> Q. h \<le> p}" by (auto simp: succ_point_def)
  also have "\<dots> = succ_point P h"
    using m assms s by (intro Min_eqI) (auto simp: finite_subset intro!: Min_le)
  finally show ?thesis .
next
  case False
  then have s: "succ_point P h = Min P" "succ_point Q h = Min Q"
    using assms(2) by (auto simp: succ_point_def)
  have "Min Q = Min P"
    using assms s by (intro Min_eqI) (auto intro: finite_subset Min_le)
  with s show ?thesis by simp
qed

lemma sorted_min_at:
  fixes xs :: "'a::linorder list"
  assumes "sorted xs" "k < length xs" "\<forall>i < k. \<not> P (xs ! i)" "P (xs ! k)"
  shows "Min {x \<in> set xs. P x} = xs ! k"
proof (rule Min_eqI)
  fix y assume "y \<in> {x \<in> set xs. P x}"
  then obtain i where "i < length xs" "xs ! i = y" "P (xs ! i)" by (auto simp: in_set_conv_nth)
  with assms(3) have "k \<le> i" by (metis not_le)
  with assms(1) \<open>i < length xs\<close> \<open>xs ! i = y\<close> show "xs ! k \<le> y" using sorted_nth_mono by blast
next
  show "xs ! k \<in> {x \<in> set xs. P x}" using nth_mem [OF assms(2)] assms(4) by blast
qed simp

lemma Ring_start_succ:
  assumes s: "sorted (ring_points r)" and ne: "ring_points r \<noteq> []"
  shows "Ring_start r key < length (ring_points r) \<and>
    ring_points r ! Ring_start r key = succ_point (set (ring_points r)) (hash64 key)"
proof -
  let ?ps = "ring_points r" and ?h = "hash64 key"
  define i where "i = sortSearch (\<lambda>i. ?ps ! i \<ge> ?h) 0 (length ?ps)"
  have i: "i \<le> length ?ps" "\<forall>k < i. \<not> ?ps ! k \<ge> ?h" "\<forall>k. i \<le> k \<longrightarrow> k < length ?ps \<longrightarrow> ?ps ! k \<ge> ?h"
  proof -
    have mono: "?h \<le> ?ps ! b" if "a \<le> b" "b < length ?ps" "?h \<le> ?ps ! a" for a b
      using sorted_nth_mono [OF s that(1,2)] that(3) by (rule order_trans [rotated])
    have "0 \<le> i \<and> i \<le> length ?ps \<and> (\<forall>k. 0 \<le> k \<longrightarrow> k < i \<longrightarrow> \<not> ?ps ! k \<ge> ?h) \<and>
        (\<forall>k. i \<le> k \<longrightarrow> k < length ?ps \<longrightarrow> ?ps ! k \<ge> ?h)"
      unfolding i_def by (rule sortSearch_least) (use mono in blast)+
    then show "i \<le> length ?ps" "\<forall>k < i. \<not> ?ps ! k \<ge> ?h"
      "\<forall>k. i \<le> k \<longrightarrow> k < length ?ps \<longrightarrow> ?ps ! k \<ge> ?h" by simp_all
  qed
  show ?thesis
  proof (cases "i = length ?ps")
    case True
    then have "\<not> (\<exists>p \<in> set ?ps. ?h \<le> p)" using i(2) by (metis in_set_conv_nth)
    moreover have "Min (set ?ps) = ?ps ! 0"
      using sorted_min_at [OF s, of 0 "\<lambda>_. True"] ne by simp
    moreover have "Ring_start r key = 0" using True by (simp add: Ring_start_def Let_def i_def [symmetric])
    ultimately show ?thesis using ne by (simp add: succ_point_def)
  next
    case False
    then have il: "i < length ?ps" using i(1) by simp
    with i(3) have hi: "?h \<le> ?ps ! i" by blast
    have "Min {p \<in> set ?ps. ?h \<le> p} = ?ps ! i"
      by (rule sorted_min_at [OF s il i(2) hi])
    moreover have "\<exists>p \<in> set ?ps. ?h \<le> p" using hi nth_mem [OF il] by blast
    moreover have "Ring_start r key = i"
      using False by (simp add: Ring_start_def Let_def i_def [symmetric])
    ultimately show ?thesis using il by (simp add: succ_point_def)
  qed
qed

lemma owner_of_in: "owner_of eps p = Some ep \<Longrightarrow> ep \<in> set eps"
  by (auto simp: owner_of_def vnodes_def dest!: map_of_SomeD)

lemma owner_dom_nonempty: "dom (owner_of eps) = {} \<longleftrightarrow> eps = []"
proof -
  have "0 \<in> {0..<VirtualNodes}" by (simp add: VirtualNodes_def)
  then have "{0..<VirtualNodes} \<noteq> {}" by blast
  then show ?thesis
    by (cases eps) (auto simp: owner_of_def vnodes_def dom_map_of_conv_image_fst)
qed

lemma owner_dom_finite: "finite (dom (owner_of eps))"
  by (simp add: owner_of_def finite_dom_map_of)

lemma Home_NewRing:
  assumes "eps \<noteq> []"
  shows "owner_of eps (succ_point (dom (owner_of eps)) (hash64 key)) = Some (Home (NewRing eps) key)"
proof -
  let ?P = "dom (owner_of eps)"
  have ne: "ring_points (NewRing eps) \<noteq> []"
    using NewRing_spec(4) [of eps] owner_dom_nonempty [of eps] assms by (metis set_empty)
  have at: "ring_points (NewRing eps) ! Ring_start (NewRing eps) key = succ_point ?P (hash64 key)"
    using Ring_start_succ [OF NewRing_spec(2) ne] by (simp add: NewRing_spec(4))
  have "succ_point ?P (hash64 key) \<in> ?P"
    using succ_point_in [OF owner_dom_finite] owner_dom_nonempty [of eps] assms by blast
  then show ?thesis using ne by (auto simp: Home_def at NewRing_spec(1))
qed

lemma Home_in: "eps \<noteq> [] \<Longrightarrow> Home (NewRing eps) key \<in> set eps"
  using Home_NewRing [of eps key] by (rule owner_of_in)

lemma owner_of_Cons:
  "owner_of (x # eps) = owner_of eps ++ map_of (map (\<lambda>i. (vnode x i, x)) [0..<VirtualNodes])"
  by (simp add: owner_of_def vnodes_def)

lemma owner_of_removeAll:
  "owner_of eps p = Some ep \<Longrightarrow> ep \<noteq> e \<Longrightarrow> owner_of (removeAll e eps) p = Some ep"
proof (induction eps)
  case Nil
  then show ?case by simp
next
  case (Cons x eps)
  show ?case
  proof (cases "map_of (map (\<lambda>i. (vnode x i, x)) [0..<VirtualNodes]) p")
    case None
    with Cons show ?thesis by (auto simp: owner_of_Cons map_add_def)
  next
    case (Some y)
    then have "y = x" by (auto dest!: map_of_SomeD)
    with Some Cons.prems have "x = ep" by (simp add: owner_of_Cons map_add_def)
    with Some Cons.prems \<open>y = x\<close> show ?thesis by (simp add: owner_of_Cons map_add_def)
  qed
qed

lemma Home_removeAll:
  assumes "eps \<noteq> []" and keep: "Home (NewRing eps) key \<noteq> e"
  shows "Home (NewRing (removeAll e eps)) key = Home (NewRing eps) key"
proof -
  let ?p = "succ_point (dom (owner_of eps)) (hash64 key)" and ?eps' = "removeAll e eps"
  have own: "owner_of ?eps' ?p = Some (Home (NewRing eps) key)"
    using owner_of_removeAll [OF Home_NewRing [OF assms(1)] keep] .
  have "dom (owner_of ?eps') \<subseteq> dom (owner_of eps)"
    by (auto simp: owner_of_def vnodes_def dom_map_of_conv_image_fst)
  then have "succ_point (dom (owner_of ?eps')) (hash64 key) = ?p"
    using own by (intro succ_point_subset owner_dom_finite) auto
  moreover have "Home (NewRing eps) key \<in> set ?eps'" using Home_in [OF assms(1)] keep by simp
  then have "?eps' \<noteq> []" by (metis empty_iff empty_set)
  ultimately show ?thesis using Home_NewRing [of ?eps' key] own by simp
qed

section \<open>Properties\<close>

definition ex_cand :: "gostring \<Rightarrow> int \<Rightarrow> Candidate" where
  "ex_cand ep n = \<lparr>cand_Endpoint = ep, cand_InFlight = n, cand_Sample = None, cand_Prefill = 0\<rparr>"

text \<open>Least-loaded placement is exact: for every tie start, the least \<open>int64\<close> included, the
  pod picked is the first pod of minimal score in the candidate list rotated to the tie start.\<close>
lemma PickLeastLoaded_exact:
  assumes "cands \<noteq> []"
  shows "\<exists>pre c post. rotate (scanStart tieStart (length cands)) cands = pre @ c # post \<and>
    PickLeastLoaded cands now tieStart = (cand_Endpoint c, LeastLoaded) \<and>
    (\<forall>d \<in> set pre. Score c now < Score d now) \<and> (\<forall>d \<in> set post. Score c now \<le> Score d now)"
  using assms by (rule PickLeastLoaded_first_min)

text \<open>Consistent hashing: when an endpoint leaves the ring, every key that did not live on it
  keeps its home, even when virtual nodes of different endpoints collide; and a home is always
  one of the ring's endpoints.\<close>
lemma ring_consistent:
  assumes "eps \<noteq> []" and "Home (NewRing eps) key \<noteq> e"
  shows "Home (NewRing (removeAll e eps)) key = Home (NewRing eps) key \<and>
    Home (NewRing eps) key \<in> set (removeAll e eps)"
  using Home_removeAll [OF assms] Home_in [OF assms(1), of key] assms(2) by simp

end
