(* ===== verification/Sessions.thy ===== *)
theory Sessions
  imports Picker
begin

text \<open>
  Session affinity (\<open>internal/router/picker/sessions.go\<close>): the table of session bindings,
  \<open>Place\<close>, the pressure gate and \<open>Sweep\<close>. The table's lock makes every operation atomic, so each
  is a function on the table. The lemmas give the table invariant (bounded size, one binding per
  key, \<open>oldest\<close> a lower bound), that the guarded expiry scan is as good as scanning every time,
  and when a session may move.
\<close>

section \<open>State\<close>

record binding =
  bd_endpoint :: gostring
  bd_lastSeen :: instant
  bd_movedAt :: instant
  bd_promptBytes :: int

record Sessions =
  ss_bindings :: "(64 word \<times> binding) list"
  ss_idle :: duration
  ss_capacity :: int
  ss_oldest :: instant
  ss_scans :: nat

definition DefaultSessionIdleTimeout :: duration where "DefaultSessionIdleTimeout = 30 * minute"
definition MaxSessions :: int where "MaxSessions = 100000"
definition SpillCooldown :: duration where "SpillCooldown = 60 * second"
definition PressureMargin :: int where "PressureMargin = 4"
definition PressureMarginNoSample :: int where "PressureMarginNoSample = 8"
definition MinPodsForLoadMoves :: nat where "MinPodsForLoadMoves = 3"

definition NewSessions :: "duration \<Rightarrow> int \<Rightarrow> Sessions" where
  "NewSessions idle capacity =
     \<lparr>ss_bindings = [], ss_idle = (if idle \<le> 0 then DefaultSessionIdleTimeout else idle),
      ss_capacity = capacity, ss_oldest = 0, ss_scans = 0\<rparr>"

section \<open>Expiry\<close>

definition expired :: "Sessions \<Rightarrow> binding \<Rightarrow> instant \<Rightarrow> bool" where
  "expired s b now \<longleftrightarrow> timeSub now (bd_lastSeen b) > ss_idle s"

definition oldestOf :: "binding list \<Rightarrow> instant" where
  "oldestOf bs =
     foldl (\<lambda>oldest b. if oldest = 0 \<or> bd_lastSeen b < oldest then bd_lastSeen b else oldest) 0 bs"

definition dropExpiredLocked :: "Sessions \<Rightarrow> instant \<Rightarrow> Sessions" where
  "dropExpiredLocked s now =
     (let kept = filter (\<lambda>(k, b). \<not> expired s b now) (ss_bindings s) in
      s\<lparr>ss_scans := ss_scans s + 1, ss_bindings := kept, ss_oldest := oldestOf (map snd kept)\<rparr>)"

definition Sweep :: "Sessions \<Rightarrow> instant \<Rightarrow> Sessions \<times> nat" where
  "Sweep s now = (let s' = dropExpiredLocked s now in (s', length (ss_bindings s')))"

definition Sessions_Len :: "Sessions \<Rightarrow> nat" where
  "Sessions_Len s = length (ss_bindings s)"

section \<open>The pressure gate\<close>

definition pressure :: "Candidate \<Rightarrow> Candidate list \<Rightarrow> instant \<Rightarrow> int \<Rightarrow> gostring \<times> Reason" where
  "pressure bound cands now tieStart =
     (let others = filter (\<lambda>c. cand_Endpoint c \<noteq> cand_Endpoint bound \<and> \<not> kvFull c now) (Eligible cands now) in
      if others = [] then ('''', ReasonNone)
      else
        (let leastEP = fst (PickLeastLoaded others now tieStart);
             zero = \<lparr>cand_Endpoint = '''', cand_InFlight = 0, cand_Sample = None, cand_Prefill = 0\<rparr>;
             least = (case List.find (\<lambda>c. cand_Endpoint c = leastEP) others of Some c \<Rightarrow> c | None \<Rightarrow> zero);
             gap = wrap64 (Load bound now - Load least now);
             small = (length cands < MinPodsForLoadMoves) in
         case freshSample bound now of
           None \<Rightarrow>
             if \<not> small \<and> gap \<ge> PressureMarginNoSample then (leastEP, ReasonWaiting)
             else ('''', ReasonNone)
         | Some bs \<Rightarrow>
             if smp_Waiting bs \<le> 0 then ('''', ReasonNone)
             else
               (let full = (smp_KVUsage bs \<ge> KVFullThreshold) in
                if small \<and> \<not> full then ('''', ReasonNone)
                else
                  (let reason = (if full then ReasonKVFull else ReasonWaiting) in
                   if full \<and> freshSample least now \<noteq> None \<and> gap \<ge> 0 then (leastEP, reason)
                   else if gap \<ge> PressureMargin then (leastEP, reason)
                   else ('''', ReasonNone)))))"

section \<open>Placing a request\<close>

type_synonym placement = "gostring \<times> Result \<times> Reason \<times> int"

definition setBinding :: "64 word \<Rightarrow> binding \<Rightarrow> Sessions \<Rightarrow> Sessions" where
  "setBinding key b s = s\<lparr>ss_bindings := alist_set key b (ss_bindings s)\<rparr>"

definition tableFull :: "Sessions \<Rightarrow> bool" where
  "tableFull s \<longleftrightarrow> int (length (ss_bindings s)) \<ge> ss_capacity s"

definition placeNew ::
    "Sessions \<Rightarrow> 64 word \<Rightarrow> Candidate list \<Rightarrow> instant \<Rightarrow> int \<Rightarrow> gostring \<Rightarrow> int \<Rightarrow> Sessions \<times> placement" where
  "placeNew s0 key cands now tieStart ringHome bodyBytes =
     (let s = (if tableFull s0 \<and> timeSub now (ss_oldest s0) > ss_idle s0 then dropExpiredLocked s0 now else s0) in
      if tableFull s then
        (if \<exists>c \<in> set cands. cand_Endpoint c = ringHome
         then (s, ringHome, Fallback, ReasonNone, EstimateTokens bodyBytes)
         else (s, fst (PickLeastLoaded (Eligible cands now) now tieStart), Fallback, ReasonNone,
               EstimateTokens bodyBytes))
      else
        (let ep = fst (PickLeastLoaded (Eligible cands now) now tieStart);
             s = (if ss_bindings s = [] then s\<lparr>ss_oldest := now\<rparr> else s) in
         (setBinding key \<lparr>bd_endpoint = ep, bd_lastSeen = now, bd_movedAt = 0, bd_promptBytes = bodyBytes\<rparr> s,
          ep, LeastLoaded, ReasonNone, EstimateTokens bodyBytes)))"

definition decideBound :: "binding \<Rightarrow> Candidate list \<Rightarrow> instant \<Rightarrow> int \<Rightarrow> int \<Rightarrow> binding \<times> placement" where
  "decideBound b cands now tieStart bodyBytes =
     (case List.find (\<lambda>c. cand_Endpoint c = bd_endpoint b) cands of
        None \<Rightarrow>
          (let ep = fst (PickLeastLoaded (Eligible cands now) now tieStart) in
           (\<lparr>bd_endpoint = ep, bd_lastSeen = now, bd_movedAt = now, bd_promptBytes = bodyBytes\<rparr>,
            ep, Migrated, ReasonNotReady, EstimateTokens bodyBytes))
      | Some bound \<Rightarrow>
          (let (least, reason) = pressure bound cands now tieStart in
           if reason \<noteq> ReasonNone \<and> (bd_movedAt b = 0 \<or> timeSub now (bd_movedAt b) \<ge> SpillCooldown)
           then (\<lparr>bd_endpoint = least, bd_lastSeen = now, bd_movedAt = now, bd_promptBytes = bodyBytes\<rparr>,
                 least, Spill, reason, EstimateTokens bodyBytes)
           else
             (let uncached = (if bodyBytes \<ge> bd_promptBytes b then wrap64 (bodyBytes - bd_promptBytes b)
                              else bodyBytes) in
              (b\<lparr>bd_lastSeen := now, bd_promptBytes := bodyBytes\<rparr>,
               bd_endpoint b, Sticky, ReasonNone, EstimateTokens uncached))))"

definition placeBound ::
    "Sessions \<Rightarrow> 64 word \<Rightarrow> binding \<Rightarrow> Candidate list \<Rightarrow> instant \<Rightarrow> int \<Rightarrow> int \<Rightarrow> Sessions \<times> placement" where
  "placeBound s key b cands now tieStart bodyBytes =
     (let (b', p) = decideBound b cands now tieStart bodyBytes in (setBinding key b' s, p))"

definition Place ::
    "Sessions \<Rightarrow> 64 word \<Rightarrow> Candidate list \<Rightarrow> instant \<Rightarrow> int \<Rightarrow> gostring \<Rightarrow> int \<Rightarrow> Sessions \<times> placement" where
  "Place s key cands now tieStart ringHome bodyBytes =
     (if cands = [] then (s, '''', NoResult, ReasonNone, 0)
      else
        (case alist_get (ss_bindings s) key of
           None \<Rightarrow> placeNew s key cands now tieStart ringHome bodyBytes
         | Some b \<Rightarrow>
             if expired s b now
             then placeNew (s\<lparr>ss_bindings := alist_del key (ss_bindings s)\<rparr>) key cands now tieStart ringHome bodyBytes
             else placeBound s key b cands now tieStart bodyBytes))"

section \<open>The table invariant\<close>

lemma alist_set_length:
  "length (alist_set k v m) = (if k \<in> fst ` set m then length m else Suc (length m))"
  by (induction m) auto

lemma alist_set_in: "(k', v') \<in> set (alist_set k v m) \<Longrightarrow> (k', v') = (k, v) \<or> (k', v') \<in> set m"
  by (induction m) (auto split: if_splits)

lemma alist_del_in: "(k', v') \<in> set (alist_del k m) \<longleftrightarrow> (k', v') \<in> set m \<and> k' \<noteq> k"
  by (auto simp: AList.delete_eq)

lemma alist_del_length: "length (alist_del k m) \<le> length m"
  by (simp add: AList.delete_eq)

definition sessions_inv :: "instant \<Rightarrow> Sessions \<Rightarrow> bool" where
  "sessions_inv t s \<longleftrightarrow>
     alist_wf (ss_bindings s) \<and> 0 < ss_idle s \<and>
     int (length (ss_bindings s)) \<le> max 0 (ss_capacity s) \<and> ss_oldest s \<le> t \<and> 0 \<le> t \<and>
     (\<forall>(k, b) \<in> set (ss_bindings s). ss_oldest s \<le> bd_lastSeen b \<and> 0 < bd_lastSeen b \<and> bd_lastSeen b \<le> t)"

lemma oldestOf_snoc:
  "oldestOf (bs @ [b]) =
     (if oldestOf bs = 0 \<or> bd_lastSeen b < oldestOf bs then bd_lastSeen b else oldestOf bs)"
  by (simp add: oldestOf_def)

lemma oldestOf_least:
  assumes "\<forall>b \<in> set bs. 0 < bd_lastSeen b"
  shows "(\<forall>b \<in> set bs. oldestOf bs \<le> bd_lastSeen b) \<and> oldestOf bs \<in> insert 0 (bd_lastSeen ` set bs) \<and>
    (bs \<noteq> [] \<longrightarrow> 0 < oldestOf bs)"
  using assms
proof (induction bs rule: rev_induct)
  case Nil
  show ?case by (simp add: oldestOf_def)
next
  case (snoc b bs)
  then show ?case by (cases "bs = []") (auto simp: oldestOf_snoc oldestOf_def)
qed

lemma inv_NewSessions: "0 \<le> t \<Longrightarrow> sessions_inv t (NewSessions idle capacity)"
  by (simp add: sessions_inv_def NewSessions_def DefaultSessionIdleTimeout_def)

lemma inv_later: "sessions_inv t s \<Longrightarrow> t \<le> t' \<Longrightarrow> sessions_inv t' s"
  by (auto simp: sessions_inv_def)

lemma inv_drop:
  assumes "sessions_inv t s"
  shows "sessions_inv t (dropExpiredLocked s now)"
proof -
  define kept where "kept = filter (\<lambda>(k, b). \<not> expired s b now) (ss_bindings s)"
  have pos: "\<forall>b \<in> set (map snd kept). 0 < bd_lastSeen b"
    using assms by (auto simp: sessions_inv_def kept_def)
  have "alist_wf kept" using assms by (auto simp: kept_def sessions_inv_def distinct_map_filter)
  moreover have "int (length kept) \<le> max 0 (ss_capacity s)"
    using assms length_filter_le [of _ "ss_bindings s"] unfolding sessions_inv_def kept_def
    by (meson of_nat_mono order_trans)
  moreover have "oldestOf (map snd kept) \<le> t"
    using oldestOf_least [OF pos] assms by (auto simp: sessions_inv_def kept_def)
  ultimately show ?thesis
    using assms oldestOf_least [OF pos]
    by (auto simp: dropExpiredLocked_def Let_def sessions_inv_def kept_def [symmetric])
       (auto simp: kept_def)
qed

lemma inv_delete: "sessions_inv t s \<Longrightarrow> sessions_inv t (s\<lparr>ss_bindings := alist_del key (ss_bindings s)\<rparr>)"
  using alist_del_length [of key "ss_bindings s"]
  by (auto simp: sessions_inv_def alist_del_in)

lemma inv_setBinding:
  assumes "sessions_inv now s" "0 < now" "bd_lastSeen b = now"
    and "key \<in> fst ` set (ss_bindings s) \<or> \<not> tableFull s"
  shows "sessions_inv now (setBinding key b s)"
proof -
  have "\<forall>(k, b') \<in> set (alist_set key b (ss_bindings s)).
      ss_oldest s \<le> bd_lastSeen b' \<and> 0 < bd_lastSeen b' \<and> bd_lastSeen b' \<le> now"
    using assms(1-3) by (auto simp: sessions_inv_def dest: alist_set_in)
  with assms show ?thesis
    by (auto simp: sessions_inv_def setBinding_def alist_set_length tableFull_def split: if_splits)
qed

lemma inv_placeNew:
  assumes "sessions_inv now s0" "0 < now"
  shows "sessions_inv now (fst (placeNew s0 key cands now tie home bytes))"
proof -
  define s where "s = (if tableFull s0 \<and> timeSub now (ss_oldest s0) > ss_idle s0
    then dropExpiredLocked s0 now else s0)"
  have s: "sessions_inv now s" using assms by (simp add: s_def inv_drop)
  then have "sessions_inv now (if ss_bindings s = [] then s\<lparr>ss_oldest := now\<rparr> else s)"
    using assms(2) by (auto simp: sessions_inv_def)
  with s show ?thesis
    using assms(2)
    by (auto simp: placeNew_def Let_def s_def [symmetric] intro!: inv_setBinding split: if_splits)
       (simp_all add: tableFull_def)
qed

lemma decideBound_lastSeen: "bd_lastSeen (fst (decideBound b cands now tie bytes)) = now"
  by (auto simp: decideBound_def Let_def split: option.splits prod.splits)

lemma inv_Place:
  assumes "sessions_inv t s" "t \<le> now" "0 < now"
  shows "sessions_inv now (fst (Place s key cands now tie home bytes))"
proof -
  have inv: "sessions_inv now s" using assms inv_later by blast
  show ?thesis
  proof (cases "alist_get (ss_bindings s) key")
    case None
    then show ?thesis using inv assms(3) by (simp add: Place_def inv_placeNew)
  next
    case (Some b)
    then have "key \<in> fst ` set (ss_bindings s)" by (force dest: map_of_SomeD)
    then have "sessions_inv now (fst (placeBound s key b cands now tie bytes))"
      using inv assms(3) decideBound_lastSeen [of b cands now tie bytes]
      by (auto simp: placeBound_def split: prod.splits intro!: inv_setBinding)
    with Some show ?thesis using inv assms(3) by (simp add: Place_def inv_placeNew inv_delete)
  qed
qed

section \<open>Refinement: expired bindings are gone\<close>

text \<open>The specification keeps only live bindings, as a map. A bound session is decided as in
  \<open>decideBound\<close>; an unbound one is bound when fewer than \<open>capacity\<close> sessions are live and
  otherwise served by the ring home, or by the least-loaded pod when the home is no candidate.\<close>

definition live :: "Sessions \<Rightarrow> instant \<Rightarrow> 64 word \<Rightarrow> binding option" where
  "live s now key =
     (case alist_get (ss_bindings s) key of
        None \<Rightarrow> None
      | Some b \<Rightarrow> if expired s b now then None else Some b)"

definition placeSpec ::
    "int \<Rightarrow> (64 word \<Rightarrow> binding option) \<Rightarrow> 64 word \<Rightarrow> Candidate list \<Rightarrow> instant \<Rightarrow> int \<Rightarrow> gostring \<Rightarrow> int
     \<Rightarrow> (64 word \<Rightarrow> binding option) \<times> placement" where
  "placeSpec capacity M key cands now tieStart ringHome bodyBytes =
     (if cands = [] then (M, '''', NoResult, ReasonNone, 0)
      else
        (case M key of
           Some b \<Rightarrow>
             (let (b', p) = decideBound b cands now tieStart bodyBytes in (M(key \<mapsto> b'), p))
         | None \<Rightarrow>
             (let least = fst (PickLeastLoaded (Eligible cands now) now tieStart) in
              if int (card (dom M)) \<ge> capacity
              then (M, (if ringHome \<in> cand_Endpoint ` set cands then ringHome else least),
                    Fallback, ReasonNone, EstimateTokens bodyBytes)
              else (M(key \<mapsto> \<lparr>bd_endpoint = least, bd_lastSeen = now, bd_movedAt = 0,
                                bd_promptBytes = bodyBytes\<rparr>),
                    least, LeastLoaded, ReasonNone, EstimateTokens bodyBytes))))"

lemma expired_update [simp]:
  "expired (s\<lparr>ss_bindings := m\<rparr>) = expired s" "expired (s\<lparr>ss_oldest := t\<rparr>) = expired s"
  by (simp_all add: expired_def fun_eq_iff)

lemma map_of_filter_wf:
  assumes "alist_wf m"
  shows "map_of (filter (\<lambda>(k, b). P b) m) k =
    (case map_of m k of None \<Rightarrow> None | Some b \<Rightarrow> if P b then Some b else None)"
  using assms by (induction m) (auto simp: map_of_eq_None_iff split: option.splits)

lemma live_filter:
  assumes "alist_wf (ss_bindings s)"
  shows "live s now = map_of (filter (\<lambda>(k, b). \<not> expired s b now) (ss_bindings s))"
  using map_of_filter_wf [OF assms, of "\<lambda>b. \<not> expired s b now"]
  by (auto simp: live_def fun_eq_iff split: option.splits)

lemma live_card:
  assumes "alist_wf (ss_bindings s)"
  shows "card (dom (live s now)) = length (filter (\<lambda>(k, b). \<not> expired s b now) (ss_bindings s))"
proof -
  let ?kept = "filter (\<lambda>(k, b). \<not> expired s b now) (ss_bindings s)"
  have "distinct (map fst ?kept)" using assms by (simp add: distinct_map_filter)
  then show ?thesis
    unfolding live_filter [OF assms] dom_map_of_conv_image_fst
    using distinct_card [of "map fst ?kept"] by simp
qed

lemma live_drop:
  assumes "alist_wf (ss_bindings s)"
  shows "live (dropExpiredLocked s now) now = live s now"
proof -
  have "expired (dropExpiredLocked s now) = expired s"
    by (simp add: dropExpiredLocked_def Let_def expired_def fun_eq_iff)
  then show ?thesis
    using map_of_filter_wf [OF assms, of "\<lambda>b. \<not> expired s b now"]
    by (auto simp: live_def fun_eq_iff dropExpiredLocked_def Let_def split: option.splits)
qed

lemma live_setBinding:
  "0 < ss_idle s \<Longrightarrow> bd_lastSeen b = now \<Longrightarrow> live (setBinding key b s) now = (live s now)(key \<mapsto> b)"
proof -
  assume "0 < ss_idle s" "bd_lastSeen b = now"
  then have "\<not> expired s b now" by (simp add: expired_def timeSub_def)
  then show ?thesis
    by (auto simp: live_def setBinding_def fun_eq_iff update_conv' split: option.splits)
qed

lemma live_oldest [simp]: "live (s\<lparr>ss_oldest := t\<rparr>) now = live s now"
  by (simp add: live_def fun_eq_iff split: option.splits)

lemma live_delete:
  "alist_get (ss_bindings s) key = Some b \<Longrightarrow> expired s b now \<Longrightarrow>
   live (s\<lparr>ss_bindings := alist_del key (ss_bindings s)\<rparr>) now = live s now"
  by (auto simp: live_def fun_eq_iff split: option.splits)

lemma none_expired:
  assumes "sessions_inv t s" "\<not> timeSub now (ss_oldest s) > ss_idle s"
  shows "filter (\<lambda>(k, b). \<not> expired s b now) (ss_bindings s) = ss_bindings s"
proof -
  have "timeSub now (bd_lastSeen b) \<le> ss_idle s" if "(k, b) \<in> set (ss_bindings s)" for k b
  proof -
    have "ss_oldest s \<le> bd_lastSeen b" using assms(1) that by (auto simp: sessions_inv_def)
    then have "timeSub now (bd_lastSeen b) \<le> timeSub now (ss_oldest s)" by (simp add: timeSub_def)
    with assms(2) show ?thesis by simp
  qed
  then show ?thesis by (fastforce simp: filter_id_conv expired_def not_less)
qed

lemma placeNew_refines:
  assumes inv: "sessions_inv now s0" and key: "live s0 now key = None" and ne: "cands \<noteq> []"
  shows "snd (placeNew s0 key cands now tie home bytes) =
      snd (placeSpec (ss_capacity s0) (live s0 now) key cands now tie home bytes) \<and>
    live (fst (placeNew s0 key cands now tie home bytes)) now =
      fst (placeSpec (ss_capacity s0) (live s0 now) key cands now tie home bytes)"
proof -
  define scan where "scan \<longleftrightarrow> tableFull s0 \<and> timeSub now (ss_oldest s0) > ss_idle s0"
  define s where "s = (if scan then dropExpiredLocked s0 now else s0)"
  have wf: "alist_wf (ss_bindings s0)" using inv by (simp add: sessions_inv_def)
  have live: "live s now = live s0 now" using wf by (simp add: s_def live_drop)
  have idle: "0 < ss_idle s" using inv by (simp add: s_def dropExpiredLocked_def Let_def sessions_inv_def)
  have full: "tableFull s \<longleftrightarrow> int (card (dom (live s0 now))) \<ge> ss_capacity s0"
  proof (cases "tableFull s0")
    case True
    then show ?thesis
      using none_expired [OF inv, of now] live_card [OF wf, of now]
      by (auto simp: s_def scan_def tableFull_def dropExpiredLocked_def Let_def)
  next
    case False
    moreover have "card (dom (live s0 now)) \<le> length (ss_bindings s0)"
      using live_card [OF wf, of now] by simp
    ultimately show ?thesis by (simp add: s_def scan_def tableFull_def)
  qed
  show ?thesis
    using key ne idle unfolding placeNew_def Let_def scan_def [symmetric] s_def [symmetric]
    by (auto simp: placeSpec_def full live live_setBinding Let_def)
qed

lemma Place_refines:
  assumes inv: "sessions_inv t s" "t \<le> now"
  shows "snd (Place s key cands now tie home bytes) =
      snd (placeSpec (ss_capacity s) (live s now) key cands now tie home bytes) \<and>
    live (fst (Place s key cands now tie home bytes)) now =
      fst (placeSpec (ss_capacity s) (live s now) key cands now tie home bytes)"
proof (cases "cands = []")
  case True
  then show ?thesis by (simp add: Place_def placeSpec_def)
next
  case ne: False
  have inv': "sessions_inv now s" using inv inv_later by blast
  then have idle: "0 < ss_idle s" by (simp add: sessions_inv_def)
  consider (unknown) "alist_get (ss_bindings s) key = None"
    | (expired) b where "alist_get (ss_bindings s) key = Some b" "expired s b now"
    | (bound) b where "alist_get (ss_bindings s) key = Some b" "\<not> expired s b now" by blast
  then show ?thesis
  proof cases
    case unknown
    then show ?thesis using placeNew_refines [OF inv' _ ne] ne by (simp add: Place_def live_def)
  next
    case expired
    let ?s = "s\<lparr>ss_bindings := alist_del key (ss_bindings s)\<rparr>"
    have "live ?s now key = None" by (simp add: live_def)
    from placeNew_refines [OF inv_delete [OF inv'] this ne] expired ne
    show ?thesis by (simp add: Place_def live_delete)
  next
    case bound
    then show ?thesis
      using ne idle decideBound_lastSeen [of b cands now tie bytes]
      by (auto simp: Place_def placeBound_def placeSpec_def live_def [of s now key] live_setBinding
          split: prod.splits)
  qed
qed

section \<open>When a session moves\<close>

lemma pressure_target:
  assumes "pressure bound cands now tie = (ep, reason)" "reason \<noteq> ReasonNone"
  shows "\<exists>c \<in> set cands. ep = cand_Endpoint c \<and> ep \<noteq> cand_Endpoint bound \<and> \<not> kvFull c now"
proof -
  let ?P = "\<lambda>c. cand_Endpoint c \<noteq> cand_Endpoint bound \<and> \<not> kvFull c now"
  let ?o = "filter ?P (Eligible cands now)"
  have "?o \<noteq> [] \<and> ep = fst (PickLeastLoaded ?o now tie)"
    using assms by (auto simp: pressure_def Let_def split: if_splits option.splits)
  then obtain c where "c \<in> set (Eligible cands now)" "?P c" "ep = cand_Endpoint c"
    using least_loaded.pick_filtered by blast
  then show ?thesis using Eligible_subset by blast
qed

lemma find_endpoint_in:
  "List.find (\<lambda>c. cand_Endpoint c = e) cands = Some c \<Longrightarrow> c \<in> set cands \<and> cand_Endpoint c = e"
  using find_Some_in by fastforce

lemma find_endpoint_None:
  "List.find (\<lambda>c. cand_Endpoint c = e) cands = None \<longleftrightarrow> e \<notin> cand_Endpoint ` set cands"
  by (auto simp: find_None_all)

lemma decideBound_cases:
  assumes "cands \<noteq> []"
  obtains (sticky) bytes' where
      "decideBound b cands now tie bytes =
         (b\<lparr>bd_lastSeen := now, bd_promptBytes := bytes\<rparr>, bd_endpoint b, Sticky, ReasonNone, EstimateTokens bytes')"
      "bd_endpoint b \<in> cand_Endpoint ` set cands"
  | (migrated) ep where
      "decideBound b cands now tie bytes =
         (\<lparr>bd_endpoint = ep, bd_lastSeen = now, bd_movedAt = now, bd_promptBytes = bytes\<rparr>,
          ep, Migrated, ReasonNotReady, EstimateTokens bytes)"
      "bd_endpoint b \<notin> cand_Endpoint ` set cands" "ep \<in> cand_Endpoint ` set cands"
  | (spill) c reason where
      "decideBound b cands now tie bytes =
         (\<lparr>bd_endpoint = cand_Endpoint c, bd_lastSeen = now, bd_movedAt = now, bd_promptBytes = bytes\<rparr>,
          cand_Endpoint c, Spill, reason, EstimateTokens bytes)"
      "c \<in> set cands" "\<not> kvFull c now" "cand_Endpoint c \<noteq> bd_endpoint b"
      "bd_movedAt b = 0 \<or> timeSub now (bd_movedAt b) \<ge> SpillCooldown"
proof (cases "List.find (\<lambda>c. cand_Endpoint c = bd_endpoint b) cands")
  case None
  moreover from this have "bd_endpoint b \<notin> cand_Endpoint ` set cands"
    by (simp only: find_endpoint_None not_False_eq_True)
  ultimately show ?thesis
    using migrated [of "fst (PickLeastLoaded (Eligible cands now) now tie)"]
      least_loaded.pick_eligible [OF assms]
    by (simp add: decideBound_def Let_def)
next
  case (Some bound)
  then have bound: "bound \<in> set cands" "cand_Endpoint bound = bd_endpoint b"
    by (auto dest: find_endpoint_in)
  obtain ep reason where p: "pressure bound cands now tie = (ep, reason)" by fastforce
  show ?thesis
  proof (cases "reason \<noteq> ReasonNone \<and> (bd_movedAt b = 0 \<or> timeSub now (bd_movedAt b) \<ge> SpillCooldown)")
    case True
    then obtain c where "c \<in> set cands" "ep = cand_Endpoint c" "ep \<noteq> cand_Endpoint bound" "\<not> kvFull c now"
      using pressure_target [OF p] by blast
    then show ?thesis using spill [of c reason] True Some p bound by (auto simp: decideBound_def Let_def)
  next
    case False
    then show ?thesis
      using sticky [of "if bytes \<ge> bd_promptBytes b then wrap64 (bytes - bd_promptBytes b) else bytes"]
        Some p imageI [OF bound(1), of cand_Endpoint] bound(2) by (auto simp: decideBound_def Let_def)
  qed
qed

lemma EstimateTokens_bounds: "0 \<le> EstimateTokens n \<and> EstimateTokens n \<le> MaxRequestTokens"
  by (auto simp: EstimateTokens_def MaxRequestTokens_def BytesPerToken_def)

lemma placeSpec_endpoint:
  assumes "cands \<noteq> []"
  shows "fst (snd (placeSpec capacity M key cands now tie home bytes)) \<in> cand_Endpoint ` set cands"
proof (cases "M key")
  case None
  then show ?thesis
    using assms least_loaded.pick_eligible [OF assms, of now tie] by (auto simp: placeSpec_def Let_def)
next
  case (Some b)
  show ?thesis
    by (rule decideBound_cases [OF assms, of b now tie bytes])
       (use assms Some in \<open>auto simp: placeSpec_def\<close>)
qed

lemma placeSpec_tokens:
  "let t = snd (snd (snd (snd (placeSpec capacity M key cands now tie home bytes)))) in
   0 \<le> t \<and> t \<le> MaxRequestTokens"
  using EstimateTokens_bounds
  by (auto simp: placeSpec_def decideBound_def Let_def MaxRequestTokens_def
      split: option.splits prod.splits)

section \<open>Properties\<close>

type_synonym place_call = "64 word \<times> Candidate list \<times> instant \<times> int \<times> gostring \<times> int"

fun run_places :: "Sessions \<Rightarrow> place_call list \<Rightarrow> Sessions" where
  "run_places s [] = s"
| "run_places s ((key, cands, now, tie, home, bytes) # calls) =
     run_places (fst (Place s key cands now tie home bytes)) calls"

definition call_time :: "place_call \<Rightarrow> instant" where
  "call_time c = fst (snd (snd c))"

lemma run_places_inv:
  assumes "sessions_inv t s" "\<forall>c \<in> set calls. t \<le> call_time c \<and> 0 < call_time c" "sorted (map call_time calls)"
    and "\<forall>c \<in> set calls. call_time c \<le> now" "t \<le> now"
  shows "sessions_inv now (run_places s calls)"
  using assms
proof (induction s calls arbitrary: t rule: run_places.induct)
  case (1 s)
  then show ?case using inv_later by simp
next
  case (2 s key cands now' tie home bytes calls)
  then have "sessions_inv now' (fst (Place s key cands now' tie home bytes))"
    by (intro inv_Place) (auto simp: call_time_def)
  with 2 show ?case by (auto simp: call_time_def)
qed

lemma NewSessions_fields [simp]:
  "ss_capacity (NewSessions idle capacity) = capacity"
  "ss_idle (NewSessions idle capacity) = (if idle \<le> 0 then DefaultSessionIdleTimeout else idle)"
  by (simp_all add: NewSessions_def)

lemma Place_capacity: "ss_capacity (fst (Place s key cands now tie home bytes)) = ss_capacity s"
  by (auto simp: Place_def placeNew_def placeBound_def setBinding_def dropExpiredLocked_def Let_def
      split: option.splits prod.splits)

lemma run_places_capacity [simp]: "ss_capacity (run_places s calls) = ss_capacity s"
  by (induction s calls rule: run_places.induct) (simp_all add: Place_capacity)

definition ex_placed :: "place_call list" where
  "ex_placed = [(7, [ex_cand ''a'' 3, ex_cand ''b'' 1], 1000, 0, ''a'', 400),
                (9, [ex_cand ''a'' 3, ex_cand ''b'' 9], 2000, 0, ''a'', 400)]"

text \<open>Memory and well-formedness of the session table: after any sequence of placements
  under a clock that does not run backwards, the table has one binding per key, at most
  \<open>capacity\<close> bindings, and \<open>oldest\<close> is a lower bound on every binding's last use.\<close>
lemma sessions_bounded:
  assumes "\<forall>c \<in> set calls. 0 < call_time c" and "sorted (map call_time calls)"
  shows "let s = run_places (NewSessions idle capacity) calls in
    alist_wf (ss_bindings s) \<and> int (Sessions_Len s) \<le> max 0 capacity \<and>
    (\<forall>(k, b) \<in> set (ss_bindings s). ss_oldest s \<le> bd_lastSeen b)"
proof -
  obtain now where now: "\<forall>c \<in> set calls. call_time c \<le> now" "0 \<le> now"
  proof
    show "\<forall>c \<in> set calls. call_time c \<le> Max (insert 0 (call_time ` set calls))" by auto
  qed simp
  from assms run_places_inv [OF inv_NewSessions [of 0 idle capacity], of calls now] now
  have "sessions_inv now (run_places (NewSessions idle capacity) calls)" by (auto simp: less_imp_le)
  then show ?thesis by (auto simp: sessions_inv_def Sessions_Len_def Let_def)
qed

text \<open>C24. The guarded expiry scan is invisible: \<open>Place\<close> answers, and changes the live bindings,
  exactly as the specification in which an expired binding no longer exists. So skipping the
  scan while the \<open>oldest\<close> bound is recent never refuses a session a slot it could have had.\<close>
theorem Place_refines_live_sessions:
  assumes "sessions_inv t s" and "t \<le> now"
  shows "snd (Place s key cands now tie home bytes) =
      snd (placeSpec (ss_capacity s) (live s now) key cands now tie home bytes) \<and>
    live (fst (Place s key cands now tie home bytes)) now =
      fst (placeSpec (ss_capacity s) (live s now) key cands now tie home bytes)"
  using assms by (rule Place_refines)

theorem Place_refines_live_sessions_witness:
  "snd (Place (NewSessions 0 1) 7 [ex_cand ''a'' 3] 1000 0 ''a'' 400) =
     snd (placeSpec 1 (live (NewSessions 0 1) 1000) 7 [ex_cand ''a'' 3] 1000 0 ''a'' 400) \<and>
   live (fst (Place (NewSessions 0 1) 7 [ex_cand ''a'' 3] 1000 0 ''a'' 400)) 1000 =
     fst (placeSpec 1 (live (NewSessions 0 1) 1000) 7 [ex_cand ''a'' 3] 1000 0 ''a'' 400)"
  using Place_refines_live_sessions [OF inv_NewSessions [of 0 0 1], of 1000 7 "[ex_cand ''a'' 3]" 0 "''a''" 400]
  by simp

text \<open>Where a request goes: for any table and any non-empty candidate list, \<open>Place\<close> answers
  with the endpoint of one of the candidates, and its token estimate lies between 0 and
  \<open>MaxRequestTokens\<close>.\<close>
lemma Place_candidate:
  assumes "sessions_inv t s" and "t \<le> now" and "cands \<noteq> []"
  shows "fst (snd (Place s key cands now tie home bytes)) \<in> cand_Endpoint ` set cands \<and>
    (let tokens = snd (snd (snd (snd (Place s key cands now tie home bytes)))) in
     0 \<le> tokens \<and> tokens \<le> MaxRequestTokens)"
  using Place_refines [OF assms(1,2)] placeSpec_endpoint [OF assms(3)] placeSpec_tokens by simp

text \<open>When a session moves: a live session stays on its pod unless the pod left the
  candidates (it is migrated) or the pressure gate moves it, and then at least the cooldown has
  passed since its last move, the new pod is another one and its KV cache is not full. The
  binding left behind always names the pod that was answered.\<close>
lemma session_moves:
  assumes "sessions_inv t s" and "t \<le> now" and "cands \<noteq> []" and "live s now key = Some b"
    and "Place s key cands now tie home bytes = (s', ep, result, reason, tokens)"
  shows "(\<exists>b'. live s' now key = Some b' \<and> bd_endpoint b' = ep) \<and>
    (result = Sticky \<and> ep = bd_endpoint b \<or>
     result = Migrated \<and> bd_endpoint b \<notin> cand_Endpoint ` set cands \<or>
     result = Spill \<and> ep \<noteq> bd_endpoint b \<and>
       (\<exists>c \<in> set cands. cand_Endpoint c = ep \<and> \<not> kvFull c now) \<and>
       (bd_movedAt b = 0 \<or> now - bd_movedAt b \<ge> SpillCooldown))"
proof -
  have cool: "timeSub now (bd_movedAt b) \<ge> SpillCooldown \<longleftrightarrow> now - bd_movedAt b \<ge> SpillCooldown"
    by (rule timeSub_ge) (simp_all add: SpillCooldown_def)
  have spec: "placeSpec (ss_capacity s) (live s now) key cands now tie home bytes =
      (live s' now, ep, result, reason, tokens)"
    using Place_refines [OF assms(1,2), of key cands tie home bytes] assms(5) by (simp add: prod_eq_iff)
  obtain b' p where d: "decideBound b cands now tie bytes = (b', p)"
    by (cases "decideBound b cands now tie bytes")
  with spec assms(3,4) have "(live s now)(key \<mapsto> b') = live s' now" "p = (ep, result, reason, tokens)"
    by (simp_all add: placeSpec_def)
  then have "live s' now key = Some b'" "decideBound b cands now tie bytes = (b', ep, result, reason, tokens)"
    using d by (simp_all flip: fun_upd_apply, metis fun_upd_same)
  then show ?thesis
    by (cases rule: decideBound_cases [OF assms(3), of b now tie bytes])
       (auto simp: cool)
qed

definition ex_table :: Sessions where
  "ex_table = fst (Place (NewSessions 0 1) 7 [ex_cand ''a'' 3] 1000 0 ''a'' 400)"

end
