(* ===== verification/Dispatcher_State.thy ===== *)
theory Dispatcher_State
  imports Router_Config Sessions "HOL-Library.Multiset"
begin

text \<open>
  The dispatcher's shared state and its health bookkeeping (\<open>internal/router/backend.go\<close>,
  \<open>Dispatcher\<close> to \<open>markHealthy\<close>): the health entries of backends and pods, the live endpoint
  sets, the round-robin cursors. Every \<open>sync.Map\<close> is a partial function, every method a function
  on the \<open>Dispatcher\<close> record; the clock \<open>nowFn\<close> is the argument \<open>now\<close>. Load records are reached
  by pointer (a request keeps counting on the record it started with after \<open>SetEndpoints\<close> dropped
  it from the map), so they live in an explicit store of addresses.
\<close>

section \<open>State\<close>

record backendHealth =
  bh_healthy :: bool
  bh_quarantineUntil :: int
  bh_failures :: int

record endpointLoad =
  el_inflight :: int
  el_sample :: "Sample option"
  el_prefill :: int

type_synonym addr = nat
type_synonym handle = nat

text \<open>A release function returned by \<open>track\<close> or \<open>trackPrefill\<close>: the load record it points to and
  what it gives back. Its \<open>sync.Once\<close> is modelled by dropping the handle when it runs.\<close>

datatype release = InflightRelease addr | PrefillRelease addr int nat

record prefillEntry =
  pe_dispatchedAt :: instant
  pe_release :: handle

record ringCache =
  rc_set :: gostring
  rc_ring :: Ring

record Dispatcher =
  d_health :: "gostring \<Rightarrow> backendHealth option"
  d_endpoints :: "gostring \<Rightarrow> gostring list option"
  d_loads :: "gostring \<Rightarrow> addr option"
  d_store :: "endpointLoad list"
  d_handles :: "(handle \<times> release) list"
  d_nextHandle :: nat
  d_prefillLedger :: "(nat \<times> prefillEntry) list"
  d_prefillSeq :: nat
  d_rings :: "gostring \<Rightarrow> ringCache option"
  d_sessions :: "(gostring \<times> Sessions) list"
  d_cursors :: "gostring \<Rightarrow> 64 word option"
  d_quarantineDuration :: duration
  d_responseHeaderTimeout :: duration
  d_streamIdleTimeout :: duration
  d_routerName :: gostring

definition defaultQuarantineDuration :: duration where "defaultQuarantineDuration = 15 * second"
definition endpointFailuresToQuarantine :: int where "endpointFailuresToQuarantine = 2"
definition defaultResponseHeaderTimeout :: duration where "defaultResponseHeaderTimeout = 120 * second"
definition defaultStreamIdleTimeout :: duration where "defaultStreamIdleTimeout = 300 * second"

text \<open>\<open>Time.UnixNano\<close>: nanoseconds since 1970 as an \<open>int64\<close>.\<close>

definition unixEpoch :: instant where "unixEpoch = 62135596800 * second"

definition unixNano :: "instant \<Rightarrow> int" where
  "unixNano t = wrap64 (t - unixEpoch)"

section \<open>Construction\<close>

definition WithQuarantineDuration :: "duration \<Rightarrow> Dispatcher \<Rightarrow> Dispatcher" where
  "WithQuarantineDuration x d = d\<lparr>d_quarantineDuration := x\<rparr>"

definition WithRouterLabel :: "gostring \<Rightarrow> Dispatcher \<Rightarrow> Dispatcher" where
  "WithRouterLabel name d = d\<lparr>d_routerName := name\<rparr>"

definition WithResponseHeaderTimeout :: "duration \<Rightarrow> Dispatcher \<Rightarrow> Dispatcher" where
  "WithResponseHeaderTimeout x d = d\<lparr>d_responseHeaderTimeout := x\<rparr>"

definition WithStreamIdleTimeout :: "duration \<Rightarrow> Dispatcher \<Rightarrow> Dispatcher" where
  "WithStreamIdleTimeout x d = d\<lparr>d_streamIdleTimeout := x\<rparr>"

definition healthKey :: "gostring \<Rightarrow> gostring \<Rightarrow> gostring" where
  "healthKey backendName endpoint =
     (if endpoint = '''' then backendName else backendName @ ''|'' @ endpoint)"

definition freshHealth :: backendHealth where
  "freshHealth = \<lparr>bh_healthy = True, bh_quarantineUntil = 0, bh_failures = 0\<rparr>"

definition addBackend :: "Dispatcher \<Rightarrow> Backend \<Rightarrow> Dispatcher" where
  "addBackend d b =
     (let d = d\<lparr>d_health := (d_health d)(be_Name b \<mapsto> freshHealth)\<rparr> in
      if be_Endpoints b \<noteq> [] \<and> be_EndpointSource b = None
      then d\<lparr>d_endpoints := (d_endpoints d)(be_Name b \<mapsto> be_Endpoints b),
             d_health := foldl (\<lambda>m ep. m(healthKey (be_Name b) ep \<mapsto> freshHealth)) (d_health d) (be_Endpoints b)\<rparr>
      else d)"

definition NewDispatcher :: "Config \<Rightarrow> (Dispatcher \<Rightarrow> Dispatcher) list \<Rightarrow> Dispatcher" where
  "NewDispatcher cfg opts =
     (let d = \<lparr>d_health = Map.empty, d_endpoints = Map.empty, d_loads = Map.empty, d_store = [],
               d_handles = [], d_nextHandle = 0, d_prefillLedger = [], d_prefillSeq = 0,
               d_rings = Map.empty, d_sessions = [], d_cursors = Map.empty,
               d_quarantineDuration = defaultQuarantineDuration,
               d_responseHeaderTimeout = defaultResponseHeaderTimeout,
               d_streamIdleTimeout = defaultStreamIdleTimeout, d_routerName = ''''\<rparr>;
          d = foldl (\<lambda>d opt. opt d) d opts in
      foldl addBackend d (cfg_Backends cfg))"

section \<open>Health\<close>

definition healthFor :: "Dispatcher \<Rightarrow> gostring \<Rightarrow> Dispatcher \<times> backendHealth" where
  "healthFor d key =
     (case d_health d key of
        Some h \<Rightarrow> (d, h)
      | None \<Rightarrow> (d\<lparr>d_health := (d_health d)(key \<mapsto> freshHealth)\<rparr>, freshHealth))"

definition dispatchable :: "Dispatcher \<Rightarrow> instant \<Rightarrow> gostring \<Rightarrow> bool" where
  "dispatchable d now key =
     (case d_health d key of
        None \<Rightarrow> False
      | Some h \<Rightarrow>
          if bh_healthy h then True
          else bh_quarantineUntil h > 0 \<and> unixNano now \<ge> bh_quarantineUntil h)"

definition quarantine :: "Dispatcher \<Rightarrow> instant \<Rightarrow> gostring \<Rightarrow> backendHealth \<Rightarrow> Dispatcher" where
  "quarantine d now key h =
     d\<lparr>d_health := (d_health d)(key \<mapsto> h\<lparr>bh_healthy := False,
        bh_quarantineUntil := unixNano (now + d_quarantineDuration d)\<rparr>)\<rparr>"

definition markUnhealthy :: "Dispatcher \<Rightarrow> instant \<Rightarrow> gostring \<Rightarrow> gostring \<Rightarrow> Dispatcher" where
  "markUnhealthy d0 now name endpoint =
     (let key = healthKey name endpoint; (d, h) = healthFor d0 key in
      if endpoint \<noteq> '''' then
        (let h = h\<lparr>bh_failures := wrap32 (bh_failures h + 1)\<rparr> in
         if bh_failures h < endpointFailuresToQuarantine
         then d\<lparr>d_health := (d_health d)(key \<mapsto> h)\<rparr>
         else quarantine d now key h)
      else quarantine d now key h)"

definition markHealthy :: "Dispatcher \<Rightarrow> gostring \<Rightarrow> gostring \<Rightarrow> Dispatcher" where
  "markHealthy d0 name endpoint =
     (let key = healthKey name endpoint; (d, h) = healthFor d0 key in
      d\<lparr>d_health := (d_health d)(key \<mapsto> h\<lparr>bh_healthy := True, bh_quarantineUntil := 0, bh_failures := 0\<rparr>)\<rparr>)"

definition MarkHealthy :: "Dispatcher \<Rightarrow> gostring \<Rightarrow> Dispatcher" where
  "MarkHealthy d name =
     (case d_health d name of
        None \<Rightarrow> d
      | Some h \<Rightarrow> d\<lparr>d_health := (d_health d)(name \<mapsto> h\<lparr>bh_healthy := True, bh_quarantineUntil := 0\<rparr>)\<rparr>)"

definition MarkUnhealthy :: "Dispatcher \<Rightarrow> instant \<Rightarrow> gostring \<Rightarrow> Dispatcher" where
  "MarkUnhealthy d now name =
     (case d_health d name of None \<Rightarrow> d | Some h \<Rightarrow> quarantine d now name h)"

definition IsHealthy :: "Dispatcher \<Rightarrow> instant \<Rightarrow> gostring \<Rightarrow> bool" where
  "IsHealthy d now name =
     (case d_endpoints d name of
        Some eps \<Rightarrow>
          if eps \<noteq> [] then (\<exists>ep \<in> set eps. dispatchable d now (healthKey name ep))
          else dispatchable d now name
      | None \<Rightarrow> dispatchable d now name)"

section \<open>Endpoint sets\<close>

definition liveEndpoints :: "Dispatcher \<Rightarrow> Backend \<Rightarrow> gostring list" where
  "liveEndpoints d b =
     (case d_endpoints d (be_Name b) of
        Some eps \<Rightarrow> eps
      | None \<Rightarrow> if be_EndpointSource b \<noteq> None then [] else be_Endpoints b)"

definition dispatchTarget :: "Backend \<Rightarrow> gostring \<Rightarrow> gostring" where
  "dispatchTarget b endpoint = (if endpoint \<noteq> '''' then endpoint else be_Address b)"

definition SetEndpoints :: "Dispatcher \<Rightarrow> gostring \<Rightarrow> gostring list \<Rightarrow> Dispatcher" where
  "SetEndpoints d name endpoints =
     (let next = sort endpoints;
          prev = (case d_endpoints d name of Some eps \<Rightarrow> eps | None \<Rightarrow> []);
          d = foldl (\<lambda>d ep. fst (healthFor d (healthKey name ep))) d next;
          d = foldl (\<lambda>d ep. if ep \<in> set next then d
                            else d\<lparr>d_health := (d_health d)(healthKey name ep := None),
                                   d_loads := (d_loads d)(healthKey name ep := None)\<rparr>) d prev in
      d\<lparr>d_endpoints := (d_endpoints d)(name \<mapsto> next)\<rparr>)"

section \<open>Round robin\<close>

text \<open>\<open>Uint64.Add(1) - 1\<close> on the backend's cursor: the value before the increment.\<close>

definition endpointCursor :: "Dispatcher \<Rightarrow> gostring \<Rightarrow> Dispatcher \<times> 64 word" where
  "endpointCursor d name =
     (let c = (case d_cursors d name of Some c \<Rightarrow> c | None \<Rightarrow> 0) in
      (d\<lparr>d_cursors := (d_cursors d)(name \<mapsto> c + 1)\<rparr>, c))"

text \<open>Go's remainder takes the sign of the dividend.\<close>

definition goRem :: "int \<Rightarrow> int \<Rightarrow> int" where
  "goRem a n = (if a < 0 then - ((- a) mod n) else a mod n)"

text \<open>Indexing with an \<open>int\<close>; \<open>None\<close> is the run-time panic.\<close>

definition goIndex :: "'a list \<Rightarrow> int \<Rightarrow> 'a option" where
  "goIndex xs i = (if 0 \<le> i \<and> nat i < length xs then Some (xs ! nat i) else None)"

fun roundRobinScan :: "Dispatcher \<Rightarrow> instant \<Rightarrow> gostring \<Rightarrow> gostring list \<Rightarrow> int \<Rightarrow> nat list \<Rightarrow> gostring option option" where
  "roundRobinScan d now name eps start [] = Some None"
| "roundRobinScan d now name eps start (i # is) =
     (case goIndex eps (goRem (start + int i) (int (length eps))) of
        None \<Rightarrow> None
      | Some ep \<Rightarrow> if dispatchable d now (healthKey name ep) then Some (Some ep)
                   else roundRobinScan d now name eps start is)"

text \<open>The chosen endpoint; \<open>None\<close> when the index expression panics.\<close>

definition roundRobin :: "Dispatcher \<Rightarrow> instant \<Rightarrow> gostring \<Rightarrow> gostring list \<Rightarrow> Dispatcher \<times> gostring option" where
  "roundRobin d0 now name eps =
     (case eps of
        [] \<Rightarrow> (d0, Some '''')
      | [ep] \<Rightarrow> (d0, Some ep)
      | _ \<Rightarrow>
          (let (d, c) = endpointCursor d0 name;
               start = goRem (sint c) (int (length eps)) in
           case roundRobinScan d now name eps start [0..<length eps] of
             None \<Rightarrow> (d, None)
           | Some (Some ep) \<Rightarrow> (d, Some ep)
           | Some None \<Rightarrow> (d, goIndex eps start)))"

section \<open>The circuit breaker\<close>

text \<open>The instants the health entries can store: after 1970 and before 2262.\<close>

definition validTime :: "instant \<Rightarrow> bool" where
  "validTime t \<longleftrightarrow> unixEpoch < t \<and> t < unixEpoch + 2 ^ 63"

lemma unixNano_valid: "validTime t \<Longrightarrow> unixNano t = t - unixEpoch \<and> 0 < unixNano t"
  by (simp add: validTime_def unixNano_def is_int64_def)

lemma healthFor_simps [simp]:
  "d_health (fst (healthFor d key)) = (d_health d)(key \<mapsto> snd (healthFor d key))"
  "d_quarantineDuration (fst (healthFor d key)) = d_quarantineDuration d"
  "d_endpoints (fst (healthFor d key)) = d_endpoints d"
  "d_loads (fst (healthFor d key)) = d_loads d"
  by (auto simp: healthFor_def fun_eq_iff split: option.splits)

lemma dispatchable_other:
  "d_health d' key = d_health d key \<Longrightarrow> dispatchable d' now key = dispatchable d now key"
  by (simp add: dispatchable_def)

text \<open>
  What routing relies on from a circuit breaker: tripping a key closes it for the window and no
  longer, resetting it opens it, and neither touches another key.
\<close>

locale breaker =
  fixes window :: "'s \<Rightarrow> duration"
    and trip :: "'s \<Rightarrow> instant \<Rightarrow> 'k \<Rightarrow> 's"
    and reset :: "'s \<Rightarrow> 'k \<Rightarrow> 's"
    and allow :: "'s \<Rightarrow> instant \<Rightarrow> 'k \<Rightarrow> bool"
    and clock :: "instant \<Rightarrow> bool"
  assumes trip_window: "window (trip s now k) = window s"
    and reset_window: "window (reset s k) = window s"
    and trip_same: "clock (now + window s) \<Longrightarrow> clock t \<Longrightarrow>
      allow (trip s now k) t k \<longleftrightarrow> now + window s \<le> t"
    and trip_other: "k' \<noteq> k \<Longrightarrow> allow (trip s now k) t k' = allow s t k'"
    and reset_same: "allow (reset s k) t k"
    and reset_other: "k' \<noteq> k \<Longrightarrow> allow (reset s k) t k' = allow s t k'"
begin

text \<open>A history of outcomes: a key with the instant it was tripped, or a key that was reset.\<close>

definition play :: "'s \<Rightarrow> ('k \<times> instant option) list \<Rightarrow> 's" where
  "play s evs = foldl (\<lambda>s (k, ev). case ev of Some now \<Rightarrow> trip s now k | None \<Rightarrow> reset s k) s evs"

lemma play_simps [simp]:
  "play s [] = s"
  "play s ((k, Some now) # evs) = play (trip s now k) evs"
  "play s ((k, None) # evs) = play (reset s k) evs"
  by (simp_all add: play_def)

lemma play_other: "k \<notin> fst ` set evs \<Longrightarrow> allow (play s evs) t k = allow s t k"
proof (induction evs arbitrary: s)
  case Nil
  then show ?case by simp
next
  case (Cons e evs)
  then show ?case by (cases e; cases "snd e") (auto simp: trip_other reset_other)
qed

lemma closed_for_window:
  assumes "k \<notin> fst ` set evs" "clock (now + window s)" "clock t"
  shows "allow (play (trip s now k) evs) t k \<longleftrightarrow> now + window s \<le> t"
  using play_other [OF assms(1)] trip_same [OF assms(2,3)] by blast

lemma open_until_tripped:
  assumes "k \<notin> fst ` set evs"
  shows "allow (play (reset s k) evs) t k"
  using play_other [OF assms] reset_same by blast

end

lemma markUnhealthy_backend:
  "d_health (markUnhealthy d now name '''') = (d_health d)(name \<mapsto>
     (snd (healthFor d name))\<lparr>bh_healthy := False, bh_quarantineUntil := unixNano (now + d_quarantineDuration d)\<rparr>)"
  by (simp add: markUnhealthy_def healthKey_def quarantine_def split: prod.split)
     (metis fst_conv fun_upd_upd healthFor_simps(1,2) snd_conv)

lemma markUnhealthy_window [simp]: "d_quarantineDuration (markUnhealthy d now name ep) = d_quarantineDuration d"
  by (simp add: markUnhealthy_def quarantine_def Let_def split: prod.split)
     (metis fst_conv healthFor_simps(2))

lemma markHealthy_health:
  "d_health (markHealthy d name ep) = (d_health d)(healthKey name ep \<mapsto>
     (snd (healthFor d (healthKey name ep)))\<lparr>bh_healthy := True, bh_quarantineUntil := 0, bh_failures := 0\<rparr>)"
  by (simp add: markHealthy_def Let_def split: prod.split)
     (metis fst_conv fun_upd_upd healthFor_simps(1) snd_conv)

lemma markHealthy_window [simp]: "d_quarantineDuration (markHealthy d name ep) = d_quarantineDuration d"
  by (simp add: markHealthy_def Let_def split: prod.split) (metis fst_conv healthFor_simps(2))

interpretation backend_breaker: breaker d_quarantineDuration
    "\<lambda>d now name. markUnhealthy d now name ''''" "\<lambda>d name. markHealthy d name ''''" dispatchable validTime
proof
  fix d :: Dispatcher and now t :: instant and name name' :: gostring
  show "d_quarantineDuration (markUnhealthy d now name '''') = d_quarantineDuration d"
    "d_quarantineDuration (markHealthy d name '''') = d_quarantineDuration d" by simp_all
  show "dispatchable (markUnhealthy d now name '''') t name \<longleftrightarrow> now + d_quarantineDuration d \<le> t"
    if "validTime (now + d_quarantineDuration d)" "validTime t"
    using unixNano_valid [OF that(1)] unixNano_valid [OF that(2)]
    by (simp add: dispatchable_def markUnhealthy_backend)
  show "dispatchable (markUnhealthy d now name '''') t name' = dispatchable d t name'" if "name' \<noteq> name"
    using that by (intro dispatchable_other) (simp add: markUnhealthy_backend)
  show "dispatchable (markHealthy d name '''') t name"
    by (simp add: dispatchable_def markHealthy_health healthKey_def)
  show "dispatchable (markHealthy d name '''') t name' = dispatchable d t name'" if "name' \<noteq> name"
    using that by (intro dispatchable_other) (simp add: markHealthy_health healthKey_def)
qed

section \<open>Failures of one pod\<close>

lemma markUnhealthy_endpoint:
  fixes d now name ep
  defines "key \<equiv> healthKey name ep" and "h \<equiv> snd (healthFor d (healthKey name ep))"
  assumes "ep \<noteq> ''''"
  shows "d_health (markUnhealthy d now name ep) = (d_health d)(key \<mapsto>
    (let f = wrap32 (bh_failures h + 1) in
     if f < endpointFailuresToQuarantine then h\<lparr>bh_failures := f\<rparr>
     else h\<lparr>bh_failures := f, bh_healthy := False,
            bh_quarantineUntil := unixNano (now + d_quarantineDuration d)\<rparr>))"
proof -
  obtain d1 h1 where d1: "healthFor d (healthKey name ep) = (d1, h1)" by (cases "healthFor d (healthKey name ep)")
  then have "d_health d1 = (d_health d)(key \<mapsto> h1)" "h = h1" "d_quarantineDuration d1 = d_quarantineDuration d"
    using healthFor_simps(1,2) [of d "healthKey name ep"] by (simp_all add: key_def h_def)
  with d1 assms(3) show ?thesis
    by (simp add: markUnhealthy_def quarantine_def Let_def key_def)
qed

definition observe :: "gostring \<Rightarrow> gostring \<Rightarrow> Dispatcher \<Rightarrow> instant \<times> bool \<Rightarrow> Dispatcher" where
  "observe name ep d e = (case e of (now, ok) \<Rightarrow>
     if ok then markHealthy d name ep else markUnhealthy d now name ep)"

text \<open>The number of failures since the last success.\<close>

definition streak :: "(instant \<times> bool) list \<Rightarrow> nat" where
  "streak os = length (takeWhile (\<lambda>e. \<not> snd e) (rev os))"

lemma streak_snoc: "streak (os @ [e]) = (if snd e then 0 else Suc (streak os))"
  by (simp add: streak_def)

lemma streak_le: "streak os \<le> length os"
  using length_takeWhile_le [of "\<lambda>e. \<not> snd e" "rev os"] by (simp add: streak_def)

lemma wrap32_small: "0 \<le> x \<Longrightarrow> x < 2 ^ 31 \<Longrightarrow> wrap32 x = x"
  by (simp add: wrap32_def)

lemma observe_failures:
  assumes "d_health d (healthKey name ep) \<in> {None, Some freshHealth}" "ep \<noteq> ''''" "length os < 2 ^ 31"
  shows "let h = snd (healthFor (foldl (observe name ep) d os) (healthKey name ep)) in
    bh_failures h = int (streak os) \<and> (bh_healthy h \<longleftrightarrow> streak os < 2)"
  using assms(3)
proof (induction os rule: rev_induct)
  case Nil
  from assms(1) show ?case by (auto simp: healthFor_def freshHealth_def streak_def)
next
  case (snoc e os)
  define D where "D = foldl (observe name ep) d os"
  define h where "h = snd (healthFor D (healthKey name ep))"
  have ih: "bh_failures h = int (streak os)" "bh_healthy h \<longleftrightarrow> streak os < 2"
    using snoc by (simp_all add: h_def D_def Let_def)
  have w: "wrap32 (int (streak os) + 1) = int (streak os) + 1"
    using streak_le [of os] snoc.prems by (intro wrap32_small) auto
  obtain now ok where e: "e = (now, ok)" by (cases e)
  have step: "foldl (observe name ep) d (os @ [e]) =
      (if ok then markHealthy D name ep else markUnhealthy D now name ep)"
    by (simp only: foldl_append foldl.simps flip: D_def) (simp add: e observe_def)
  have entry: "snd (healthFor X key) = (case d_health X key of Some h \<Rightarrow> h | None \<Rightarrow> freshHealth)" for X key
    by (simp add: healthFor_def split: option.split)
  show ?case
    unfolding step entry Let_def
    by (auto simp: markHealthy_health markUnhealthy_endpoint [OF assms(2)] h_def [symmetric]
        ih w streak_snoc Let_def endpointFailuresToQuarantine_def e)
qed

lemma healthKey_inj:
  assumes "CHR ''|'' \<notin> set n1" "CHR ''|'' \<notin> set n2" "healthKey n1 e1 = healthKey n2 e2"
  shows "n1 = n2 \<and> e1 = e2"
proof -
  have split: "takeWhile (\<lambda>c. c \<noteq> CHR ''|'') (healthKey n e) = n \<and>
      (e = '''' \<longleftrightarrow> CHR ''|'' \<notin> set (healthKey n e)) \<and> drop (length n + 1) (healthKey n e) = e"
    if "CHR ''|'' \<notin> set n" for n e
    using that by (auto simp: healthKey_def takeWhile_append takeWhile_eq_all_conv)
  from split [OF assms(1), of e1] split [OF assms(2), of e2] assms(3) show ?thesis by metis
qed

lemma observe_other:
  assumes "key \<noteq> healthKey name ep"
  shows "d_health (foldl (observe name ep) d os) key = d_health d key"
proof -
  have "d_health (observe name ep d e) key = d_health d key" for d e
  proof (cases "ep = ''''")
    case True
    with assms show ?thesis
      by (cases e) (simp add: observe_def markHealthy_health markUnhealthy_backend healthKey_def)
  next
    case False
    with assms show ?thesis
      by (cases e) (simp add: observe_def markHealthy_health markUnhealthy_endpoint Let_def)
  qed
  then show ?thesis by (induction os arbitrary: d) simp_all
qed

section \<open>Round robin\<close>

lemma goRem_nonneg: "0 \<le> a \<Longrightarrow> goRem a n = a mod n"
  by (simp add: goRem_def)

lemma goIndex_mod: "xs \<noteq> [] \<Longrightarrow> goIndex xs (int a mod int (length xs)) = Some (xs ! (a mod length xs))"
  by (simp add: goIndex_def flip: zmod_int)

lemma roundRobinScan_find:
  assumes "eps \<noteq> []"
  shows "roundRobinScan d now name eps (int start) is =
    Some (List.find (\<lambda>ep. dispatchable d now (healthKey name ep))
      (map (\<lambda>i. eps ! ((start + i) mod length eps)) is))"
proof (induction "is")
  case Nil
  show ?case by simp
next
  case (Cons i js)
  have "goIndex eps (goRem (int start + int i) (int (length eps))) = Some (eps ! ((start + i) mod length eps))"
    using goIndex_mod [OF assms, of "start + i"] by (simp add: goRem_nonneg)
  with Cons.IH show ?case by simp
qed

definition cursorOf :: "Dispatcher \<Rightarrow> gostring \<Rightarrow> nat" where
  "cursorOf d name = (case d_cursors d name of Some c \<Rightarrow> unat c | None \<Rightarrow> 0)"

lemma sint_small: "unat (c :: 64 word) < 2 ^ 63 \<Longrightarrow> sint c = int (unat c)"
proof -
  assume "unat c < 2 ^ 63"
  then have "uint c < 2 ^ 63" by (metis of_nat_less_iff of_nat_numeral of_nat_power uint_nat)
  moreover have "- (2 ^ 63) \<le> uint c" by (rule order_trans [of _ 0]) simp_all
  ultimately have "signed_take_bit 63 (uint c) = uint c" by (intro signed_take_bit_int_eq_self)
  then show ?thesis by (simp add: sint_uint uint_nat [symmetric])
qed

lemma rotate_as_map: "rotate k xs = map (\<lambda>i. xs ! ((k + i) mod length xs)) [0..<length xs]"
  by (rule nth_equalityI) (simp_all add: nth_rotate)

lemma dispatchable_cursor [simp]: "dispatchable (fst (endpointCursor d name)) = dispatchable d"
  by (simp add: endpointCursor_def Let_def dispatchable_def fun_eq_iff)

lemma roundRobin_spec:
  assumes "2 \<le> length eps" "cursorOf d name < 2 ^ 63"
  shows "roundRobin d now name eps = (fst (endpointCursor d name),
    Some (case List.find (\<lambda>ep. dispatchable d now (healthKey name ep)) (rotate (cursorOf d name) eps) of
            Some ep \<Rightarrow> ep
          | None \<Rightarrow> eps ! (cursorOf d name mod length eps)))"
proof -
  let ?n = "length eps" and ?c = "cursorOf d name"
  have ne: "eps \<noteq> []" using assms(1) by auto
  obtain a b es where eps: "eps = a # b # es" using assms(1) by (cases eps rule: remdups_adj.cases) auto
  have c: "sint (snd (endpointCursor d name)) = int ?c"
    using assms(2) by (auto simp: endpointCursor_def Let_def cursorOf_def sint_small split: option.splits)
  have start: "goRem (int ?c) (int ?n) = int (?c mod ?n)" by (simp add: goRem_nonneg zmod_int)
  have idx: "goIndex eps (int (?c mod ?n)) = Some (eps ! (?c mod ?n))"
    using goIndex_mod [OF ne, of ?c] by (simp add: zmod_int)
  have "map (\<lambda>i. eps ! ((?c mod ?n + i) mod ?n)) [0..<?n] = rotate ?c eps"
    by (simp add: rotate_as_map mod_add_left_eq)
  then show ?thesis
    using roundRobinScan_find [OF ne, of "fst (endpointCursor d name)" now name "?c mod ?n" "[0..<?n]"]
    by (simp add: roundRobin_def eps [symmetric] split_beta c start idx list.case_eq_if split: option.split)
       (auto simp: eps)
qed

lemma roundRobin_choice:
  assumes "eps \<noteq> []" "cursorOf d name < 2 ^ 63"
  shows "\<exists>ep \<in> set eps. snd (roundRobin d now name eps) = Some ep \<and>
    (2 \<le> length eps \<longrightarrow> (\<exists>e \<in> set eps. dispatchable d now (healthKey name e)) \<longrightarrow>
       dispatchable d now (healthKey name ep))"
proof (cases "2 \<le> length eps")
  case False
  with assms(1) obtain e where "eps = [e]" by (cases eps rule: remdups_adj.cases) auto
  then show ?thesis by (simp add: roundRobin_def)
next
  case True
  let ?P = "\<lambda>ep. dispatchable d now (healthKey name ep)"
  note spec = roundRobin_spec [OF True assms(2), of now]
  show ?thesis
  proof (cases "List.find ?P (rotate (cursorOf d name) eps)")
    case None
    moreover have "eps ! (cursorOf d name mod length eps) \<in> set eps" using assms(1) by simp
    moreover from None have "\<not> (\<exists>e \<in> set eps. ?P e)" by (simp add: find_None_all)
    ultimately show ?thesis using spec by simp
  next
    case (Some ep)
    then have "ep \<in> set eps" "?P ep" using find_Some_in by fastforce+
    with Some show ?thesis using spec by auto
  qed
qed

text \<open>The answers of \<open>k\<close> consecutive calls of \<open>roundRobin\<close> for one backend.\<close>

fun rrCalls :: "Dispatcher \<Rightarrow> instant \<Rightarrow> gostring \<Rightarrow> gostring list \<Rightarrow> nat \<Rightarrow> gostring option list" where
  "rrCalls d now name eps 0 = []"
| "rrCalls d now name eps (Suc k) =
     (let (d', ep) = roundRobin d now name eps in ep # rrCalls d' now name eps k)"

lemma cursorOf_next:
  "cursorOf d name < 2 ^ 63 \<Longrightarrow> cursorOf (fst (endpointCursor d name)) name = cursorOf d name + 1"
proof -
  assume small: "cursorOf d name < 2 ^ 63"
  have "unat (c + 1 :: 64 word) = unat c + 1" if "unat c < 2 ^ 63" for c
    using that by (subst unat_add_lem [THEN iffD1]) simp_all
  with small show ?thesis
    by (auto simp: endpointCursor_def Let_def cursorOf_def split: option.splits)
qed

lemma find_first: "xs \<noteq> [] \<Longrightarrow> P (hd xs) \<Longrightarrow> List.find P xs = Some (hd xs)"
  by (cases xs) simp_all

lemma rrCalls_rotate:
  assumes "2 \<le> length eps" "cursorOf d name + k < 2 ^ 63"
    and "\<forall>ep \<in> set eps. dispatchable d now (healthKey name ep)"
  shows "rrCalls d now name eps k = map (\<lambda>i. Some (eps ! ((cursorOf d name + i) mod length eps))) [0..<k]"
  using assms(2,3)
proof (induction k arbitrary: d)
  case 0
  show ?case by simp
next
  case (Suc k)
  let ?c = "cursorOf d name" and ?d = "fst (endpointCursor d name)"
  have ne: "eps \<noteq> []" using assms(1) by auto
  have hd: "hd (rotate ?c eps) = eps ! (?c mod length eps)"
    using ne by (simp add: hd_conv_nth nth_rotate)
  have "List.find (\<lambda>ep. dispatchable d now (healthKey name ep)) (rotate ?c eps) = Some (eps ! (?c mod length eps))"
    using find_first [of "rotate ?c eps"] ne Suc.prems(2) by (simp add: hd)
  then have rr: "roundRobin d now name eps = (?d, Some (eps ! (?c mod length eps)))"
    using roundRobin_spec [OF assms(1), of d name now] Suc.prems(1) by simp
  have "rrCalls ?d now name eps k = map (\<lambda>i. Some (eps ! ((?c + 1 + i) mod length eps))) [0..<k]"
    using Suc.IH [of ?d] Suc.prems cursorOf_next [of d name] by simp
  then show ?case
    using rr by (simp add: upt_conv_Cons map_Suc_upt [symmetric] comp_def del: upt_Suc)
qed

section \<open>Endpoint sets\<close>

lemma healthKey_inj_endpoint: "healthKey name e1 = healthKey name e2 \<longleftrightarrow> e1 = e2"
  by (auto simp: healthKey_def)

lemma ensure_health:
  "d_health (foldl (\<lambda>d ep. fst (healthFor d (healthKey name ep))) d xs) key =
     (if key \<in> healthKey name ` set xs \<and> d_health d key = None then Some freshHealth else d_health d key)"
proof (induction xs arbitrary: d)
  case Nil
  show ?case by simp
next
  case (Cons x xs)
  have "d_health (fst (healthFor d (healthKey name x))) key =
      (if key = healthKey name x \<and> d_health d key = None then Some freshHealth else d_health d key)"
    by (auto simp: healthFor_def split: option.splits)
  with Cons.IH show ?case by auto
qed

lemma drop_health:
  "d_health (foldl (\<lambda>d ep. if ep \<in> S then d
       else d\<lparr>d_health := (d_health d)(healthKey name ep := None),
              d_loads := (d_loads d)(healthKey name ep := None)\<rparr>) d xs) key =
     (if key \<in> healthKey name ` (set xs - S) then None else d_health d key)"
  by (induction xs arbitrary: d) auto

lemma SetEndpoints_health:
  fixes d name eps key
  defines "prev \<equiv> (case d_endpoints d name of Some e \<Rightarrow> e | None \<Rightarrow> [])"
  shows "d_health (SetEndpoints d name eps) key =
    (if key \<in> healthKey name ` (set prev - set eps) then None
     else if key \<in> healthKey name ` set eps \<and> d_health d key = None then Some freshHealth
     else d_health d key)"
  by (simp add: SetEndpoints_def Let_def drop_health ensure_health prev_def)

lemma ensure_endpoints [simp]:
  "d_endpoints (foldl (\<lambda>d ep. fst (healthFor d (healthKey name ep))) d xs) = d_endpoints d"
  by (induction xs arbitrary: d) simp_all

lemma drop_endpoints [simp]:
  "d_endpoints (foldl (\<lambda>d ep. if ep \<in> S then d
       else d\<lparr>d_health := (d_health d)(healthKey name ep := None),
              d_loads := (d_loads d)(healthKey name ep := None)\<rparr>) d xs) = d_endpoints d"
  by (induction xs arbitrary: d) simp_all

lemma SetEndpoints_endpoints:
  "d_endpoints (SetEndpoints d name eps) = (d_endpoints d)(name \<mapsto> sort eps)"
  by (simp add: SetEndpoints_def Let_def)

section \<open>Properties\<close>

text \<open>Outcomes of whole backends: the instant a backend failed at, or \<open>None\<close> for a success.\<close>

definition settle :: "Dispatcher \<Rightarrow> (gostring \<times> instant option) list \<Rightarrow> Dispatcher" where
  "settle d evs = foldl (\<lambda>d (name, ev). case ev of
     Some now \<Rightarrow> markUnhealthy d now name '''' | None \<Rightarrow> markHealthy d name '''') d evs"

text \<open>Quarantine: once a backend without pods fails at \<open>now\<close>, and whatever other backends do
  meanwhile, it is skipped exactly until \<open>quarantineDuration\<close> has passed and then admitted as a
  half-open probe.\<close>
lemma quarantine_window:
  assumes "name \<notin> fst ` set evs" and "validTime (now + d_quarantineDuration d)" and "validTime t"
  shows "dispatchable (settle (markUnhealthy d now name '''') evs) t name \<longleftrightarrow>
    now + d_quarantineDuration d \<le> t"
  using backend_breaker.closed_for_window [OF assms]
  by (simp add: settle_def backend_breaker.play_def)

definition ex_dispatcher :: Dispatcher where
  "ex_dispatcher = NewDispatcher ex_config []"

lemma ex_dispatcher_quarantine: "d_quarantineDuration ex_dispatcher = 15 * second"
  by (simp add: ex_dispatcher_def NewDispatcher_def addBackend_def ex_config_def ex_backend_def
      defaultQuarantineDuration_def Let_def)

text \<open>One bad pod: from a fresh entry, after any outcomes of a pod the pod is quarantined
  exactly when its last two outcomes or more were failures, and the health of every other pod
  and backend is untouched.\<close>
lemma pod_quarantine:
  assumes "d_health d (healthKey name ep) \<in> {None, Some freshHealth}" and "ep \<noteq> ''''"
    and "length os < 2 ^ 31"
  shows "(bh_healthy (snd (healthFor (foldl (observe name ep) d os) (healthKey name ep)))
      \<longleftrightarrow> streak os < 2) \<and>
    (\<forall>key. key \<noteq> healthKey name ep \<longrightarrow> d_health (foldl (observe name ep) d os) key = d_health d key)"
  using observe_failures [OF assms] observe_other by (simp add: Let_def)

text \<open>Round robin always answers with one of the pods, one that may be tried now whenever
  there is one; and while all pods may be tried, as many consecutive calls as there are pods
  answer each pod exactly once.\<close>
lemma round_robin_fair:
  assumes "2 \<le> length eps" and "cursorOf d name + length eps < 2 ^ 63"
  shows "(\<exists>ep \<in> set eps. snd (roundRobin d now name eps) = Some ep \<and>
      ((\<exists>e \<in> set eps. dispatchable d now (healthKey name e)) \<longrightarrow> dispatchable d now (healthKey name ep))) \<and>
    ((\<forall>ep \<in> set eps. dispatchable d now (healthKey name ep)) \<longrightarrow>
      mset (rrCalls d now name eps (length eps)) = mset (map Some eps))"
proof -
  have "eps \<noteq> []" "cursorOf d name < 2 ^ 63" using assms by auto
  from roundRobin_choice [OF this, of now] assms(1)
  have "\<exists>ep \<in> set eps. snd (roundRobin d now name eps) = Some ep \<and>
      ((\<exists>e \<in> set eps. dispatchable d now (healthKey name e)) \<longrightarrow> dispatchable d now (healthKey name ep))"
    by blast
  moreover have "mset (rrCalls d now name eps (length eps)) = mset (map Some eps)"
    if "\<forall>ep \<in> set eps. dispatchable d now (healthKey name ep)"
  proof -
    have "rrCalls d now name eps (length eps) = map Some (rotate (cursorOf d name) eps)"
      using rrCalls_rotate [OF assms that] by (simp add: rotate_as_map)
    moreover have "mset (rotate (cursorOf d name) eps) = mset eps"
      by (simp add: rotate_drop_take) (metis add.commute append_take_drop_id mset_append)
    ultimately show ?thesis by simp
  qed
  ultimately show ?thesis by blast
qed

text \<open>A changed endpoint set: pods that left lose their health entry, so an address that is
  reused later does not inherit an old quarantine; pods that stayed keep theirs; new pods start
  healthy; no other entry changes; and the stored set is sorted, so every replica sees one
  order.\<close>
lemma SetEndpoints_entries:
  "d_health (SetEndpoints d name eps) key =
     (if key \<in> healthKey name ` (set (case d_endpoints d name of Some e \<Rightarrow> e | None \<Rightarrow> []) - set eps) then None
      else if key \<in> healthKey name ` set eps \<and> d_health d key = None then Some freshHealth
      else d_health d key) \<and>
   d_endpoints (SetEndpoints d name eps) name = Some (sort eps)"
  by (simp add: SetEndpoints_health SetEndpoints_endpoints)

end
