(* ===== verification/Endpoint_Load.thy ===== *)
theory Endpoint_Load
  imports Dispatcher_State
begin

text \<open>
  Per-pod load accounting (\<open>internal/router/endpoint_load.go\<close>): load records reached by pointer,
  the release functions of \<open>track\<close> and \<open>trackPrefill\<close>, the prefill ledger and its janitor. The
  counters of every record are shown to be the sum of what has been tracked and not released,
  also for records that \<open>SetEndpoints\<close> dropped while requests still point to them.
\<close>

section \<open>Operations\<close>

definition emptyLoad :: endpointLoad where
  "emptyLoad = \<lparr>el_inflight = 0, el_sample = None, el_prefill = 0\<rparr>"

definition loadFor :: "Dispatcher \<Rightarrow> gostring \<Rightarrow> gostring \<Rightarrow> Dispatcher \<times> addr" where
  "loadFor d backend endpoint =
     (let key = healthKey backend endpoint in
      case d_loads d key of
        Some a \<Rightarrow> (d, a)
      | None \<Rightarrow>
          (let a = length (d_store d) in
           (d\<lparr>d_store := d_store d @ [emptyLoad], d_loads := (d_loads d)(key \<mapsto> a)\<rparr>, a)))"

definition updLoad :: "addr \<Rightarrow> (endpointLoad \<Rightarrow> endpointLoad) \<Rightarrow> Dispatcher \<Rightarrow> Dispatcher" where
  "updLoad a f d = d\<lparr>d_store := (d_store d)[a := f (d_store d ! a)]\<rparr>"

definition RecordSample :: "Dispatcher \<Rightarrow> gostring \<Rightarrow> gostring \<Rightarrow> Sample \<Rightarrow> Dispatcher" where
  "RecordSample d0 backend endpoint s =
     (let (d, a) = loadFor d0 backend endpoint in
      updLoad a (\<lambda>l. l\<lparr>el_sample := Some (s\<lparr>smp_InFlightAt := el_inflight l\<rparr>)\<rparr>) d)"

definition EndpointsOf :: "Dispatcher \<Rightarrow> gostring \<Rightarrow> gostring list" where
  "EndpointsOf d backend = (case d_endpoints d backend of Some eps \<Rightarrow> eps | None \<Rightarrow> [])"

definition newHandle :: "release \<Rightarrow> Dispatcher \<Rightarrow> Dispatcher \<times> handle" where
  "newHandle r d =
     (d\<lparr>d_handles := d_handles d @ [(d_nextHandle d, r)], d_nextHandle := d_nextHandle d + 1\<rparr>, d_nextHandle d)"

text \<open>The returned release function, \<open>None\<close> for the empty one.\<close>

definition track :: "Dispatcher \<Rightarrow> gostring \<Rightarrow> gostring \<Rightarrow> Dispatcher \<times> handle option" where
  "track d0 backend endpoint =
     (if endpoint = '''' then (d0, None)
      else
        (let (d, a) = loadFor d0 backend endpoint;
             d = updLoad a (\<lambda>l. l\<lparr>el_inflight := wrap64 (el_inflight l + 1)\<rparr>) d;
             (d, h) = newHandle (InflightRelease a) d in
         (d, Some h)))"

definition trackPrefill :: "Dispatcher \<Rightarrow> instant \<Rightarrow> gostring \<Rightarrow> gostring \<Rightarrow> int \<Rightarrow> Dispatcher \<times> handle option" where
  "trackPrefill d0 now backend endpoint tokens =
     (if endpoint = '''' \<or> tokens \<le> 0 then (d0, None)
      else
        (let (d, a) = loadFor d0 backend endpoint;
             d = updLoad a (\<lambda>l. l\<lparr>el_prefill := wrap64 (el_prefill l + tokens)\<rparr>) d;
             d = d\<lparr>d_prefillSeq := d_prefillSeq d + 1\<rparr>;
             ident = d_prefillSeq d;
             (d, h) = newHandle (PrefillRelease a tokens ident) d in
         (d\<lparr>d_prefillLedger := alist_set ident \<lparr>pe_dispatchedAt = now, pe_release = h\<rparr> (d_prefillLedger d)\<rparr>,
          Some h)))"

text \<open>Calling a release function; a second call does nothing.\<close>

definition callRelease :: "Dispatcher \<Rightarrow> handle option \<Rightarrow> Dispatcher" where
  "callRelease d ho =
     (case ho of
        None \<Rightarrow> d
      | Some h \<Rightarrow>
          (case alist_get (d_handles d) h of
             None \<Rightarrow> d
           | Some (InflightRelease a) \<Rightarrow>
               (updLoad a (\<lambda>l. l\<lparr>el_inflight := wrap64 (el_inflight l - 1)\<rparr>) d)
                 \<lparr>d_handles := alist_del h (d_handles d)\<rparr>
           | Some (PrefillRelease a tokens ident) \<Rightarrow>
               (updLoad a (\<lambda>l. l\<lparr>el_prefill := wrap64 (el_prefill l - tokens)\<rparr>) d)
                 \<lparr>d_handles := alist_del h (d_handles d),
                  d_prefillLedger := alist_del ident (d_prefillLedger d)\<rparr>))"

definition prefillTTL :: "Dispatcher \<Rightarrow> duration" where
  "prefillTTL d =
     (let idle = (if d_streamIdleTimeout d \<le> 0 then defaultStreamIdleTimeout else d_streamIdleTimeout d) in
      wrap64 (d_responseHeaderTimeout d + idle))"

definition ExpirePrefill :: "Dispatcher \<Rightarrow> instant \<Rightarrow> Dispatcher \<times> nat" where
  "ExpirePrefill d now =
     (let expired = map (\<lambda>(i, e). pe_release e)
            (filter (\<lambda>(i, e). timeSub now (pe_dispatchedAt e) > prefillTTL d) (d_prefillLedger d)) in
      (foldl (\<lambda>d h. callRelease d (Some h)) d expired, length expired))"

section \<open>The accounting invariant\<close>

definition inflight_weight :: "addr \<Rightarrow> release \<Rightarrow> int" where
  "inflight_weight a r = (if r = InflightRelease a then 1 else 0)"

definition prefill_weight :: "addr \<Rightarrow> release \<Rightarrow> int" where
  "prefill_weight a r = (case r of PrefillRelease a' t _ \<Rightarrow> if a' = a then t else 0 | _ \<Rightarrow> 0)"

definition outstanding :: "(release \<Rightarrow> int) \<Rightarrow> Dispatcher \<Rightarrow> int" where
  "outstanding f d = (\<Sum>(h, r) \<leftarrow> d_handles d. f r)"

fun release_addr :: "release \<Rightarrow> addr" where
  "release_addr (InflightRelease a) = a"
| "release_addr (PrefillRelease a t i) = a"

definition handles_ok :: "Dispatcher \<Rightarrow> bool" where
  "handles_ok d \<longleftrightarrow> alist_wf (d_handles d) \<and>
     (\<forall>(h, r) \<in> set (d_handles d). h < d_nextHandle d \<and> release_addr r < length (d_store d)) \<and>
     (\<forall>key a. d_loads d key = Some a \<longrightarrow> a < length (d_store d))"

definition counters_ok :: "Dispatcher \<Rightarrow> bool" where
  "counters_ok d \<longleftrightarrow> (\<forall>a < length (d_store d).
     el_inflight (d_store d ! a) = wrap64 (outstanding (inflight_weight a) d) \<and>
     el_prefill (d_store d ! a) = wrap64 (outstanding (prefill_weight a) d))"

definition ledger_ok :: "Dispatcher \<Rightarrow> bool" where
  "ledger_ok d \<longleftrightarrow> alist_wf (d_prefillLedger d) \<and>
     (\<forall>h a t i. (h, PrefillRelease a t i) \<in> set (d_handles d) \<longrightarrow> i \<le> d_prefillSeq d) \<and>
     (\<forall>h i. (\<exists>a t. alist_get (d_handles d) h = Some (PrefillRelease a t i)) \<longleftrightarrow>
        (\<exists>e. alist_get (d_prefillLedger d) i = Some e \<and> pe_release e = h))"

definition load_inv :: "Dispatcher \<Rightarrow> bool" where
  "load_inv d \<longleftrightarrow> handles_ok d \<and> counters_ok d \<and> ledger_ok d"

lemma outstanding_newHandle [simp]:
  "outstanding f (fst (newHandle r d)) = outstanding f d + f r"
  by (simp add: outstanding_def newHandle_def)

lemma outstanding_cong: "d_handles d' = d_handles d \<Longrightarrow> outstanding f d' = outstanding f d"
  by (simp add: outstanding_def)

lemma sum_alist_del:
  assumes "alist_wf m" "alist_get m k = Some v"
  shows "(\<Sum>(h, r) \<leftarrow> alist_del k m. f r) = (\<Sum>(h, r) \<leftarrow> m. f r) - (f v :: int)"
  using assms
proof (induction m)
  case Nil
  then show ?case by simp
next
  case (Cons p m)
  obtain h r where p: "p = (h, r)" by (cases p)
  show ?case
  proof (cases "h = k")
    case True
    then have "k \<notin> fst ` set m" using Cons.prems(1) by (simp add: p)
    then have "alist_del k m = m" by (force simp: AList.delete_eq filter_id_conv)
    then show ?thesis using True Cons.prems(2) by (simp add: p)
  next
    case False
    then show ?thesis using Cons by (simp add: p)
  qed
qed

lemma weight_other [simp]:
  "release_addr r \<noteq> a \<Longrightarrow> inflight_weight a r = 0"
  "release_addr r \<noteq> a \<Longrightarrow> prefill_weight a r = 0"
  by (auto simp: inflight_weight_def prefill_weight_def split: release.splits)

lemma outstanding_unused:
  assumes "handles_ok d" "length (d_store d) \<le> a"
  shows "outstanding (inflight_weight a) d = 0" "outstanding (prefill_weight a) d = 0"
proof -
  have "\<forall>(h, r) \<in> set (d_handles d). release_addr r \<noteq> a"
    using assms by (fastforce simp: handles_ok_def)
  then have "map (\<lambda>(h, r). inflight_weight a r) (d_handles d) = map (\<lambda>_. 0) (d_handles d)"
    "map (\<lambda>(h, r). prefill_weight a r) (d_handles d) = map (\<lambda>_. 0) (d_handles d)" by auto
  then show "outstanding (inflight_weight a) d = 0" "outstanding (prefill_weight a) d = 0"
    unfolding outstanding_def by (simp_all only: sum_list_0)
qed

lemma load_inv_loadFor:
  assumes "load_inv d"
  shows "load_inv (fst (loadFor d backend ep)) \<and>
    snd (loadFor d backend ep) < length (d_store (fst (loadFor d backend ep)))"
proof (cases "d_loads d (healthKey backend ep)")
  case (Some a)
  with assms show ?thesis by (auto simp: loadFor_def load_inv_def handles_ok_def)
next
  case None
  let ?d = "fst (loadFor d backend ep)"
  have d': "?d = d\<lparr>d_store := d_store d @ [emptyLoad],
      d_loads := (d_loads d)(healthKey backend ep \<mapsto> length (d_store d))\<rparr>"
    using None by (simp add: loadFor_def Let_def)
  have out: "outstanding f ?d = outstanding f d" for f by (rule outstanding_cong) (simp add: d')
  have "counters_ok ?d"
    unfolding counters_ok_def out
    using assms outstanding_unused [of d "length (d_store d)"]
    by (auto simp: d' load_inv_def counters_ok_def nth_append emptyLoad_def less_Suc_eq wrap64_def)
  moreover have "handles_ok ?d" using assms by (fastforce simp: d' load_inv_def handles_ok_def)
  moreover have "ledger_ok ?d" using assms by (simp add: d' load_inv_def ledger_ok_def)
  ultimately show ?thesis using None by (simp add: load_inv_def loadFor_def Let_def)
qed

lemma updLoad_simps [simp]:
  "d_handles (updLoad a f d) = d_handles d" "d_loads (updLoad a f d) = d_loads d"
  "length (d_store (updLoad a f d)) = length (d_store d)"
  "d_prefillLedger (updLoad a f d) = d_prefillLedger d" "d_prefillSeq (updLoad a f d) = d_prefillSeq d"
  "d_nextHandle (updLoad a f d) = d_nextHandle d"
  "outstanding g (updLoad a f d) = outstanding g d"
  by (simp_all add: updLoad_def outstanding_def)

lemma counters_change:
  assumes "counters_ok d" "a < length (d_store d)" "d_store d' = d_store (updLoad a g d)"
    and "\<And>b. outstanding (inflight_weight b) d' =
           outstanding (inflight_weight b) d + (if b = a then i else 0)"
    and "\<And>b. outstanding (prefill_weight b) d' =
           outstanding (prefill_weight b) d + (if b = a then p else 0)"
    and "el_inflight (g (d_store d ! a)) = wrap64 (el_inflight (d_store d ! a) + i)"
    and "el_prefill (g (d_store d ! a)) = wrap64 (el_prefill (d_store d ! a) + p)"
  shows "counters_ok d'"
  unfolding counters_ok_def assms(3)
proof (intro allI impI)
  fix b assume "b < length (d_store (updLoad a g d))"
  then have b: "b < length (d_store d)" by simp
  show "el_inflight (d_store (updLoad a g d) ! b) = wrap64 (outstanding (inflight_weight b) d') \<and>
        el_prefill (d_store (updLoad a g d) ! b) = wrap64 (outstanding (prefill_weight b) d')"
    using assms(1,2,4-7) b by (cases "b = a") (simp_all add: counters_ok_def updLoad_def)
qed

lemma handles_ok_cong:
  "d_handles d' = d_handles d \<Longrightarrow> d_nextHandle d' = d_nextHandle d \<Longrightarrow> d_loads d' = d_loads d \<Longrightarrow>
   length (d_store d') = length (d_store d) \<Longrightarrow> handles_ok d' = handles_ok d"
  by (simp only: handles_ok_def)

lemma ledger_ok_cong:
  "d_handles d' = d_handles d \<Longrightarrow> d_prefillLedger d' = d_prefillLedger d \<Longrightarrow>
   d_prefillSeq d' = d_prefillSeq d \<Longrightarrow> ledger_ok d' = ledger_ok d"
  by (simp only: ledger_ok_def)

lemma el_sample_update [simp]:
  "el_inflight (l\<lparr>el_sample := x\<rparr>) = el_inflight l" "el_prefill (l\<lparr>el_sample := x\<rparr>) = el_prefill l"
  by (cases l, simp)+

lemma load_inv_RecordSample:
  assumes "load_inv d"
  shows "load_inv (RecordSample d backend ep s)"
proof -
  obtain d1 a where l: "loadFor d backend ep = (d1, a)" by (cases "loadFor d backend ep")
  then have inv: "load_inv d1" "a < length (d_store d1)" using load_inv_loadFor [OF assms, of backend ep] by simp_all
  let ?d = "RecordSample d backend ep s"
  have d': "?d = updLoad a (\<lambda>l. l\<lparr>el_sample := Some (s\<lparr>smp_InFlightAt := el_inflight l\<rparr>)\<rparr>) d1"
    by (simp add: RecordSample_def l)
  have "counters_ok ?d"
    by (rule counters_change [where i = 0 and p = 0, OF _ _ arg_cong [OF d', of d_store]])
       (use inv in \<open>simp_all add: d' load_inv_def counters_ok_def\<close>)
  moreover have "handles_ok ?d" using inv handles_ok_cong [of ?d d1] by (simp add: load_inv_def d')
  moreover have "ledger_ok ?d" using inv ledger_ok_cong [of ?d d1] by (simp add: load_inv_def d')
  ultimately show ?thesis by (simp add: load_inv_def)
qed

lemma handles_newHandle:
  assumes "handles_ok d" "release_addr r < length (d_store d)"
  shows "handles_ok (fst (newHandle r d))"
  using assms by (fastforce simp: handles_ok_def newHandle_def)

lemma newHandle_get:
  assumes "handles_ok d"
  shows "alist_get (d_handles (fst (newHandle r d))) h =
    (if h = d_nextHandle d then Some r else alist_get (d_handles d) h)"
proof -
  have "alist_get (d_handles d) (d_nextHandle d) = None"
    using assms by (force simp: handles_ok_def map_of_eq_None_iff)
  then show ?thesis by (auto simp: newHandle_def map_add_def split: option.splits)
qed

lemma newHandle_simps [simp]:
  "d_store (fst (newHandle r d)) = d_store d" "d_loads (fst (newHandle r d)) = d_loads d"
  "d_prefillLedger (fst (newHandle r d)) = d_prefillLedger d" "d_prefillSeq (fst (newHandle r d)) = d_prefillSeq d"
  "snd (newHandle r d) = d_nextHandle d"
  by (simp_all add: newHandle_def)

lemma newHandle_set: "set (d_handles (fst (newHandle r d))) = insert (d_nextHandle d, r) (set (d_handles d))"
  by (simp add: newHandle_def)

lemma load_inv_track:
  assumes "load_inv d"
  shows "load_inv (fst (track d backend ep))"
proof (cases "ep = ''''")
  case True
  with assms show ?thesis by (simp add: track_def)
next
  case False
  obtain d1 a where l: "loadFor d backend ep = (d1, a)" by (cases "loadFor d backend ep")
  then have inv: "load_inv d1" "a < length (d_store d1)" using load_inv_loadFor [OF assms, of backend ep] by simp_all
  define d2 where "d2 = updLoad a (\<lambda>l. l\<lparr>el_inflight := wrap64 (el_inflight l + 1)\<rparr>) d1"
  define d' where "d' = fst (newHandle (InflightRelease a) d2)"
  have t: "fst (track d backend ep) = d'"
    using False by (simp add: track_def l d'_def d2_def Let_def split: prod.split)
  have h2: "handles_ok d2" using inv handles_ok_cong [of d2 d1] by (simp add: load_inv_def d2_def)
  have st: "d_store d' = d_store (updLoad a (\<lambda>l. l\<lparr>el_inflight := wrap64 (el_inflight l + 1)\<rparr>) d1)"
    by (simp add: d'_def d2_def)
  have "counters_ok d'"
    by (rule counters_change [where i = 1 and p = 0, OF _ _ st])
       (use inv in \<open>simp_all add: d'_def d2_def load_inv_def counters_ok_def inflight_weight_def prefill_weight_def\<close>)
  moreover have "handles_ok d'" using h2 inv by (simp add: d'_def d2_def handles_newHandle)
  moreover have "ledger_ok d'"
  proof -
    have led: "ledger_ok d2" using inv ledger_ok_cong [of d2 d1] by (simp add: load_inv_def d2_def)
    have none: "alist_get (d_handles d2) (d_nextHandle d2) = None"
      using h2 by (force simp: handles_ok_def map_of_eq_None_iff)
    have get: "alist_get (d_handles d') h = (if h = d_nextHandle d2 then Some (InflightRelease a)
        else alist_get (d_handles d2) h)" for h
      unfolding d'_def by (rule newHandle_get [OF h2])
    have "(\<exists>a t. alist_get (d_handles d') h = Some (PrefillRelease a t i)) \<longleftrightarrow>
        (\<exists>a t. alist_get (d_handles d2) h = Some (PrefillRelease a t i))" for h i
      unfolding get using none by simp
    moreover have "\<forall>k b t j. (k, PrefillRelease b t j) \<in> set (d_handles d') \<longrightarrow> j \<le> d_prefillSeq d2"
      using led by (auto simp: ledger_ok_def d'_def newHandle_set)
    moreover have "d_prefillLedger d' = d_prefillLedger d2" "d_prefillSeq d' = d_prefillSeq d2"
      by (simp_all add: d'_def)
    ultimately show ?thesis using led by (simp only: ledger_ok_def) blast
  qed
  ultimately show ?thesis by (simp add: t load_inv_def)
qed

lemma load_inv_trackPrefill:
  assumes "load_inv d"
  shows "load_inv (fst (trackPrefill d now backend ep tokens))"
proof (cases "ep = '''' \<or> tokens \<le> 0")
  case True
  with assms show ?thesis by (auto simp: trackPrefill_def)
next
  case False
  obtain d1 a where l: "loadFor d backend ep = (d1, a)" by (cases "loadFor d backend ep")
  then have inv: "load_inv d1" "a < length (d_store d1)" using load_inv_loadFor [OF assms, of backend ep] by simp_all
  define g where "g = (\<lambda>l :: endpointLoad. l\<lparr>el_prefill := wrap64 (el_prefill l + tokens)\<rparr>)"
  define i where "i = d_prefillSeq d1 + 1"
  define d2 where "d2 = (updLoad a g d1)\<lparr>d_prefillSeq := i\<rparr>"
  define d3 where "d3 = fst (newHandle (PrefillRelease a tokens i) d2)"
  define h where "h = d_nextHandle d1"
  define d' where "d' = d3\<lparr>d_prefillLedger := alist_set i \<lparr>pe_dispatchedAt = now, pe_release = h\<rparr> (d_prefillLedger d3)\<rparr>"
  have t: "fst (trackPrefill d now backend ep tokens) = d'"
    using False
    by (simp add: trackPrefill_def l d'_def d3_def d2_def g_def i_def h_def Let_def newHandle_def)
  have h2: "handles_ok d2" using inv handles_ok_cong [of d2 d1] by (simp add: load_inv_def d2_def)
  have st: "d_store d' = d_store (updLoad a g d1)" by (simp add: d'_def d3_def d2_def)
  have out: "outstanding f d' = outstanding f d1 + f (PrefillRelease a tokens i)" for f
  proof -
    have "outstanding f d' = outstanding f d3" by (rule outstanding_cong) (simp add: d'_def)
    also have "\<dots> = outstanding f d2 + f (PrefillRelease a tokens i)" by (simp add: d3_def)
    also have "outstanding f d2 = outstanding f d1" by (rule outstanding_cong) (simp add: d2_def)
    finally show ?thesis .
  qed
  have "counters_ok d'"
    by (rule counters_change [where i = 0 and p = tokens, OF _ _ st])
       (use inv in \<open>simp_all add: out g_def load_inv_def counters_ok_def inflight_weight_def prefill_weight_def\<close>)
  moreover have "handles_ok d3" using h2 inv by (simp add: d3_def d2_def handles_newHandle)
  then have "handles_ok d'" using handles_ok_cong [of d' d3] by (simp add: d'_def)
  moreover have "ledger_ok d'"
  proof -
    have led: "ledger_ok d1" and hok: "handles_ok d1" using inv by (simp_all add: load_inv_def)
    have none: "alist_get (d_handles d1) h = None"
      using hok by (force simp: handles_ok_def map_of_eq_None_iff h_def)
    have le: "(k, PrefillRelease b t j) \<in> set (d_handles d1) \<Longrightarrow> j \<le> d_prefillSeq d1" for k b t j
      using led unfolding ledger_ok_def by blast
    have fresh: "alist_get (d_handles d1) k \<noteq> Some (PrefillRelease b t i)" for k b t
      using le [of k b t i] by (auto simp: i_def dest: map_of_SomeD)
    have get: "alist_get (d_handles d') k = (if k = h then Some (PrefillRelease a tokens i)
        else alist_get (d_handles d1) k)" for k
      using newHandle_get [OF h2, of "PrefillRelease a tokens i" k] by (simp add: d'_def d3_def h_def) (simp add: d2_def)
    have lg: "alist_get (d_prefillLedger d') j = (if j = i then Some \<lparr>pe_dispatchedAt = now, pe_release = h\<rparr>
        else alist_get (d_prefillLedger d1) j)" for j
      by (simp add: d'_def d3_def d2_def update_conv')
    have iff: "(\<exists>b t. alist_get (d_handles d1) k = Some (PrefillRelease b t j)) \<longleftrightarrow>
        (\<exists>e. alist_get (d_prefillLedger d1) j = Some e \<and> pe_release e = k)" for k j
      using led by (simp only: ledger_ok_def)
    have "(\<exists>b t. alist_get (d_handles d') k = Some (PrefillRelease b t j)) \<longleftrightarrow>
        (\<exists>e. alist_get (d_prefillLedger d') j = Some e \<and> pe_release e = k)" for k j
    proof (cases "j = i")
      case True
      then show ?thesis using fresh by (auto simp: get lg)
    next
      case False
      then show ?thesis using iff [of k j] none by (auto simp: get lg)
    qed
    moreover have "\<forall>k b t j. (k, PrefillRelease b t j) \<in> set (d_handles d') \<longrightarrow> j \<le> d_prefillSeq d'"
      using led by (auto simp: ledger_ok_def d'_def d3_def newHandle_set d2_def i_def le_SucI)
    moreover have "alist_wf (d_prefillLedger d')"
      using led by (simp add: ledger_ok_def d'_def d3_def d2_def)
    ultimately show ?thesis unfolding ledger_ok_def by blast
  qed
  ultimately show ?thesis by (simp add: t load_inv_def)
qed

lemma handle_addr: "handles_ok d \<Longrightarrow> alist_get (d_handles d) h = Some r \<Longrightarrow> release_addr r < length (d_store d)"
  by (fastforce simp: handles_ok_def dest: map_of_SomeD)

lemma callRelease_handles:
  "d_handles (callRelease d (Some h)) = (if alist_get (d_handles d) h = None then d_handles d
     else alist_del h (d_handles d))"
  by (auto simp: callRelease_def split: option.splits release.splits)

lemma callRelease_other [simp]:
  "d_nextHandle (callRelease d ho) = d_nextHandle d" "d_loads (callRelease d ho) = d_loads d"
  "length (d_store (callRelease d ho)) = length (d_store d)" "d_prefillSeq (callRelease d ho) = d_prefillSeq d"
  "d_streamIdleTimeout (callRelease d ho) = d_streamIdleTimeout d"
  "d_responseHeaderTimeout (callRelease d ho) = d_responseHeaderTimeout d"
  by (auto simp: callRelease_def updLoad_def split: option.splits release.splits)

lemma callRelease_ledger:
  "d_prefillLedger (callRelease d (Some h)) = (case alist_get (d_handles d) h of
     Some (PrefillRelease a t i) \<Rightarrow> alist_del i (d_prefillLedger d) | _ \<Rightarrow> d_prefillLedger d)"
  by (auto simp: callRelease_def split: option.splits release.splits)

lemma outstanding_release:
  assumes "alist_wf (d_handles d)" "alist_get (d_handles d) h = Some r"
  shows "outstanding f (callRelease d (Some h)) = outstanding f d - f r"
  using sum_alist_del [OF assms] assms(2) by (simp add: outstanding_def callRelease_handles)

lemma ledger_callRelease:
  assumes "ledger_ok d" "alist_wf (d_handles d)" and r: "alist_get (d_handles d) h = Some r"
  shows "ledger_ok (callRelease d (Some h))"
proof -
  let ?d = "callRelease d (Some h)"
  have iff: "(\<exists>b t. alist_get (d_handles d) k = Some (PrefillRelease b t j)) \<longleftrightarrow>
      (\<exists>e. alist_get (d_prefillLedger d) j = Some e \<and> pe_release e = k)" for k j
    using assms(1) unfolding ledger_ok_def by blast
  have get: "alist_get (d_handles ?d) k = (if k = h then None else alist_get (d_handles d) k)" for k
    using r by (simp add: callRelease_handles)
  have "(\<exists>b t. alist_get (d_handles ?d) k = Some (PrefillRelease b t j)) \<longleftrightarrow>
      (\<exists>e. alist_get (d_prefillLedger ?d) j = Some e \<and> pe_release e = k)" for k j
  proof (cases r)
    case (InflightRelease a)
    then have "\<not> (\<exists>e. alist_get (d_prefillLedger d) j = Some e \<and> pe_release e = h)"
      using iff [of h j] r by auto
    then show ?thesis using iff [of k j] r InflightRelease unfolding get callRelease_ledger by auto
  next
    case (PrefillRelease a t i)
    then obtain e where e: "alist_get (d_prefillLedger d) i = Some e" "pe_release e = h"
      using iff [of h i] r by auto
    have "alist_get (d_prefillLedger ?d) j = (if j = i then None else alist_get (d_prefillLedger d) j)"
      using r PrefillRelease by (simp add: callRelease_ledger)
    then show ?thesis using iff [of k j] iff [of h j] e r PrefillRelease unfolding get by auto
  qed
  moreover have "\<forall>k b t j. (k, PrefillRelease b t j) \<in> set (d_handles ?d) \<longrightarrow> j \<le> d_prefillSeq ?d"
    using assms(1) r by (auto simp: ledger_ok_def callRelease_handles alist_del_in)
  moreover have "alist_wf (d_prefillLedger ?d)"
    using assms(1) by (auto simp: ledger_ok_def callRelease_ledger split: option.splits release.splits)
  ultimately show ?thesis unfolding ledger_ok_def by blast
qed

lemma load_inv_callRelease:
  assumes inv: "load_inv d"
  shows "load_inv (callRelease d ho)"
proof (cases "\<exists>h r. ho = Some h \<and> alist_get (d_handles d) h = Some r")
  case False
  then have "callRelease d ho = d" by (auto simp: callRelease_def split: option.splits)
  with inv show ?thesis by simp
next
  case True
  then obtain h r where h: "ho = Some h" and r: "alist_get (d_handles d) h = Some r" by blast
  let ?d = "callRelease d (Some h)"
  have hok: "handles_ok d" and cok: "counters_ok d" and wf: "alist_wf (d_handles d)"
    using inv by (auto simp: load_inv_def handles_ok_def)
  define a where "a = release_addr r"
  define g where "g = (\<lambda>l :: endpointLoad. l\<lparr>el_inflight := wrap64 (el_inflight l - inflight_weight a r),
      el_prefill := wrap64 (el_prefill l - prefill_weight a r)\<rparr>)"
  have a: "a < length (d_store d)" using handle_addr [OF hok r] by (simp add: a_def)
  have w: "el_inflight (d_store d ! a) = wrap64 (el_inflight (d_store d ! a))"
    "el_prefill (d_store d ! a) = wrap64 (el_prefill (d_store d ! a))"
    using cok a by (simp_all add: counters_ok_def)
  have st: "d_store ?d = d_store (updLoad a g d)"
    using r w by (cases r)
      (auto simp: callRelease_def updLoad_def g_def a_def inflight_weight_def prefill_weight_def)
  have "counters_ok ?d"
    by (rule counters_change [where i = "- inflight_weight a r" and p = "- prefill_weight a r", OF cok a st])
       (auto simp: outstanding_release [OF wf r] g_def a_def)
  moreover have "handles_ok ?d"
    using hok r by (fastforce simp: handles_ok_def callRelease_handles alist_del_in)
  moreover have "ledger_ok ?d" using inv wf r by (intro ledger_callRelease) (simp_all add: load_inv_def)
  ultimately show ?thesis by (simp add: h load_inv_def)
qed

lemma load_inv_releases: "load_inv d \<Longrightarrow> load_inv (foldl (\<lambda>d h. callRelease d (Some h)) d hs)"
  by (induction hs arbitrary: d) (simp_all add: load_inv_callRelease)

lemma load_inv_ExpirePrefill: "load_inv d \<Longrightarrow> load_inv (fst (ExpirePrefill d now))"
  by (simp add: ExpirePrefill_def Let_def load_inv_releases)

lemma load_inv_weaken:
  assumes "load_inv d" "d_handles d' = d_handles d" "d_nextHandle d' = d_nextHandle d"
    "d_store d' = d_store d" "d_prefillLedger d' = d_prefillLedger d" "d_prefillSeq d' = d_prefillSeq d"
    and loads: "\<And>key a. d_loads d' key = Some a \<Longrightarrow> d_loads d key = Some a"
  shows "load_inv d'"
proof -
  have "handles_ok d'" using assms unfolding load_inv_def handles_ok_def by (simp only:) blast
  moreover have "counters_ok d'"
    using assms outstanding_cong [OF assms(2)] unfolding load_inv_def counters_ok_def by simp
  moreover have "ledger_ok d'" using assms(1) ledger_ok_cong [OF assms(2,5,6)] by (simp add: load_inv_def)
  ultimately show ?thesis by (simp add: load_inv_def)
qed

lemma load_inv_healthFor: "load_inv d \<Longrightarrow> load_inv (fst (healthFor d key))"
  by (erule load_inv_weaken) (auto simp: healthFor_def split: option.splits)

lemma load_inv_ensure:
  "load_inv d \<Longrightarrow> load_inv (foldl (\<lambda>d ep. fst (healthFor d (healthKey name ep))) d xs)"
  by (induction xs arbitrary: d) (simp_all add: load_inv_healthFor)

lemma load_inv_drop:
  "load_inv d \<Longrightarrow> load_inv (foldl (\<lambda>d ep. if ep \<in> S then d
       else d\<lparr>d_health := (d_health d)(healthKey name ep := None),
              d_loads := (d_loads d)(healthKey name ep := None)\<rparr>) d xs)"
proof (induction xs arbitrary: d)
  case Nil
  then show ?case by simp
next
  case (Cons x xs)
  have "load_inv (d\<lparr>d_health := (d_health d)(healthKey name x := None),
              d_loads := (d_loads d)(healthKey name x := None)\<rparr>)"
    using Cons.prems by (rule load_inv_weaken) (auto split: if_splits)
  with Cons show ?case by simp
qed

lemma load_inv_SetEndpoints:
  assumes "load_inv d"
  shows "load_inv (SetEndpoints d name eps)"
  unfolding SetEndpoints_def Let_def
  by (rule load_inv_weaken [OF load_inv_drop [OF load_inv_ensure [OF assms]]]) simp_all

section \<open>Interleavings\<close>

text \<open>Everything that touches load records: requests that are tracked and released, samples that
  are stored, the janitor, and changes of the endpoint set, in any order.\<close>

inductive load_step :: "Dispatcher \<Rightarrow> Dispatcher \<Rightarrow> bool" where
  step_sample: "load_step d (RecordSample d backend ep s)"
| step_track: "load_step d (fst (track d backend ep))"
| step_trackPrefill: "load_step d (fst (trackPrefill d now backend ep tokens))"
| step_release: "load_step d (callRelease d ho)"
| step_expire: "load_step d (fst (ExpirePrefill d now))"
| step_endpoints: "load_step d (SetEndpoints d name eps)"

inductive_simps load_step_iff: "load_step d d'"

definition load_start :: "Dispatcher \<Rightarrow> bool" where
  "load_start d \<longleftrightarrow> d_store d = [] \<and> d_handles d = [] \<and> d_loads d = Map.empty \<and> d_prefillLedger d = []"

lemma load_inv_start: "load_start d \<Longrightarrow> load_inv d"
  by (simp add: load_start_def load_inv_def handles_ok_def counters_ok_def ledger_ok_def)

interpretation loads: step_invariant load_start load_step load_inv
proof
  fix d d' :: Dispatcher
  show "load_inv d" if "load_start d" using that by (rule load_inv_start)
  show "load_inv d'" if "load_inv d" "load_step d d'"
    using that(2,1)
    by (cases rule: load_step.cases)
       (simp_all add: load_inv_RecordSample load_inv_track load_inv_trackPrefill load_inv_callRelease
         load_inv_ExpirePrefill load_inv_SetEndpoints)
qed

lemma NewDispatcher_start:
  assumes "\<forall>opt \<in> set opts. \<forall>d. load_start d \<longrightarrow> load_start (opt d)"
  shows "load_start (NewDispatcher cfg opts)"
proof -
  have opts: "load_start d \<Longrightarrow> load_start (foldl (\<lambda>d opt. opt d) d opts)" for d
    using assms by (induction opts arbitrary: d) simp_all
  have "load_start d \<Longrightarrow> load_start (foldl addBackend d bs)" for d bs
    by (induction bs arbitrary: d) (simp_all add: addBackend_def Let_def load_start_def)
  with opts show ?thesis unfolding NewDispatcher_def Let_def by (simp add: load_start_def)
qed

section \<open>The janitor\<close>

lemma releases_handles:
  "alist_get (d_handles (foldl (\<lambda>d h. callRelease d (Some h)) d hs)) k =
     (if k \<in> set hs then None else alist_get (d_handles d) k)"
  by (induction hs arbitrary: d) (auto simp: callRelease_handles)

lemma ExpirePrefill_ledger:
  assumes inv: "load_inv d" and e: "alist_get (d_prefillLedger (fst (ExpirePrefill d now))) i = Some e"
  shows "timeSub now (pe_dispatchedAt e) \<le> prefillTTL d \<and> alist_get (d_prefillLedger d) i = Some e"
proof -
  define hs where "hs = map (\<lambda>(i, e). pe_release e)
    (filter (\<lambda>(i, e). timeSub now (pe_dispatchedAt e) > prefillTTL d) (d_prefillLedger d))"
  let ?d = "foldl (\<lambda>d h. callRelease d (Some h)) d hs"
  have d': "fst (ExpirePrefill d now) = ?d" by (simp add: ExpirePrefill_def hs_def Let_def)
  have sub: "alist_get (d_prefillLedger (foldl (\<lambda>d h. callRelease d (Some h)) d hs)) i = Some e \<Longrightarrow>
      alist_get (d_prefillLedger d) i = Some e" for d hs
    by (induction hs arbitrary: d)
       (force simp: callRelease_ledger split: option.splits release.splits if_splits)+
  have old: "alist_get (d_prefillLedger d) i = Some e" using e sub unfolding d' by blast
  have "load_inv ?d" using inv by (rule load_inv_releases)
  then obtain a t where "alist_get (d_handles ?d) (pe_release e) = Some (PrefillRelease a t i)"
    using e unfolding d' load_inv_def ledger_ok_def by blast
  then have "pe_release e \<notin> set hs" by (auto simp: releases_handles split: if_splits)
  moreover have "(i, e) \<in> set (d_prefillLedger d)" using old by (rule map_of_SomeD)
  ultimately have "\<not> timeSub now (pe_dispatchedAt e) > prefillTTL d" by (force simp: hs_def)
  with old show ?thesis by simp
qed

section \<open>Properties\<close>

text \<open>C25. Load accounting never drifts: in every state reachable from a new dispatcher, through any
  interleaving of requests, releases (repeated ones too), samples, janitor runs and endpoint
  changes, the in-flight count of every load record is the number of requests tracked on it and
  not yet released, and its prefill count is the sum of their tokens. Records that left the map
  while requests still point to them are included.\<close>
theorem load_accounting:
  assumes "load_step\<^sup>*\<^sup>* (NewDispatcher cfg []) d" and "a < length (d_store d)"
  shows "el_inflight (d_store d ! a) =
      wrap64 (int (length (filter (\<lambda>(h, r). r = InflightRelease a) (d_handles d)))) \<and>
    el_prefill (d_store d ! a) =
      wrap64 (\<Sum>(h, r) \<leftarrow> d_handles d. case r of PrefillRelease a' t i \<Rightarrow> if a' = a then t else 0 | _ \<Rightarrow> 0)"
proof -
  have "load_inv d" using loads.holds_reachable [OF NewDispatcher_start assms(1)] by simp
  moreover have "(\<Sum>(h, r) \<leftarrow> hs. inflight_weight a r) =
      int (length (filter (\<lambda>(h, r). r = InflightRelease a) hs))" for hs :: "(handle \<times> release) list"
    by (induction hs) (auto simp: inflight_weight_def)
  ultimately show ?thesis
    using assms(2) by (simp add: load_inv_def counters_ok_def outstanding_def prefill_weight_def [abs_def])
qed

definition ex_tracked :: Dispatcher where
  "ex_tracked = fst (track ex_dispatcher ''local'' ''pod1'')"

theorem load_accounting_witness:
  "el_inflight (d_store ex_tracked ! 0) = 1"
proof -
  have step: "load_step\<^sup>*\<^sup>* (NewDispatcher ex_config []) ex_tracked"
    unfolding ex_tracked_def ex_dispatcher_def by (rule r_into_rtranclp) (rule step_track)
  have hs: "d_handles ex_tracked = [(0, InflightRelease 0)]" "length (d_store ex_tracked) = 1"
    by (simp_all add: ex_tracked_def ex_dispatcher_def NewDispatcher_def addBackend_def ex_config_def
        ex_backend_def track_def loadFor_def newHandle_def updLoad_def healthKey_def Let_def)
  have "wrap64 1 = 1" by (simp add: wrap64_def)
  with load_accounting [OF step, of 0] hs show ?thesis by simp
qed

text \<open>The prefill janitor: after \<open>ExpirePrefill\<close> no prefill count older than the time to live
  is left in the ledger, and younger ones are kept as they were.\<close>
lemma prefill_expires:
  assumes "load_step\<^sup>*\<^sup>* (NewDispatcher cfg []) d"
    and "alist_get (d_prefillLedger (fst (ExpirePrefill d now))) i = Some e"
  shows "timeSub now (pe_dispatchedAt e) \<le> prefillTTL d \<and> alist_get (d_prefillLedger d) i = Some e"
  using ExpirePrefill_ledger [OF loads.holds_reachable [OF NewDispatcher_start assms(1)] assms(2)] by simp

end
