(* ===== verification/Router_Usage.thy ===== *)
theory Router_Usage
  imports Router_Config
begin

text \<open>
  Token accounting (\<open>internal/router/usage.go\<close>): reading the usage object of OpenAI and Anthropic
  responses, streamed or not, pricing it, and rewriting a streamed request so that the upstream
  reports usage. \<open>encoding/json\<close> is a parameter: each decoder is a function from bytes to the
  decoded Go value, \<open>None\<close> standing for a decoding error.
\<close>

section \<open>OpenAI usage\<close>

record usageObject =
  uo_PromptTokens :: "int option"
  uo_CompletionTokens :: "int option"
  uo_TotalTokens :: "int option"

text \<open>\<open>usageEnvelope\<close>: its only field \<open>Usage\<close> is a pointer.\<close>

type_synonym usageEnvelope = "usageObject option"

text \<open>Prompt and completion counts, or \<open>None\<close> for \<open>ok = false\<close>.\<close>

type_synonym counts = "(int \<times> int) option"

definition usageCounts :: "int option \<Rightarrow> int option \<Rightarrow> int option \<Rightarrow> counts" where
  "usageCounts promptPtr completionPtr totalPtr =
     (if promptPtr = None \<and> completionPtr = None \<and> totalPtr = None then None
      else
        (let prompt = (case promptPtr of Some p \<Rightarrow> p | None \<Rightarrow> 0);
             completion = (case completionPtr of Some c \<Rightarrow> c | None \<Rightarrow> 0);
             completion = (if promptPtr = None \<and> completionPtr = None \<and> totalPtr \<noteq> None
                           then the totalPtr else completion) in
         Some (if prompt < 0 then 0 else prompt, if completion < 0 then 0 else completion)))"

definition countsOf :: "usageObject \<Rightarrow> counts" where
  "countsOf u = usageCounts (uo_PromptTokens u) (uo_CompletionTokens u) (uo_TotalTokens u)"

definition UsageTokens :: "(gostring \<Rightarrow> usageEnvelope option) \<Rightarrow> gostring \<Rightarrow> counts" where
  "UsageTokens unmarshal body =
     (if body = [] then None
      else (case unmarshal body of
          None \<Rightarrow> None
        | Some None \<Rightarrow> None
        | Some (Some u) \<Rightarrow> countsOf u))"

text \<open>The payload of an SSE \<open>data:\<close> line.\<close>

definition ssePayload :: "gostring \<Rightarrow> gostring option" where
  "ssePayload line = map_option trimSpace (cut_prefix ''data:'' (trimSpace line))"

definition sseStep :: "(gostring \<Rightarrow> usageEnvelope option) \<Rightarrow> counts \<Rightarrow> gostring \<Rightarrow> counts" where
  "sseStep unmarshal acc line =
     (case ssePayload line of
        None \<Rightarrow> acc
      | Some payload \<Rightarrow>
          if payload = [] \<or> payload = ''[DONE]'' then acc
          else (case unmarshal payload of
              None \<Rightarrow> acc
            | Some None \<Rightarrow> acc
            | Some (Some u) \<Rightarrow> (case countsOf u of None \<Rightarrow> acc | Some c \<Rightarrow> Some c)))"

definition UsageTokensFromSSE :: "(gostring \<Rightarrow> usageEnvelope option) \<Rightarrow> gostring \<Rightarrow> counts" where
  "UsageTokensFromSSE unmarshal body = foldl (sseStep unmarshal) None (split_on (CHR 0x0A) body)"

definition CostUSD :: "int \<Rightarrow> int \<Rightarrow> TokenCost option \<Rightarrow> float64" where
  "CostUSD prompt completion cost =
     (case cost of
        None \<Rightarrow> 0
      | Some c \<Rightarrow> of_int prompt / 1000000 * PromptUSD c + of_int completion / 1000000 * CompletionUSD c)"

definition looksLikeSSE :: "gostring \<Rightarrow> bool" where
  "looksLikeSSE body = (\<exists>line \<in> set (split_on (CHR 0x0A) body). has_prefix ''data:'' (trimSpace line))"

section \<open>Anthropic usage\<close>

record anthropicUsage =
  au_InputTokens :: "int option"
  au_OutputTokens :: "int option"
  au_CacheReadTokens :: "int option"
  au_CacheCreationTokens :: "int option"

definition anthropicCounts :: "anthropicUsage option \<Rightarrow> counts" where
  "anthropicCounts u =
     (case u of
        None \<Rightarrow> None
      | Some u \<Rightarrow>
          if au_InputTokens u = None \<and> au_OutputTokens u = None then None
          else
            (let prompt = foldl (\<lambda>acc p. case p of Some n \<Rightarrow> if n > 0 then wrap64 (acc + n) else acc | None \<Rightarrow> acc)
                            0 [au_InputTokens u, au_CacheReadTokens u, au_CacheCreationTokens u];
                 completion = (case au_OutputTokens u of Some n \<Rightarrow> if n > 0 then n else 0 | None \<Rightarrow> 0) in
             Some (prompt, completion)))"

definition AnthropicUsageTokens :: "(gostring \<Rightarrow> anthropicUsage option option) \<Rightarrow> gostring \<Rightarrow> counts" where
  "AnthropicUsageTokens unmarshal body =
     (case unmarshal body of None \<Rightarrow> None | Some usage \<Rightarrow> anthropicCounts usage)"

text \<open>A stream event: its own \<open>usage\<close>, and its \<open>message\<close> (a pointer) with a \<open>usage\<close>.\<close>

record anthropicEvent =
  ae_Usage :: "anthropicUsage option"
  ae_Message :: "anthropicUsage option option"

definition maxCounts :: "counts \<Rightarrow> anthropicUsage option \<Rightarrow> counts" where
  "maxCounts acc u =
     (case anthropicCounts u of
        None \<Rightarrow> acc
      | Some (p, c) \<Rightarrow>
          (let (prompt, completion) = (case acc of None \<Rightarrow> (0, 0) | Some a \<Rightarrow> a) in
           Some (max prompt p, max completion c)))"

definition anthropicStep :: "(gostring \<Rightarrow> anthropicEvent option) \<Rightarrow> counts \<Rightarrow> gostring \<Rightarrow> counts" where
  "anthropicStep unmarshal acc line =
     (case ssePayload line of
        None \<Rightarrow> acc
      | Some payload \<Rightarrow>
          (case unmarshal payload of
             None \<Rightarrow> acc
           | Some ev \<Rightarrow>
               foldl maxCounts acc
                 (ae_Usage ev # (case ae_Message ev of None \<Rightarrow> [] | Some u \<Rightarrow> [u]))))"

definition AnthropicUsageTokensFromSSE :: "(gostring \<Rightarrow> anthropicEvent option) \<Rightarrow> gostring \<Rightarrow> counts" where
  "AnthropicUsageTokensFromSSE unmarshal body =
     foldl (anthropicStep unmarshal) None (split_on (CHR 0x0A) body)"

section \<open>Asking a stream for usage\<close>

text \<open>Decoding into a \<open>map[string]json.RawMessage\<close>: an error, the JSON \<open>null\<close> (a nil map), or an
  object with its raw members.\<close>

datatype rawMap = MapError | MapNull | MapObject "(gostring \<times> gostring) list"

definition members :: "rawMap \<Rightarrow> (gostring \<times> gostring) list" where
  "members m = (case m of MapObject o' \<Rightarrow> o' | _ \<Rightarrow> [])"

definition InjectStreamUsage ::
    "(gostring \<Rightarrow> rawMap) \<Rightarrow> (gostring \<Rightarrow> bool option) \<Rightarrow> ((gostring \<times> gostring) list \<Rightarrow> gostring option)
     \<Rightarrow> gostring \<Rightarrow> gostring \<times> bool" where
  "InjectStreamUsage unmarshalMap unmarshalBool marshalMap body =
     (if body = [] then (body, False)
      else if unmarshalMap body = MapError then (body, False)
      else
        (let req = members (unmarshalMap body);
             streamRaw = (case alist_get req ''stream'' of Some raw \<Rightarrow> raw | None \<Rightarrow> '''') in
         if unmarshalBool streamRaw \<noteq> Some True then (body, False)
         else
           (let opts = (case alist_get req ''stream_options'' of
                          Some raw \<Rightarrow> members (unmarshalMap raw) | None \<Rightarrow> []);
                alreadyAsking = (case alist_get opts ''include_usage'' of
                                   Some inc \<Rightarrow> unmarshalBool inc = Some True | None \<Rightarrow> False) in
            if alreadyAsking then (body, False)
            else
              (case marshalMap (alist_set ''include_usage'' ''true'' opts) of
                 None \<Rightarrow> (body, False)
               | Some mergedOpts \<Rightarrow>
                   (case marshalMap (alist_set ''stream_options'' mergedOpts req) of
                      None \<Rightarrow> (body, False)
                    | Some out \<Rightarrow> (out, True))))))"

section \<open>The last chunk wins\<close>

definition chunkCounts :: "(gostring \<Rightarrow> usageEnvelope option) \<Rightarrow> gostring \<Rightarrow> counts" where
  "chunkCounts unmarshal line = sseStep unmarshal None line"

lemma sseStep_chunk:
  "sseStep unmarshal acc line =
     (case chunkCounts unmarshal line of None \<Rightarrow> acc | Some c \<Rightarrow> Some c)"
  by (simp add: chunkCounts_def sseStep_def split: option.splits)

lemma foldl_last_Some:
  "foldl (\<lambda>acc x. case f x of None \<Rightarrow> acc | Some c \<Rightarrow> Some c) acc xs =
     (let cs = List.map_filter f xs in if cs = [] then acc else Some (last cs))"
  by (induction xs arbitrary: acc) (auto simp: map_filter_simps Let_def split: option.splits)

definition counts_ok :: "counts \<Rightarrow> bool" where
  "counts_ok acc = pred_option (\<lambda>(p, c). 0 \<le> p \<and> 0 \<le> c) acc"

lemma counts_ok_simps [simp]: "counts_ok None" "counts_ok (Some (p, c)) \<longleftrightarrow> 0 \<le> p \<and> 0 \<le> c"
  by (simp_all add: counts_ok_def)

lemma foldl_invariant: "(\<And>acc x. P acc \<Longrightarrow> P (f acc x)) \<Longrightarrow> P acc \<Longrightarrow> P (foldl f acc xs)"
  by (induction xs arbitrary: acc) simp_all

lemma maxCounts_ok:
  assumes "counts_ok acc"
  shows "counts_ok (maxCounts acc u)"
proof (cases "anthropicCounts u")
  case None
  with assms show ?thesis by (simp add: maxCounts_def)
next
  case (Some pc)
  with assms show ?thesis by (cases acc) (auto simp: maxCounts_def split: prod.splits)
qed

lemma usageCounts_ok: "counts_ok (usageCounts a b t)"
  by (simp add: usageCounts_def Let_def)

lemma UsageTokensFromSSE_last:
  "UsageTokensFromSSE unmarshal body =
     (let cs = List.map_filter (chunkCounts unmarshal) (split_on (CHR 0x0A) body) in
      if cs = [] then None else Some (last cs))"
  unfolding UsageTokensFromSSE_def sseStep_chunk [abs_def] by (rule foldl_last_Some)

lemma sseStep_ok: "counts_ok acc \<Longrightarrow> counts_ok (sseStep unmarshal acc line)"
  using usageCounts_ok by (auto simp: sseStep_def countsOf_def split: option.splits) (metis counts_ok_simps(2))+

lemma anthropicStep_ok: "counts_ok acc \<Longrightarrow> counts_ok (anthropicStep unmarshal acc line)"
  by (auto simp: anthropicStep_def simp del: foldl.simps split: option.split
      intro!: foldl_invariant [of counts_ok] maxCounts_ok)

section \<open>Properties\<close>

text \<open>Streamed usage is the upstream's last report: \<open>UsageTokensFromSSE\<close> returns the counts of
  the last \<open>data:\<close> line that carries a usage object, nothing when there is none; and the counts
  it, its Anthropic counterpart and \<open>UsageTokens\<close> return are never negative, so a charge never
  lowers a budget's usage.\<close>
lemma streamed_usage:
  "UsageTokensFromSSE unmarshal body =
     (let cs = List.map_filter (chunkCounts unmarshal) (split_on (CHR 0x0A) body) in
      if cs = [] then None else Some (last cs)) \<and>
   counts_ok (UsageTokensFromSSE unmarshal body) \<and>
   counts_ok (AnthropicUsageTokensFromSSE unmarshalEvent body) \<and>
   counts_ok (UsageTokens unmarshal body)"
proof (intro conjI)
  show "counts_ok (UsageTokensFromSSE unmarshal body)"
    unfolding UsageTokensFromSSE_def by (rule foldl_invariant) (simp_all add: sseStep_ok)
  show "counts_ok (AnthropicUsageTokensFromSSE unmarshalEvent body)"
    unfolding AnthropicUsageTokensFromSSE_def by (rule foldl_invariant) (simp_all add: anthropicStep_ok)
  show "counts_ok (UsageTokens unmarshal body)"
    by (simp add: UsageTokens_def countsOf_def usageCounts_ok split: option.split)
qed (rule UsageTokensFromSSE_last)

text \<open>Asking for usage is a conservative rewrite. Assume the JSON encoder writes an object the
  decoder reads back, member by member, and decodes \<open>true\<close> as true. Then a rewritten request
  keeps every member but \<open>stream_options\<close>, its stream options keep every member but
  \<open>include_usage\<close>, which is now \<open>true\<close>, and rewriting again changes nothing.\<close>
lemma InjectStreamUsage_conservative:
  assumes rt: "\<And>m raw. marshalMap m = Some raw \<Longrightarrow>
      raw \<noteq> [] \<and> (\<exists>m'. unmarshalMap raw = MapObject m' \<and> alist_get m' = alist_get m)"
    and true: "unmarshalBool ''true'' = Some True"
    and inj: "InjectStreamUsage unmarshalMap unmarshalBool marshalMap body = (out, True)"
  shows "\<exists>req opts raw opts'. unmarshalMap out = MapObject req \<and>
    (\<forall>k. k \<noteq> ''stream_options'' \<longrightarrow> alist_get req k = alist_get (members (unmarshalMap body)) k) \<and>
    opts = (case alist_get (members (unmarshalMap body)) ''stream_options'' of
              Some r \<Rightarrow> members (unmarshalMap r) | None \<Rightarrow> []) \<and>
    alist_get req ''stream_options'' = Some raw \<and> unmarshalMap raw = MapObject opts' \<and>
    alist_get opts' = (alist_get opts)(''include_usage'' \<mapsto> ''true'') \<and>
    InjectStreamUsage unmarshalMap unmarshalBool marshalMap out = (out, False)"
proof -
  define req0 where "req0 = members (unmarshalMap body)"
  define opts where "opts = (case alist_get req0 ''stream_options'' of
      Some r \<Rightarrow> members (unmarshalMap r) | None \<Rightarrow> [])"
  from inj obtain raw where raw: "marshalMap (alist_set ''include_usage'' ''true'' opts) = Some raw"
    and out: "marshalMap (alist_set ''stream_options'' raw req0) = Some out"
    and st: "unmarshalBool (case alist_get req0 ''stream'' of Some r \<Rightarrow> r | None \<Rightarrow> '''') = Some True"
    by (auto simp: InjectStreamUsage_def Let_def req0_def opts_def split: if_splits option.splits)
  obtain opts' where o': "unmarshalMap raw = MapObject opts'"
      "alist_get opts' = alist_get (alist_set ''include_usage'' ''true'' opts)" using rt [OF raw] by blast
  obtain req where r': "out \<noteq> []" "unmarshalMap out = MapObject req"
      "alist_get req = alist_get (alist_set ''stream_options'' raw req0)" using rt [OF out] by blast
  have "InjectStreamUsage unmarshalMap unmarshalBool marshalMap out = (out, False)"
    using r' o' st true by (simp add: InjectStreamUsage_def members_def update_conv')
  with r' o' show ?thesis unfolding opts_def req0_def by (auto simp: update_conv')
qed

definition ex_decode :: "gostring \<Rightarrow> rawMap" where
  "ex_decode raw =
     (if raw = ''B'' then MapObject [(''stream'', ''true'')]
      else if raw = ''O'' then MapObject [(''include_usage'', ''true'')]
      else if raw = ''R'' then MapObject [(''stream'', ''true''), (''stream_options'', ''O'')]
      else MapError)"

definition ex_encode :: "(gostring \<times> gostring) list \<Rightarrow> gostring option" where
  "ex_encode m =
     (if m = [(''include_usage'', ''true'')] then Some ''O''
      else if m = [(''stream'', ''true''), (''stream_options'', ''O'')] then Some ''R''
      else None)"

end
