(* ===== verification/Router_Dispatcher.thy ===== *)
theory Router_Dispatcher
  imports Endpoint_Load Router_Usage
begin

text \<open>
  Placing and sending one request (\<open>internal/router/placement.go\<close>, and \<open>Dispatch\<close> to \<open>PipeBody\<close> of
  \<open>internal/router/backend.go\<close>): the placement decision, the outbound request with its headers,
  credentials and model name, the retry of a stale connection, the health verdict, and the
  response body that gives the load counts back. \<open>net/http\<close>'s client is a parameter: a function
  from the request to the outcome of \<open>Client.Do\<close>. \<open>os.Getenv\<close> and \<open>encoding/json\<close> are parameters
  too.
\<close>

section \<open>HTTP headers\<close>

text \<open>\<open>http.Header\<close>: a map from canonical names to values; \<open>textproto.CanonicalMIMEHeaderKey\<close>.\<close>

type_synonym header = "(gostring \<times> gostring list) list"

definition ascii_upper :: "char \<Rightarrow> char" where
  "ascii_upper c = (let n = (of_char c :: nat) in
     if 97 \<le> n \<and> n \<le> 122 then char_of (n - 32) else c)"

definition isTokenByte :: "char \<Rightarrow> bool" where
  "isTokenByte c = (let n = (of_char c :: nat) in
     48 \<le> n \<and> n \<le> 57 \<or> 65 \<le> n \<and> n \<le> 90 \<or> 97 \<le> n \<and> n \<le> 122 \<or> c \<in> set ''!#$%&*+-.^_|~'' \<or> n = 39 \<or> n = 96)"

fun canonLoop :: "bool \<Rightarrow> gostring \<Rightarrow> gostring" where
  "canonLoop upper [] = []"
| "canonLoop upper (c # cs) =
     (let c' = (if upper then ascii_upper c else ascii_lower c) in c' # canonLoop (c' = CHR ''-'') cs)"

definition canonicalKey :: "gostring \<Rightarrow> gostring" where
  "canonicalKey k = (if list_all isTokenByte k then canonLoop True k else k)"

definition headerGet :: "header \<Rightarrow> gostring \<Rightarrow> gostring" where
  "headerGet h k = (case alist_get h (canonicalKey k) of Some (v # _) \<Rightarrow> v | _ \<Rightarrow> '''')"

definition headerAdd :: "gostring \<Rightarrow> gostring \<Rightarrow> header \<Rightarrow> header" where
  "headerAdd k v h =
     alist_set (canonicalKey k) ((case alist_get h (canonicalKey k) of Some vs \<Rightarrow> vs | None \<Rightarrow> []) @ [v]) h"

definition headerSet :: "gostring \<Rightarrow> gostring \<Rightarrow> header \<Rightarrow> header" where
  "headerSet k v h = alist_set (canonicalKey k) [v] h"

section \<open>Placement\<close>

fun sessionKey :: "header \<Rightarrow> gostring list \<Rightarrow> gostring" where
  "sessionKey h [] = ''''"
| "sessionKey h (n # ns) =
     (let v = trimSpace (headerGet h n) in if v \<noteq> '''' then v else sessionKey h ns)"

definition ringFor :: "Dispatcher \<Rightarrow> gostring \<Rightarrow> gostring list \<Rightarrow> Dispatcher \<times> Ring" where
  "ringFor d backend eps =
     (let set = join_with '','' eps;
          fresh = (let rc = \<lparr>rc_set = set, rc_ring = NewRing eps\<rparr> in
                   (d\<lparr>d_rings := (d_rings d)(backend \<mapsto> rc)\<rparr>, rc_ring rc)) in
      case d_rings d backend of
        Some rc \<Rightarrow> if rc_set rc = set then (d, rc_ring rc) else fresh
      | None \<Rightarrow> fresh)"

definition sessionsFor :: "Dispatcher \<Rightarrow> gostring \<Rightarrow> Balancing \<Rightarrow> Sessions" where
  "sessionsFor d backend bal =
     (case alist_get (d_sessions d) backend of
        Some s \<Rightarrow> s
      | None \<Rightarrow> NewSessions (bal_SessionIdleTimeout bal) MaxSessions)"

definition SweepSessions :: "Dispatcher \<Rightarrow> instant \<Rightarrow> Dispatcher" where
  "SweepSessions d now = d\<lparr>d_sessions := map (\<lambda>(k, tbl). (k, fst (Sweep tbl now))) (d_sessions d)\<rparr>"

definition isTokenCountPath :: "gostring \<Rightarrow> bool" where
  "isTokenCountPath path \<longleftrightarrow> path = ''/v1/messages/count_tokens''"

fun gather :: "Dispatcher \<Rightarrow> instant \<Rightarrow> gostring \<Rightarrow> gostring list \<Rightarrow> Dispatcher \<times> Candidate list" where
  "gather d now name [] = (d, [])"
| "gather d now name (ep # eps) =
     (if \<not> dispatchable d now (healthKey name ep) then gather d now name eps
      else
        (let (d1, a) = loadFor d name ep;
             l = d_store d1 ! a;
             (d2, cands) = gather d1 now name eps in
         (d2, \<lparr>cand_Endpoint = ep, cand_InFlight = el_inflight l, cand_Sample = el_sample l,
               cand_Prefill = el_prefill l\<rparr> # cands)))"

text \<open>\<open>None\<close> is the panic of \<open>roundRobin\<close>'s index expression.\<close>

definition place :: "Dispatcher \<Rightarrow> instant \<Rightarrow> Backend \<Rightarrow> header \<Rightarrow> int \<Rightarrow> (Dispatcher \<times> placement) option" where
  "place d now b headers bodyBytes =
     (let eps = liveEndpoints d b;
          rr = (\<lambda>d result. case roundRobin d now (be_Name b) eps of
                  (d', Some ep) \<Rightarrow> Some (d', ep, result, ReasonNone, 0)
                | (d', None) \<Rightarrow> None) in
      case be_Balancing b of
        None \<Rightarrow> rr d NoResult
      | Some bal \<Rightarrow>
          if eps = [] \<or> bal_Mode bal \<noteq> BalancingLoadAware then rr d NoResult
          else
            (let (d, cands) = gather d now (be_Name b) eps in
             if cands = [] then rr d Fallback
             else
               (let (d, c) = endpointCursor d (be_Name b);
                    tie = sint c;
                    key = sessionKey headers (bal_SessionHeaders bal) in
                if key \<noteq> '''' then
                  (let (d, ring) = ringFor d (be_Name b) eps;
                       tbl = sessionsFor d (be_Name b) bal;
                       (tbl', p) = Place tbl (SessionHash key) cands now tie (Home ring key) bodyBytes in
                   Some (d\<lparr>d_sessions := alist_set (be_Name b) tbl' (d_sessions d)\<rparr>, p))
                else
                  (let (ep, res) = PickLeastLoaded (Eligible cands now) now tie in
                   Some (d, ep, res, ReasonNone, EstimateTokens bodyBytes)))))"

section \<open>The outbound request\<close>

definition outboundModel :: "Backend \<Rightarrow> gostring" where
  "outboundModel b =
     (if be_Model b \<noteq> '''' then be_Model b
      else if be_ServedModel b \<noteq> '''' then be_ServedModel b
      else be_InferenceService b)"

definition applyModelOverride ::
    "(gostring \<Rightarrow> rawMap) \<Rightarrow> (gostring \<Rightarrow> gostring) \<Rightarrow> ((gostring \<times> gostring) list \<Rightarrow> gostring option)
     \<Rightarrow> gostring \<Rightarrow> gostring \<Rightarrow> gostring option" where
  "applyModelOverride unmarshalMap marshalString marshalMap body model =
     (if model = '''' then Some body
      else (case unmarshalMap body of
          MapError \<Rightarrow> Some body
        | MapNull \<Rightarrow> None
        | MapObject obj \<Rightarrow>
            (let enc = marshalString model in
             if alist_get obj ''model'' = Some enc then Some body
             else (case marshalMap (alist_set ''model'' enc obj) of
                 None \<Rightarrow> Some body
               | Some rewritten \<Rightarrow> Some rewritten))))"

definition joinURL :: "gostring \<Rightarrow> gostring \<Rightarrow> gostring" where
  "joinURL base p =
     (if base = '''' then p
      else if p = '''' then base
      else if has_suffix ''/'' base \<and> has_prefix ''/'' p then base @ tl p
      else if \<not> has_suffix ''/'' base \<and> \<not> has_prefix ''/'' p then base @ ''/'' @ p
      else base @ p)"

definition hopByHop :: "gostring set" where
  "hopByHop = {''connection'', ''keep-alive'', ''proxy-authenticate'', ''proxy-authorization'', ''te'',
     ''trailer'', ''transfer-encoding'', ''upgrade'', ''authorization'', ''content-length'', ''host''}"

definition copyForwardedHeaders :: "header \<Rightarrow> header \<Rightarrow> header" where
  "copyForwardedHeaders inh out =
     foldl (\<lambda>out (k, vals). if toLower k \<in> hopByHop then out else foldl (\<lambda>out v. headerAdd k v out) out vals)
       out inh"

definition applyCredentials :: "(gostring \<Rightarrow> gostring) \<Rightarrow> Backend \<Rightarrow> header \<Rightarrow> header option" where
  "applyCredentials getenv b h =
     (if be_CredentialsEnv b = '''' then Some h
      else
        (let val = getenv (be_CredentialsEnv b) in
         if val = '''' then None
         else if toLower (be_Provider b) = ''anthropic''
         then Some (headerSet ''anthropic-version'' ''2023-06-01'' (headerSet ''x-api-key'' val h))
         else Some (headerSet ''Authorization'' (''Bearer '' @ val) h)))"

record Request =
  rq_method :: gostring
  rq_url :: gostring
  rq_headers :: header
  rq_body :: gostring
  rq_contentLength :: nat
  rq_close :: bool

datatype do_error = DeadlineExceeded | Canceled | ConnError

datatype dispatch_error = BackendNil | BuildError | CredentialsUnset | UpstreamError do_error

text \<open>The outcome of \<open>Client.Do\<close>: an error, or a response with its status; and whether the request
  went out on a reused connection, as \<open>httptrace\<close> reports it.\<close>

datatype do_result = DoError do_error | DoResponse nat

text \<open>The code \<open>Dispatch\<close> calls outside the router: the two HTTP clients (the flag selects the
  fresh-connection client), request validation by \<open>http.NewRequest\<close>, the environment, and JSON.\<close>

record Env =
  env_do :: "bool \<Rightarrow> Request \<Rightarrow> do_result \<times> bool"
  env_validRequest :: "gostring \<Rightarrow> gostring \<Rightarrow> bool"
  env_getenv :: "gostring \<Rightarrow> gostring"
  env_unmarshalMap :: "gostring \<Rightarrow> rawMap"
  env_unmarshalBool :: "gostring \<Rightarrow> bool option"
  env_marshalString :: "gostring \<Rightarrow> gostring"
  env_marshalMap :: "(gostring \<times> gostring) list \<Rightarrow> gostring option"

definition newUpstreamRequest ::
    "Env \<Rightarrow> Backend \<Rightarrow> gostring \<Rightarrow> gostring \<Rightarrow> header \<Rightarrow> gostring \<Rightarrow> dispatch_error + Request" where
  "newUpstreamRequest env b method url headers body =
     (if \<not> env_validRequest env method url then Inl BuildError
      else (case applyCredentials (env_getenv env) b (copyForwardedHeaders headers []) of
          None \<Rightarrow> Inl CredentialsUnset
        | Some h \<Rightarrow>
            (let cloud = (toLower (be_Tier b) = ''cloud'') in
             Inr \<lparr>rq_method = method, rq_url = url,
                  rq_headers = (if cloud then headerSet ''Connection'' ''close'' h else h),
                  rq_body = body, rq_contentLength = length body, rq_close = cloud\<rparr>)))"

section \<open>Dispatch\<close>

text \<open>The response body \<open>Dispatch\<close> hands back, with what its wrappers hold: the idle guard, the
  release of the prefill count on the first byte, the release of the in-flight count on close.\<close>

record Body =
  bo_backend :: gostring
  bo_endpoint :: gostring
  bo_guarded :: bool
  bo_fired :: bool
  bo_closed :: bool
  bo_prefill :: "handle option"
  bo_inflight :: "handle option"

datatype dispatch_result = Panicked | Failed dispatch_error | Responded nat Body

text \<open>\<open>now\<close> is the time of placement, \<open>later\<close> the time the upstream's outcome is known.\<close>

definition Dispatch ::
    "Env \<Rightarrow> Dispatcher \<Rightarrow> instant \<Rightarrow> instant \<Rightarrow> Backend option \<Rightarrow> gostring \<Rightarrow> gostring \<Rightarrow> header \<Rightarrow> gostring
     \<Rightarrow> Dispatcher \<times> dispatch_result" where
  "Dispatch env d now later bo method path headers requestBody =
     (case bo of
        None \<Rightarrow> (d, Failed BackendNil)
      | Some b \<Rightarrow>
          (let tokenCount = isTokenCountPath path;
               placeHeaders = (if tokenCount then [] else headers);
               placeBytes = (if tokenCount then 0 else int (length requestBody)) in
           case place d now b placeHeaders placeBytes of
             None \<Rightarrow> (d, Panicked)
           | Some (d, endpoint, placed, reason, tokens) \<Rightarrow>
               (let (d, inflight) = track d (be_Name b) endpoint;
                    (d, prefill) = trackPrefill d now (be_Name b) endpoint tokens;
                    url = joinURL (dispatchTarget b endpoint) path;
                    giveBack = (\<lambda>d. callRelease (callRelease d inflight) prefill) in
                case applyModelOverride (env_unmarshalMap env) (env_marshalString env) (env_marshalMap env)
                       requestBody (outboundModel b) of
                  None \<Rightarrow> (d, Panicked)
                | Some outboundBody \<Rightarrow>
                    (case newUpstreamRequest env b method url headers outboundBody of
                       Inl err \<Rightarrow> (giveBack d, Failed err)
                     | Inr req \<Rightarrow>
                         (let (res0, reused) = env_do env False req;
                              res = (case res0 of
                                       DoError ConnError \<Rightarrow> if reused then fst (env_do env True req) else res0
                                     | _ \<Rightarrow> res0) in
                          case res of
                            DoError e \<Rightarrow>
                              (giveBack (if e = ConnError then markUnhealthy d later (be_Name b) endpoint else d),
                               Failed (UpstreamError e))
                          | DoResponse status \<Rightarrow>
                              (if status \<ge> 500 then markUnhealthy d later (be_Name b) endpoint
                               else markHealthy d (be_Name b) endpoint,
                               Responded status
                                 \<lparr>bo_backend = be_Name b, bo_endpoint = endpoint,
                                  bo_guarded = (d_streamIdleTimeout d > 0), bo_fired = False,
                                  bo_closed = False, bo_prefill = prefill, bo_inflight = inflight\<rparr>))))))"

section \<open>The response body\<close>

text \<open>A \<open>Read\<close> that returned \<open>n\<close> bytes, a \<open>Close\<close>, and the idle timer firing.\<close>

definition Body_Read :: "Dispatcher \<Rightarrow> Body \<Rightarrow> nat \<Rightarrow> Dispatcher" where
  "Body_Read d bo n = (if n > 0 then callRelease d (bo_prefill bo) else d)"

definition Body_Close :: "Dispatcher \<Rightarrow> Body \<Rightarrow> Dispatcher \<times> Body" where
  "Body_Close d bo =
     (callRelease (callRelease d (bo_prefill bo)) (bo_inflight bo), bo\<lparr>bo_closed := True\<rparr>)"

definition idleFire :: "Dispatcher \<Rightarrow> instant \<Rightarrow> Body \<Rightarrow> Dispatcher \<times> Body" where
  "idleFire d0 now bo =
     (if \<not> bo_guarded bo \<or> bo_closed bo then (d0, bo)
      else if bo_fired bo then (d0, bo)
      else
        (let key = healthKey (bo_backend bo) (bo_endpoint bo); (d, h) = healthFor d0 key in
         (quarantine d now key h, bo\<lparr>bo_fired := True\<rparr>)))"

text \<open>\<open>PipeBody\<close> on the sequence of reads the source answers (bytes, and an error or end of file):
  what is written, the count, and whether it ended without an error. \<open>write\<close> answers how many
  bytes of a chunk the destination took, and whether it failed.\<close>

datatype read_error = NoError | EOF | ReadFailed

fun PipeBody :: "(gostring \<Rightarrow> nat \<times> bool) \<Rightarrow> (gostring \<times> read_error) list \<Rightarrow> gostring \<times> int \<times> bool \<Rightarrow> gostring \<times> int \<times> bool" where
  "PipeBody write [] (out, tot, ok) = (out, tot, ok)"
| "PipeBody write ((buf, err) # reads) (out, tot, ok) =
     (let (written, werr) = (if buf \<noteq> [] then write buf else (0, False));
          out = out @ take written buf;
          tot = wrap64 (tot + int written) in
      if buf \<noteq> [] \<and> werr then (out, tot, False)
      else (case err of
          EOF \<Rightarrow> (out, tot, True)
        | ReadFailed \<Rightarrow> (out, tot, False)
        | NoError \<Rightarrow> PipeBody write reads (out, tot, ok)))"

text \<open>\<open>sentOnceBody.Read\<close> into a buffer of \<open>n\<close> bytes: the new buffer, the bytes read, end of file.\<close>

definition sentOnceRead :: "gostring \<Rightarrow> nat \<Rightarrow> gostring \<times> gostring \<times> bool" where
  "sentOnceRead buf n = (if buf = [] then ([], [], True) else (drop n buf, take n buf, False))"

section \<open>Header lemmas\<close>

lemma lower_upper: "ascii_lower (ascii_upper c) = ascii_lower c"
proof -
  have "of_char (ascii_upper c) = (if 97 \<le> (of_char c :: nat) \<and> of_char c \<le> (122 :: nat) then of_char c - 32 else of_char c :: nat)"
    by (auto simp: ascii_upper_def Let_def)
  then show ?thesis by (auto simp: ascii_lower_def ascii_upper_def Let_def)
qed

lemma lower_lower: "ascii_lower (ascii_lower c) = ascii_lower c"
proof -
  have "of_char (ascii_lower c) = (if 65 \<le> (of_char c :: nat) \<and> of_char c \<le> (90 :: nat) then of_char c + 32 else of_char c :: nat)"
    by (auto simp: ascii_lower_def Let_def)
  then show ?thesis by (auto simp: ascii_lower_def Let_def)
qed

lemma toLower_canonLoop: "toLower (canonLoop u k) = toLower k"
  by (induction u k rule: canonLoop.induct) (auto simp: toLower_def Let_def lower_upper lower_lower)

lemma toLower_canonicalKey [simp]: "toLower (canonicalKey k) = toLower k"
  by (simp add: canonicalKey_def toLower_canonLoop)

lemma headerAdd_get:
  "alist_get (headerAdd k v h) k' =
     (if k' = canonicalKey k then Some ((case alist_get h k' of Some vs \<Rightarrow> vs | None \<Rightarrow> []) @ [v]) else alist_get h k')"
  by (simp add: headerAdd_def)

lemma headerSet_get: "alist_get (headerSet k v h) k' = (if k' = canonicalKey k then Some [v] else alist_get h k')"
  by (simp add: headerSet_def)

lemma foldl_headerAdd_other: "k' \<noteq> canonicalKey k \<Longrightarrow> alist_get (foldl (\<lambda>out v. headerAdd k v out) h vs) k' = alist_get h k'"
  by (induction vs arbitrary: h) (simp_all add: headerAdd_get)

lemma copyForwardedHeaders_blocked:
  assumes "toLower k' \<in> hopByHop"
  shows "alist_get (copyForwardedHeaders inh out) k' = alist_get out k'"
  unfolding copyForwardedHeaders_def
proof (induction inh arbitrary: out)
  case Nil
  show ?case by simp
next
  case (Cons kv inh)
  obtain k vs where kv: "kv = (k, vs)" by (cases kv)
  have "k' \<noteq> canonicalKey k" if "toLower k \<notin> hopByHop" using that assms by auto
  then have "alist_get (if toLower k \<in> hopByHop then out else foldl (\<lambda>out v. headerAdd k v out) out vs) k' =
      alist_get out k'" by (simp add: foldl_headerAdd_other)
  with Cons.IH show ?case by (simp add: kv)
qed

lemma newUpstreamRequest_authorization:
  assumes "newUpstreamRequest env b method url headers body = Inr req"
    and "alist_get (rq_headers req) k = Some vs" and "toLower k = ''authorization''"
  shows "vs = [''Bearer '' @ env_getenv env (be_CredentialsEnv b)] \<and> be_CredentialsEnv b \<noteq> ''''"
proof -
  have blocked: "alist_get (copyForwardedHeaders headers []) k = None"
    using copyForwardedHeaders_blocked [of k headers "[]"] assms(3) by (simp add: hopByHop_def)
  have ne: "k \<noteq> canonicalKey ''Connection''" "k \<noteq> canonicalKey ''x-api-key''" "k \<noteq> canonicalKey ''anthropic-version''"
    using assms(3) toLower_canonicalKey
    by (auto dest!: arg_cong [of k _ toLower]) (simp_all add: toLower_def ascii_lower_def)
  obtain h where h: "applyCredentials (env_getenv env) b (copyForwardedHeaders headers []) = Some h"
    and req: "alist_get (rq_headers req) k = alist_get h k"
    using assms(1) ne(1)
    by (auto simp: newUpstreamRequest_def Let_def headerSet_get split: if_splits option.splits)
  with assms(2) blocked ne(2,3) show ?thesis
    by (auto simp: applyCredentials_def Let_def headerSet_get split: if_splits)
qed

section \<open>Placement only picks\<close>

text \<open>What placement leaves alone: health, handles and the prefill ledger.\<close>

definition same_ledger :: "Dispatcher \<Rightarrow> Dispatcher \<Rightarrow> bool" where
  "same_ledger d d' \<longleftrightarrow> d_handles d' = d_handles d \<and> d_nextHandle d' = d_nextHandle d \<and>
     d_health d' = d_health d \<and> d_endpoints d' = d_endpoints d \<and> (load_inv d \<longrightarrow> load_inv d')"

lemma same_ledger_refl [simp]: "same_ledger d d"
  by (simp add: same_ledger_def)

lemma same_ledger_trans: "same_ledger a b \<Longrightarrow> same_ledger b c \<Longrightarrow> same_ledger a c"
  by (simp add: same_ledger_def)

lemma same_ledger_loadFor: "same_ledger d (fst (loadFor d name ep))"
  using load_inv_loadFor [of d name ep]
  by (auto simp: same_ledger_def) (auto simp: loadFor_def Let_def split: option.splits)

lemma same_ledger_gather: "same_ledger d (fst (gather d now name eps))"
proof (induction d now name eps rule: gather.induct)
  case (1 d now name)
  show ?case by simp
next
  case (2 d now name ep eps)
  obtain d1 a where l: "loadFor d name ep = (d1, a)" by (cases "loadFor d name ep")
  with same_ledger_loadFor [of d name ep] have "same_ledger d d1" by simp
  with 2 l show ?case by (auto intro: same_ledger_trans simp: Let_def split: prod.splits)
qed

lemma same_ledger_cursor: "same_ledger d (fst (endpointCursor d name))"
  by (auto simp: same_ledger_def endpointCursor_def Let_def elim: load_inv_weaken)

lemma same_ledger_roundRobin: "same_ledger d (fst (roundRobin d now name eps))"
  using same_ledger_cursor [of d name]
  by (auto simp: roundRobin_def Let_def split: list.splits prod.splits option.splits)

lemma same_ledger_ringFor: "same_ledger d (fst (ringFor d name eps))"
  by (auto simp: same_ledger_def ringFor_def Let_def split: option.splits elim: load_inv_weaken)

lemma same_ledger_sessions: "same_ledger d (d\<lparr>d_sessions := x\<rparr>)"
  by (auto simp: same_ledger_def elim: load_inv_weaken)

lemma place_same_ledger:
  assumes "place d now b headers n = Some (d', p)"
  shows "same_ledger d d'"
proof -
  have rr: "same_ledger x y" if "roundRobin x now (be_Name b) e = (y, q)" for x y e q
    using same_ledger_roundRobin [of x now "be_Name b" e] that by simp
  define eps where "eps = liveEndpoints d b"
  obtain dg cands where g: "gather d now (be_Name b) eps = (dg, cands)" by (cases "gather d now (be_Name b) eps")
  have sg: "same_ledger d dg" using same_ledger_gather [of d now "be_Name b" eps] g by simp
  obtain dc c where c: "endpointCursor dg (be_Name b) = (dc, c)" by (cases "endpointCursor dg (be_Name b)")
  have sc: "same_ledger d dc" using same_ledger_cursor [of dg "be_Name b"] c sg by (auto intro: same_ledger_trans)
  obtain dr ring where r: "ringFor dc (be_Name b) eps = (dr, ring)" by (cases "ringFor dc (be_Name b) eps")
  have sr: "same_ledger d dr" using same_ledger_ringFor [of dc "be_Name b" eps] r sc by (auto intro: same_ledger_trans)
  have ss: "same_ledger d (dr\<lparr>d_sessions := x\<rparr>)" for x using sr same_ledger_sessions same_ledger_trans by blast
  show ?thesis
    using assms sc unfolding place_def eps_def [symmetric] Let_def
    by (auto simp: g c r ss split: option.splits if_splits prod.splits
        dest!: rr intro: same_ledger_trans [OF sg])
qed

section \<open>Counts are given back\<close>

lemma track_cases:
  obtains "snd (track d name ep) = None" "fst (track d name ep) = d"
  | a where "snd (track d name ep) = Some (d_nextHandle d)"
      "d_handles (fst (track d name ep)) = d_handles d @ [(d_nextHandle d, InflightRelease a)]"
      "d_nextHandle (fst (track d name ep)) = d_nextHandle d + 1"
proof (cases "ep = ''''")
  case True
  then show ?thesis using that(1) by (simp add: track_def)
next
  case False
  obtain d1 a where l: "loadFor d name ep = (d1, a)" by (cases "loadFor d name ep")
  have "same_ledger d d1" using same_ledger_loadFor [of d name ep] l by simp
  then show ?thesis using False l that(2) [of a]
    by (simp add: track_def newHandle_def Let_def same_ledger_def)
qed

lemma trackPrefill_cases:
  obtains "snd (trackPrefill d now name ep t) = None" "fst (trackPrefill d now name ep t) = d"
  | a i where "snd (trackPrefill d now name ep t) = Some (d_nextHandle d)"
      "d_handles (fst (trackPrefill d now name ep t)) = d_handles d @ [(d_nextHandle d, PrefillRelease a t i)]"
proof (cases "ep = '''' \<or> t \<le> 0")
  case True
  then show ?thesis using that(1) by (simp add: trackPrefill_def)
next
  case False
  obtain d1 a where l: "loadFor d name ep = (d1, a)" by (cases "loadFor d name ep")
  have "same_ledger d d1" using same_ledger_loadFor [of d name ep] l by simp
  then show ?thesis using False l that(2) [of a "d_prefillSeq d1 + 1"]
    by (simp add: trackPrefill_def newHandle_def Let_def same_ledger_def)
qed

lemma alist_del_absent: "h \<notin> fst ` set m \<Longrightarrow> alist_del h m = m"
  by (force simp: AList.delete_eq filter_id_conv)

lemma alist_del_append: "alist_del h (m @ m') = alist_del h m @ alist_del h m'"
  by (simp add: AList.delete_eq)

lemma alist_get_last: "alist_get (m @ (h, r) # m') h \<noteq> None"
  by (simp add: map_add_def split: option.split)

lemma release_one:
  assumes "d_handles d = m @ (n, r) # m'" "n \<notin> fst ` set m" "n \<notin> fst ` set m'"
  shows "d_handles (callRelease d (Some n)) = m @ m'"
proof -
  have "alist_get (d_handles d) n \<noteq> None" unfolding assms(1) by (rule alist_get_last)
  moreover have "alist_del n (d_handles d) = m @ m'"
    using assms by (simp add: alist_del_append alist_del_absent)
  ultimately show ?thesis by (auto simp: callRelease_handles)
qed

lemma callRelease_None [simp]: "callRelease d None = d"
  by (simp add: callRelease_def)

lemma release_both:
  assumes fresh: "\<forall>(h, r) \<in> set (d_handles d). h < d_nextHandle d"
    and t: "track d name ep = (d1, ho)" and p: "trackPrefill d1 now name ep tk = (d2, po)"
    and h: "d_handles d3 = d_handles d2"
  shows "d_handles (callRelease (callRelease d3 ho) po) = d_handles d \<and>
    d_handles (callRelease (callRelease d3 po) ho) = d_handles d"
proof -
  define n where "n = d_nextHandle d"
  define m where "m = d_handles d"
  have n: "n \<notin> fst ` set m" "Suc n \<notin> fst ` set m"
    using fresh by (auto simp: n_def m_def)
  show ?thesis
    unfolding m_def [symmetric]
  proof (rule track_cases [of d name ep])
    assume "snd (track d name ep) = None" "fst (track d name ep) = d"
    then have [simp]: "ho = None" "d1 = d" using t by simp_all
    show "d_handles (callRelease (callRelease d3 ho) po) = m \<and> d_handles (callRelease (callRelease d3 po) ho) = m"
    proof (rule trackPrefill_cases [of d1 now name ep tk])
      assume "snd (trackPrefill d1 now name ep tk) = None" "fst (trackPrefill d1 now name ep tk) = d1"
      then show ?thesis using p h by (simp add: m_def)
    next
      fix a i assume "snd (trackPrefill d1 now name ep tk) = Some (d_nextHandle d1)"
        "d_handles (fst (trackPrefill d1 now name ep tk)) = d_handles d1 @ [(d_nextHandle d1, PrefillRelease a tk i)]"
      then have "po = Some n" "d_handles d3 = m @ (n, PrefillRelease a tk i) # []"
        using p h by (simp_all add: m_def n_def)
      then show ?thesis using release_one n(1) by simp
    qed
  next
    fix a assume "snd (track d name ep) = Some (d_nextHandle d)"
      "d_handles (fst (track d name ep)) = d_handles d @ [(d_nextHandle d, InflightRelease a)]"
      "d_nextHandle (fst (track d name ep)) = d_nextHandle d + 1"
    then have [simp]: "ho = Some n" and d1: "d_handles d1 = m @ [(n, InflightRelease a)]" "d_nextHandle d1 = Suc n"
      using t by (simp_all add: m_def n_def)
    show "d_handles (callRelease (callRelease d3 ho) po) = m \<and> d_handles (callRelease (callRelease d3 po) ho) = m"
    proof (rule trackPrefill_cases [of d1 now name ep tk])
      assume "snd (trackPrefill d1 now name ep tk) = None" "fst (trackPrefill d1 now name ep tk) = d1"
      then have "po = None" "d_handles d3 = m @ (n, InflightRelease a) # []" using p h d1 by simp_all
      then show ?thesis using release_one n(1) by simp
    next
      fix a' i assume "snd (trackPrefill d1 now name ep tk) = Some (d_nextHandle d1)"
        "d_handles (fst (trackPrefill d1 now name ep tk)) = d_handles d1 @ [(d_nextHandle d1, PrefillRelease a' tk i)]"
      then have po: "po = Some (Suc n)"
        and d3: "d_handles d3 = m @ (n, InflightRelease a) # [(Suc n, PrefillRelease a' tk i)]"
        "d_handles d3 = (m @ [(n, InflightRelease a)]) @ (Suc n, PrefillRelease a' tk i) # []"
        using p h d1 by simp_all
      have "d_handles (callRelease d3 ho) = m @ (Suc n, PrefillRelease a' tk i) # []"
        using release_one [OF d3(1)] n(1) by simp
      moreover have "d_handles (callRelease d3 po) = m @ (n, InflightRelease a) # []"
        unfolding po using release_one [OF d3(2)] n(2) by simp
      ultimately show ?thesis using release_one n po by simp
    qed
  qed
qed

lemma mark_handles [simp]:
  "d_handles (markUnhealthy d t name ep) = d_handles d" "d_handles (markHealthy d name ep) = d_handles d"
  by (auto simp: markUnhealthy_def markHealthy_def quarantine_def healthFor_def Let_def split: option.splits)

lemma releases_health [simp]: "d_health (callRelease d ho) = d_health d"
  by (auto simp: callRelease_def updLoad_def split: option.splits release.splits)

lemma track_health:
  "d_health (fst (track d name ep)) = d_health d" "d_health (fst (trackPrefill d now name ep tk)) = d_health d"
  "d_quarantineDuration (fst (track d name ep)) = d_quarantineDuration d"
  by (auto simp: track_def trackPrefill_def loadFor_def newHandle_def updLoad_def Let_def split: option.splits)

text \<open>The shape of a dispatch that was placed: the endpoint, the two counts, and the outcome of
  the upstream.\<close>

lemma Dispatch_placed:
  assumes "Dispatch env d now later (Some b) method path headers body = (d', r)"
  obtains (rr_panic) "r = Panicked" "d' = d"
  | (placed) dp ep tk d1 ho d2 po where
      "same_ledger d dp" "track dp (be_Name b) ep = (d1, ho)" "trackPrefill d1 now (be_Name b) ep tk = (d2, po)"
      "r = Panicked \<and> d' = d2 \<or>
       (\<exists>e. r = Failed e \<and> e \<notin> range UpstreamError \<and> d' = callRelease (callRelease d2 ho) po) \<or>
       (\<exists>e. r = Failed (UpstreamError e) \<and>
          d' = callRelease (callRelease (if e = ConnError then markUnhealthy d2 later (be_Name b) ep else d2) ho) po) \<or>
       (\<exists>st bo. r = Responded st bo \<and> bo_prefill bo = po \<and> bo_inflight bo = ho \<and> bo_endpoint bo = ep \<and>
          bo_backend bo = be_Name b \<and>
          d' = (if st \<ge> 500 then markUnhealthy d2 later (be_Name b) ep else markHealthy d2 (be_Name b) ep))"
proof (cases "place d now b (if isTokenCountPath path then [] else headers)
    (if isTokenCountPath path then 0 else int (length body))")
  case None
  then show ?thesis using assms rr_panic by (simp add: Dispatch_def Let_def)
next
  case (Some q)
  obtain dp ep res reason tk where q: "q = (dp, ep, res, reason, tk)" by (cases q)
  obtain d1 ho where t: "track dp (be_Name b) ep = (d1, ho)" by (cases "track dp (be_Name b) ep")
  obtain d2 po where p: "trackPrefill d1 now (be_Name b) ep tk = (d2, po)" by (cases "trackPrefill d1 now (be_Name b) ep tk")
  have same: "same_ledger d dp" using place_same_ledger Some q by blast
  show ?thesis
  proof (rule placed [OF same t p])
    show "r = Panicked \<and> d' = d2 \<or>
       (\<exists>e. r = Failed e \<and> e \<notin> range UpstreamError \<and> d' = callRelease (callRelease d2 ho) po) \<or>
       (\<exists>e. r = Failed (UpstreamError e) \<and>
          d' = callRelease (callRelease (if e = ConnError then markUnhealthy d2 later (be_Name b) ep else d2) ho) po) \<or>
       (\<exists>st bo. r = Responded st bo \<and> bo_prefill bo = po \<and> bo_inflight bo = ho \<and> bo_endpoint bo = ep \<and>
          bo_backend bo = be_Name b \<and>
          d' = (if st \<ge> 500 then markUnhealthy d2 later (be_Name b) ep else markHealthy d2 (be_Name b) ep))"
      using assms Some q t p
      by (auto simp: Dispatch_def Let_def newUpstreamRequest_def split: option.splits sum.splits do_result.splits
          prod.splits if_splits)
  qed
qed

lemma Dispatch_gives_back:
  assumes inv: "load_inv d" and disp: "Dispatch env d now later (Some b) method path headers body = (d', r)"
  shows "(\<forall>e. r = Failed e \<longrightarrow> d_handles d' = d_handles d) \<and>
    (\<forall>st bo. r = Responded st bo \<longrightarrow> d_handles (fst (Body_Close d' bo)) = d_handles d)"
  using disp
proof (cases rule: Dispatch_placed)
  case rr_panic
  then show ?thesis by simp
next
  case (placed dp ep tk d1 ho d2 po)
  have h: "d_handles dp = d_handles d" "d_nextHandle dp = d_nextHandle d" using placed(1) by (simp_all add: same_ledger_def)
  have fresh: "\<forall>(h, r) \<in> set (d_handles dp). h < d_nextHandle dp"
    using inv h by (auto simp: load_inv_def handles_ok_def)
  note both = release_both [OF fresh placed(2,3)]
  have "d_handles (callRelease (callRelease x ho) po) = d_handles d" "d_handles (callRelease (callRelease x po) ho) = d_handles d"
    if "d_handles x = d_handles d2" for x using both [OF that] h by simp_all
  then show ?thesis using placed(4) by (auto simp: Body_Close_def split: if_splits)
qed

lemma Dispatch_health:
  assumes "Dispatch env d now later (Some b) method path headers body = (d', r)"
  shows "\<exists>ep. (\<forall>key. key \<noteq> healthKey (be_Name b) ep \<longrightarrow> d_health d' key = d_health d key) \<and>
    (r \<notin> insert (Failed (UpstreamError ConnError)) {Responded st bo |st bo. True} \<longrightarrow> d_health d' = d_health d) \<and>
    (\<forall>st bo. r = Responded st bo \<longrightarrow> bo_endpoint bo = ep \<and>
       (st < 500 \<longrightarrow> dispatchable d' later (healthKey (be_Name b) ep)))"
  using assms
proof (cases rule: Dispatch_placed)
  case rr_panic
  then show ?thesis by auto
next
  case (placed dp ep tk d1 ho d2 po)
  have h2: "d_health d2 = d_health d"
    using placed(1-3) track_health(1) [of dp "be_Name b" ep] track_health(2) [of d1 now "be_Name b" ep tk]
    by (simp add: same_ledger_def)
  have un: "d_health (markUnhealthy d2 later (be_Name b) ep) key = d_health d key" if "key \<noteq> healthKey (be_Name b) ep" for key
    using observe_other [OF that, of d2 "[(later, False)]"] h2 by (simp add: observe_def)
  have ok: "d_health (markHealthy d2 (be_Name b) ep) key = d_health d key" if "key \<noteq> healthKey (be_Name b) ep" for key
    using that h2 by (simp add: markHealthy_health)
  have disp: "dispatchable (markHealthy d2 (be_Name b) ep) t (healthKey (be_Name b) ep)" for t
    by (simp add: dispatchable_def markHealthy_health)
  show ?thesis
    using placed(4) by (intro exI [of _ ep]) (auto simp: h2 un ok disp split: if_splits)
qed

section \<open>Where a request is placed\<close>

lemma gather_endpoints:
  "map cand_Endpoint (snd (gather d now name eps)) = filter (\<lambda>ep. dispatchable d now (healthKey name ep)) eps"
proof (induction d now name eps rule: gather.induct)
  case (1 d now name)
  show ?case by simp
next
  case (2 d now name ep eps)
  obtain d1 a where l: "loadFor d name ep = (d1, a)" by (cases "loadFor d name ep")
  have "d_health d1 = d_health d" using same_ledger_loadFor [of d name ep] l by (simp add: same_ledger_def)
  then have "dispatchable d1 = dispatchable d" by (simp add: dispatchable_def fun_eq_iff)
  with 2 l show ?case by (simp add: Let_def split: prod.splits) (metis snd_conv)
qed

definition tables_ok :: "instant \<Rightarrow> Dispatcher \<Rightarrow> bool" where
  "tables_ok t d \<longleftrightarrow> 0 \<le> t \<and> (\<forall>(k, s) \<in> set (d_sessions d). sessions_inv t s)"

lemma sessionsFor_inv: "tables_ok t d \<Longrightarrow> sessions_inv t (sessionsFor d name bal)"
  by (auto simp: tables_ok_def sessionsFor_def inv_NewSessions split: option.split dest!: map_of_SomeD)

lemma Place_endpoint:
  assumes "sessions_inv t s" "t \<le> now" "cands \<noteq> []" "Place s key cands now tie home bytes = (s', ep, rest)"
  shows "ep \<in> cand_Endpoint ` set cands"
proof -
  have "fst (snd (Place s key cands now tie home bytes)) \<in> cand_Endpoint ` set cands"
    using Place_refines [OF assms(1,2)] placeSpec_endpoint [OF assms(3)] by simp
  with assms(4) show ?thesis by simp
qed

lemma same_sessions_gather: "d_sessions (fst (gather d now name eps)) = d_sessions d"
proof (induction d now name eps rule: gather.induct)
  case (1 d now name)
  show ?case by simp
next
  case (2 d now name ep eps)
  have "d_sessions (fst (loadFor d name ep)) = d_sessions d"
    by (simp add: loadFor_def Let_def split: option.split)
  with 2 show ?case by (auto simp: Let_def split: prod.splits)
qed

lemma same_sessions_ring: "d_sessions (fst (ringFor d name eps)) = d_sessions d"
  by (simp add: ringFor_def Let_def split: option.split)

lemma cursor_gather: "d_cursors (fst (gather d now name eps)) = d_cursors d"
proof (induction d now name eps rule: gather.induct)
  case (1 d now name)
  show ?case by simp
next
  case (2 d now name ep eps)
  have "d_cursors (fst (loadFor d name ep)) = d_cursors d"
    by (simp add: loadFor_def Let_def split: option.split)
  with 2 show ?case by (auto simp: Let_def split: prod.splits)
qed

text \<open>A backend that balances by load, and the pods that may be tried now.\<close>

definition loadAware :: "Backend \<Rightarrow> bool" where
  "loadAware b \<longleftrightarrow> (\<exists>bal. be_Balancing b = Some bal \<and> bal_Mode bal = BalancingLoadAware)"

definition triable :: "Dispatcher \<Rightarrow> instant \<Rightarrow> Backend \<Rightarrow> gostring list" where
  "triable d now b = filter (\<lambda>ep. dispatchable d now (healthKey (be_Name b) ep)) (liveEndpoints d b)"

lemma place_roundRobin:
  assumes "liveEndpoints d b \<noteq> []" "cursorOf d (be_Name b) < 2 ^ 63" "\<not> loadAware b \<or> triable d now b = []"
  shows "\<exists>d' ep res. place d now b headers n = Some (d', ep, res, ReasonNone, 0) \<and> ep \<in> set (liveEndpoints d b) \<and>
    (2 \<le> length (liveEndpoints d b) \<longrightarrow> triable d now b \<noteq> [] \<longrightarrow> ep \<in> set (triable d now b))"
proof -
  let ?eps = "liveEndpoints d b"
  have rr: "\<exists>y ep. roundRobin x now (be_Name b) ?eps = (y, Some ep) \<and> ep \<in> set ?eps \<and>
      (2 \<le> length ?eps \<longrightarrow> triable d now b \<noteq> [] \<longrightarrow> ep \<in> set (triable d now b))"
    if "d_health x = d_health d" "d_cursors x = d_cursors d" for x
  proof -
    have "dispatchable x = dispatchable d" "cursorOf x (be_Name b) = cursorOf d (be_Name b)"
      using that by (simp_all add: dispatchable_def cursorOf_def fun_eq_iff)
    with roundRobin_choice [of ?eps x "be_Name b" now] assms(1,2) show ?thesis
      by (cases "roundRobin x now (be_Name b) ?eps") (fastforce simp: triable_def filter_empty_conv)
  qed
  show ?thesis
  proof (cases "loadAware b")
    case False
    then show ?thesis using rr [of d] by (auto simp: place_def Let_def loadAware_def split: option.split)
  next
    case True
    then obtain bal where bal: "be_Balancing b = Some bal" "bal_Mode bal = BalancingLoadAware" by (auto simp: loadAware_def)
    obtain dg cands where g: "gather d now (be_Name b) ?eps = (dg, cands)" by (cases "gather d now (be_Name b) ?eps")
    have "cands = []" using gather_endpoints [of d now "be_Name b" ?eps] g assms(3) True by (simp add: triable_def)
    moreover have "d_health dg = d_health d" "d_cursors dg = d_cursors d"
      using same_ledger_gather [of d now "be_Name b" ?eps] cursor_gather [of d now "be_Name b" ?eps] g
      by (simp_all add: same_ledger_def)
    ultimately show ?thesis using rr [of dg] bal g assms(1) by (auto simp: place_def Let_def)
  qed
qed

lemma place_loadAware:
  assumes aware: "loadAware b" and tr: "triable d now b \<noteq> []" and tbl: "tables_ok t d" "t \<le> now"
  shows "\<exists>d' ep res reason tk. place d now b headers n = Some (d', ep, res, reason, tk) \<and> ep \<in> set (triable d now b)"
proof -
  let ?eps = "liveEndpoints d b"
  from aware obtain bal where bal: "be_Balancing b = Some bal" "bal_Mode bal = BalancingLoadAware" by (auto simp: loadAware_def)
  have ne: "?eps \<noteq> []" using tr by (auto simp: triable_def)
  obtain dg cands where g: "gather d now (be_Name b) ?eps = (dg, cands)" by (cases "gather d now (be_Name b) ?eps")
  have cs: "map cand_Endpoint cands = triable d now b"
    using gather_endpoints [of d now "be_Name b" ?eps] g by (simp add: triable_def)
  then have cne: "cands \<noteq> []" and cset: "cand_Endpoint ` set cands = set (triable d now b)"
    using tr by (auto simp flip: set_map)
  obtain dc c where c: "endpointCursor dg (be_Name b) = (dc, c)" by (cases "endpointCursor dg (be_Name b)")
  obtain dr ring where r: "ringFor dc (be_Name b) ?eps = (dr, ring)" by (cases "ringFor dc (be_Name b) ?eps")
  have "d_sessions dr = d_sessions d"
    using same_sessions_gather [of d now "be_Name b" ?eps] same_sessions_ring [of dc "be_Name b" ?eps] g c r
    by (auto simp: endpointCursor_def Let_def)
  then have inv: "sessions_inv t (sessionsFor dr (be_Name b) bal)"
    using sessionsFor_inv [of t dr] tbl(1) by (simp add: tables_ok_def)
  let ?key = "sessionKey headers (bal_SessionHeaders bal)"
  show ?thesis
  proof (cases "?key = ''''")
    case True
    have "fst (PickLeastLoaded (Eligible cands now) now (sint c)) \<in> set (triable d now b)"
      using least_loaded.pick_eligible [OF cne] by (simp add: cset)
    then show ?thesis using True bal ne g cne c by (auto simp: place_def Let_def split: prod.splits)
  next
    case False
    obtain s' ep rest where p: "Place (sessionsFor dr (be_Name b) bal) (SessionHash ?key) cands now (sint c) (Home ring ?key) n =
        (s', ep, rest)" by (metis prod.exhaust)
    then have "ep \<in> set (triable d now b)" using Place_endpoint [OF inv tbl(2) cne] by (simp add: cset)
    then show ?thesis using False bal ne g cne c r p by (cases rest) (auto simp: place_def Let_def)
  qed
qed

section \<open>Properties\<close>

definition ex_env :: Env where
  "ex_env = \<lparr>env_do = (\<lambda>fresh req. (DoResponse 200, False)), env_validRequest = (\<lambda>m u. True),
     env_getenv = (\<lambda>v. ''secret''),
     env_unmarshalMap = (\<lambda>s. if s = ''null'' then MapNull else MapError),
     env_unmarshalBool = (\<lambda>s. None), env_marshalString = (\<lambda>s. s), env_marshalMap = (\<lambda>m. None)\<rparr>"

definition ex_pods :: Backend where
  "ex_pods = (ex_backend ''local'' ''local'')\<lparr>be_Endpoints := [''http://p1'', ''http://p2''], be_Model := ''m'',
     be_Balancing := Some \<lparr>bal_Mode = BalancingLoadAware, bal_SessionHeaders = [], bal_SessionIdleTimeout = 0\<rparr>\<rparr>"

definition ex_pod_dispatcher :: Dispatcher where
  "ex_pod_dispatcher = NewDispatcher (ex_config\<lparr>cfg_Backends := [ex_pods]\<rparr>) []"

lemma ex_pod_inv: "load_inv ex_pod_dispatcher"
  unfolding ex_pod_dispatcher_def by (rule load_inv_start) (rule NewDispatcher_start, simp)

text \<open>Placement is sound: for a backend with live pods, \<open>place\<close> returns (it neither panics nor
  answers nothing) and answers one of the live pods; a pod that may be tried now is chosen
  whenever there is one and the backend balances by load or has at least two pods.\<close>
lemma placement_sound:
  assumes "liveEndpoints d b \<noteq> []" and "cursorOf d (be_Name b) < 2 ^ 63" and "tables_ok t d" and "t \<le> now"
  shows "\<exists>d' ep res reason tk. place d now b headers n = Some (d', ep, res, reason, tk) \<and>
    ep \<in> set (liveEndpoints d b) \<and>
    (triable d now b \<noteq> [] \<longrightarrow> loadAware b \<or> 2 \<le> length (liveEndpoints d b) \<longrightarrow> ep \<in> set (triable d now b))"
proof (cases "loadAware b \<and> triable d now b \<noteq> []")
  case True
  then show ?thesis using place_loadAware [OF _ _ assms(3,4), of b headers n] by (fastforce simp: triable_def)
next
  case False
  then show ?thesis using place_roundRobin [OF assms(1,2), of now headers n] by fastforce
qed

text \<open>Counts are given back: a dispatch that fails leaves no request counted, and one that
  answers leaves none once its body is closed, for every outcome of the upstream, the retry of
  a stale connection included.\<close>
lemma dispatch_gives_back:
  assumes "load_inv d" and "Dispatch env d now later (Some b) method path headers body = (d', r)"
  shows "(\<forall>e. r = Failed e \<longrightarrow> d_handles d' = d_handles d) \<and>
    (\<forall>st bo. r = Responded st bo \<longrightarrow> d_handles (fst (Body_Close d' bo)) = d_handles d)"
  using assms by (rule Dispatch_gives_back)

text \<open>The health verdict of a dispatch concerns only the pod it talked to. A rule deadline, a
  client that went away, and errors before anything was sent change no health entry at all; an
  answer below 500 leaves the pod dispatchable.\<close>
lemma dispatch_verdict:
  assumes "Dispatch env d now later (Some b) method path headers body = (d', r)"
  shows "\<exists>ep. (\<forall>key. key \<noteq> healthKey (be_Name b) ep \<longrightarrow> d_health d' key = d_health d key) \<and>
    (r \<notin> insert (Failed (UpstreamError ConnError)) {Responded st bo |st bo. True} \<longrightarrow> d_health d' = d_health d) \<and>
    (\<forall>st bo. r = Responded st bo \<longrightarrow> bo_endpoint bo = ep \<and>
       (st < 500 \<longrightarrow> dispatchable d' later (healthKey (be_Name b) ep)))"
  using assms by (rule Dispatch_health)

text \<open>C26. Credentials do not leak upstream: whatever headers the client sent, an \<open>Authorization\<close>
  header of an outbound request, under any spelling, carries exactly the backend's own
  credential.\<close>
theorem authorization_is_backends:
  assumes "newUpstreamRequest env b method url headers body = Inr req"
    and "alist_get (rq_headers req) k = Some vs" and "toLower k = ''authorization''"
  shows "vs = [''Bearer '' @ env_getenv env (be_CredentialsEnv b)] \<and> be_CredentialsEnv b \<noteq> ''''"
  using assms by (rule newUpstreamRequest_authorization)

theorem authorization_is_backends_witness:
  "\<exists>req. newUpstreamRequest ex_env (ex_pods\<lparr>be_CredentialsEnv := ''KEY''\<rparr>) ''POST'' ''u''
      [(''Authorization'', [''Bearer client''])] ''{}'' = Inr req \<and>
    alist_get (rq_headers req) ''Authorization'' = Some [''Bearer secret'']"
proof -
  let ?b = "ex_pods\<lparr>be_CredentialsEnv := ''KEY''\<rparr>"
  obtain req vs where req: "newUpstreamRequest ex_env ?b ''POST'' ''u'' [(''Authorization'', [''Bearer client''])] ''{}'' = Inr req"
    and vs: "alist_get (rq_headers req) ''Authorization'' = Some vs"
    by (simp add: newUpstreamRequest_def ex_env_def applyCredentials_def copyForwardedHeaders_def hopByHop_def
        ex_pods_def ex_backend_def headerSet_def canonicalKey_def isTokenByte_def ascii_upper_def
        ascii_lower_def toLower_def Let_def)
  have "toLower ''Authorization'' = ''authorization''" by code_simp
  from authorization_is_backends [OF req vs this] req vs show ?thesis by (simp add: ex_env_def)
qed

text \<open>The upstream sees the model it serves. Assume the JSON encoder writes an object the
  decoder reads back, member by member. Then a rewritten request body parses to an object whose
  \<open>model\<close> is the backend's own name and whose other members are the client's; a body that is
  not rewritten is sent byte for byte.\<close>
lemma model_override:
  assumes rt: "\<And>m raw. marshalMap m = Some raw \<Longrightarrow>
      (\<exists>m'. unmarshalMap raw = MapObject m' \<and> alist_get m' = alist_get m)"
    and "applyModelOverride unmarshalMap marshalString marshalMap body model = Some out"
  shows "out = body \<or>
    (\<exists>obj obj'. unmarshalMap body = MapObject obj \<and> unmarshalMap out = MapObject obj' \<and>
       alist_get obj' = (alist_get obj)(''model'' \<mapsto> marshalString model))"
proof (cases "out = body")
  case True
  then show ?thesis by simp
next
  case False
  with assms(2) obtain obj where obj: "unmarshalMap body = MapObject obj"
      "marshalMap (alist_set ''model'' (marshalString model) obj) = Some out"
    by (auto simp: applyModelOverride_def Let_def split: if_splits rawMap.splits option.splits)
  with rt [OF obj(2)] show ?thesis by (auto simp: update_conv' fun_upd_def)
qed

definition ex_json_in :: "gostring \<Rightarrow> rawMap" where
  "ex_json_in raw = (if raw = ''A'' then MapObject [(''model'', ''alias'')]
     else if raw = ''B'' then MapObject [(''model'', ''m'')] else MapError)"

definition ex_json_out :: "(gostring \<times> gostring) list \<Rightarrow> gostring option" where
  "ex_json_out m = (if m = [(''model'', ''m'')] then Some ''B'' else None)"

text \<open>A request body that is the JSON \<open>null\<close> panics, and its counts are lost: \<open>json.Unmarshal\<close>
  leaves the map nil without an error and \<open>applyModelOverride\<close> assigns into it. By then \<open>Dispatch\<close>
  has counted the request on the chosen pod, and no release runs, so the in-flight count of that
  pod stays too high for good. Every backend that names its model is affected.\<close>
lemma null_body_leaks:
  assumes "load_inv d" and "env_unmarshalMap env body = MapNull" and "outboundModel b \<noteq> ''''"
    and "place d now b (if isTokenCountPath path then [] else headers)
           (if isTokenCountPath path then 0 else int (length body)) = Some (dp, ep, res, reason, tk)"
    and "ep \<noteq> ''''"
  shows "\<exists>d' a. Dispatch env d now later (Some b) method path headers body = (d', Panicked) \<and>
    (d_nextHandle d, InflightRelease a) \<in> set (d_handles d') \<and>
    (d_nextHandle d, InflightRelease a) \<notin> set (d_handles d)"
proof -
  have same: "d_handles dp = d_handles d" "d_nextHandle dp = d_nextHandle d"
    using place_same_ledger [OF assms(4)] by (simp_all add: same_ledger_def)
  obtain d1 ho where t: "track dp (be_Name b) ep = (d1, ho)" by (cases "track dp (be_Name b) ep")
  obtain d2 po where p: "trackPrefill d1 now (be_Name b) ep tk = (d2, po)" by (cases "trackPrefill d1 now (be_Name b) ep tk")
  have "Dispatch env d now later (Some b) method path headers body = (d2, Panicked)"
    using assms t p by (simp add: Dispatch_def applyModelOverride_def Let_def)
  moreover obtain a where "d_handles d1 = d_handles dp @ [(d_nextHandle dp, InflightRelease a)]"
    using track_cases [of dp "be_Name b" ep] t assms(5) by (auto simp: track_def split: prod.splits)
  moreover have "set (d_handles d1) \<subseteq> set (d_handles d2)"
    using trackPrefill_cases [of d1 now "be_Name b" ep tk] p by (metis Un_upper1 fst_conv order_refl set_append)
  moreover have "(d_nextHandle d, InflightRelease a) \<notin> set (d_handles d)" for a
    using assms(1) by (auto simp: load_inv_def handles_ok_def)
  ultimately show ?thesis using same by fastforce
qed

end
