(* ===== verification/Activator.thy ===== *)
theory Activator
  imports Dispatcher_State
begin

text \<open>
  Model pool activation (\<open>internal/router/activator.go\<close>, \<open>activator_k8s.go\<close>): requests for the
  members of a pool that share one slot are held while the resident member drains and the wanted
  one loads. The first part has one definition per critical section of \<open>Activator.mu\<close> and per
  controller operation; the second part composes them into the interleavings of request
  goroutines, swap goroutines and deactivation goroutines of one pool over a cluster that other
  controllers change at will. Pools do not share state. Metrics and logging are left out.
\<close>

section \<open>The Kubernetes member controller\<close>

text \<open>What the proxy reads and writes of an \<open>InferenceService\<close>: \<open>spec.replicas\<close> and
  \<open>status.phase\<close>. A cluster maps the names of one namespace to them. The flags answer whether
  the API server served the \<open>Get\<close> and the \<open>Patch\<close>; an operation returns whether it succeeded.\<close>

record InferenceService =
  is_Replicas :: "int option"
  is_Phase :: gostring

type_synonym cluster = "gostring \<Rightarrow> InferenceService option"

definition modelReadyPhase :: gostring where "modelReadyPhase = ''Ready''"

definition kubeGet :: "bool \<Rightarrow> cluster \<Rightarrow> gostring \<Rightarrow> InferenceService option" where
  "kubeGet getOK c isvc = (if getOK then c isvc else None)"

definition patchReplicas :: "bool \<Rightarrow> cluster \<Rightarrow> gostring \<Rightarrow> InferenceService \<Rightarrow> int \<Rightarrow> cluster \<times> bool" where
  "patchReplicas patchOK c isvc cur n =
     (if patchOK then (c(isvc \<mapsto> cur\<lparr>is_Replicas := Some n\<rparr>), True) else (c, False))"

definition Activate :: "bool \<Rightarrow> bool \<Rightarrow> cluster \<Rightarrow> gostring \<Rightarrow> cluster \<times> bool" where
  "Activate getOK patchOK c isvc =
     (case kubeGet getOK c isvc of
        None \<Rightarrow> (c, False)
      | Some cur \<Rightarrow>
          if (case is_Replicas cur of Some n \<Rightarrow> n \<ge> 1 | None \<Rightarrow> False) then (c, True)
          else patchReplicas patchOK c isvc cur 1)"

definition Deactivate :: "bool \<Rightarrow> bool \<Rightarrow> cluster \<Rightarrow> gostring \<Rightarrow> cluster \<times> bool" where
  "Deactivate getOK patchOK c isvc =
     (case kubeGet getOK c isvc of
        None \<Rightarrow> (c, False)
      | Some cur \<Rightarrow>
          if is_Replicas cur = Some 0 then (c, True)
          else patchReplicas patchOK c isvc cur 0)"

definition Phase :: "bool \<Rightarrow> cluster \<Rightarrow> gostring \<Rightarrow> gostring option" where
  "Phase getOK c isvc = map_option is_Phase (kubeGet getOK c isvc)"

section \<open>The pool runtime\<close>

datatype acquire_error =
  ErrHoldBudgetExceeded | ErrSwapDeadlineExceeded gostring | ErrSwapFailed gostring | ErrIncumbentBusy | ErrContextCanceled

record swapFailure =
  sf_gen :: nat
  sf_err :: acquire_error

text \<open>\<open>change\<close> is the number of the current channel; a channel with a smaller number is closed.\<close>

record poolRuntime =
  pr_namespace :: gostring
  pr_pool :: gostring
  pr_members :: "gostring list"
  pr_resident :: gostring
  pr_residentCheckedAt :: instant
  pr_swapping :: bool
  pr_swapTarget :: gostring
  pr_swapGen :: nat
  pr_swapErr :: "gostring \<Rightarrow> swapFailure option"
  pr_inflight :: "gostring \<Rightarrow> int"
  pr_waiting :: "gostring \<Rightarrow> int"
  pr_change :: nat

record Activator =
  a_router :: gostring
  a_resyncInterval :: duration
  a_pools :: "gostring \<Rightarrow> poolRuntime option"

definition residentResyncInterval :: duration where "residentResyncInterval = 5 * second"

definition NewActivator :: "gostring \<Rightarrow> Activator" where
  "NewActivator router =
     \<lparr>a_router = (if router = '''' then ''default'' else router),
      a_resyncInterval = residentResyncInterval, a_pools = Map.empty\<rparr>"

definition poolKey :: "BackendPool \<Rightarrow> gostring" where
  "poolKey p = pool_Namespace p @ ''/'' @ pool_Name p"

definition newRuntime :: "BackendPool \<Rightarrow> poolRuntime" where
  "newRuntime p =
     \<lparr>pr_namespace = pool_Namespace p, pr_pool = pool_Name p, pr_members = pool_Members p,
      pr_resident = '''', pr_residentCheckedAt = 0, pr_swapping = False, pr_swapTarget = '''',
      pr_swapGen = 0, pr_swapErr = Map.empty, pr_inflight = (\<lambda>_. 0), pr_waiting = (\<lambda>_. 0), pr_change = 0\<rparr>"

definition runtime :: "Activator \<Rightarrow> BackendPool \<Rightarrow> Activator \<times> poolRuntime" where
  "runtime a p =
     (case a_pools a (poolKey p) of
        Some pr \<Rightarrow> (a, pr)
      | None \<Rightarrow> (a\<lparr>a_pools := (a_pools a)(poolKey p \<mapsto> newRuntime p)\<rparr>, newRuntime p))"

definition notify :: "poolRuntime \<Rightarrow> poolRuntime" where
  "notify pr = pr\<lparr>pr_change := Suc (pr_change pr)\<rparr>"

subsection \<open>Residency\<close>

text \<open>The scan for a ready member; \<open>None\<close> when a phase read fails.\<close>

fun firstReady :: "(gostring \<Rightarrow> gostring option) \<Rightarrow> gostring list \<Rightarrow> gostring option option" where
  "firstReady phase [] = Some None"
| "firstReady phase (m # ms) =
     (case phase m of
        None \<Rightarrow> None
      | Some ph \<Rightarrow> if ph = modelReadyPhase then Some (Some m) else firstReady phase ms)"

definition adoptReady :: "(gostring \<Rightarrow> gostring option) \<Rightarrow> poolRuntime \<Rightarrow> gostring list \<Rightarrow> poolRuntime \<times> bool" where
  "adoptReady phase pr members =
     (case firstReady phase members of
        None \<Rightarrow> (pr, False)
      | Some None \<Rightarrow> (pr, True)
      | Some (Some m) \<Rightarrow> (pr\<lparr>pr_resident := m\<rparr>, True))"

text \<open>The flag is false when a phase read failed, which the caller only logs.\<close>

definition reconcileResident ::
    "(gostring \<Rightarrow> gostring option) \<Rightarrow> duration \<Rightarrow> instant \<Rightarrow> poolRuntime \<Rightarrow> gostring list \<Rightarrow> poolRuntime \<times> bool" where
  "reconcileResident phase resyncInterval now pr members =
     (if pr_swapping pr then (pr, True)
      else if pr_residentCheckedAt pr \<noteq> 0 \<and> timeSub now (pr_residentCheckedAt pr) < resyncInterval then (pr, True)
      else
        (let pr = pr\<lparr>pr_residentCheckedAt := now\<rparr> in
         if pr_resident pr \<noteq> '''' then
           (case phase (pr_resident pr) of
              None \<Rightarrow> (pr, False)
            | Some ph \<Rightarrow>
                if ph = modelReadyPhase then (pr, True)
                else adoptReady phase (pr\<lparr>pr_resident := ''''\<rparr>) members)
         else adoptReady phase pr members))"

definition invalidatePool :: "poolRuntime \<Rightarrow> poolRuntime" where
  "invalidatePool pr = (if pr_swapping pr then pr else pr\<lparr>pr_residentCheckedAt := 0\<rparr>)"

definition InvalidateResident :: "Activator \<Rightarrow> BackendPool \<Rightarrow> Activator" where
  "InvalidateResident a p =
     (case a_pools a (poolKey p) of
        None \<Rightarrow> a
      | Some pr \<Rightarrow> a\<lparr>a_pools := (a_pools a)(poolKey p \<mapsto> invalidatePool pr)\<rparr>)"

subsection \<open>Swaps\<close>

definition defaultSwapDeadline :: duration where "defaultSwapDeadline = 2 * defaultResponseHeaderTimeout"

definition resolveSwapDeadline :: "duration \<Rightarrow> duration" where
  "resolveSwapDeadline budget = (if budget > 0 then budget else defaultSwapDeadline)"

text \<open>The goroutine of a swap: before \<open>Activate\<close>, in \<open>WaitReady\<close>, and about to take the lock with
  the outcome (true when there was no error).\<close>

datatype stage = Activating | Loading | Publishing bool

record swapRun =
  sw_gen :: nat
  sw_incumbent :: gostring
  sw_target :: gostring
  sw_deadline :: duration
  sw_start :: instant
  sw_stage :: stage

definition startSwap :: "poolRuntime \<Rightarrow> instant \<Rightarrow> gostring \<Rightarrow> gostring \<Rightarrow> duration \<Rightarrow> poolRuntime \<times> swapRun" where
  "startSwap pr now incumbent target budget =
     (let gen = pr_swapGen pr + 1 in
      (notify (pr\<lparr>pr_swapping := True, pr_swapTarget := target, pr_swapGen := gen\<rparr>),
       \<lparr>sw_gen = gen, sw_incumbent = incumbent, sw_target = target,
        sw_deadline = resolveSwapDeadline budget, sw_start = now, sw_stage = Activating\<rparr>))"

text \<open>The error of the swap context when the outcome is recorded.\<close>

datatype ctx_err = CtxLive | CtxDeadline | CtxCanceled

text \<open>The critical section that ends a swap; the flag says that the target is scaled back down
  before the lock is released.\<close>

definition publishSwap :: "poolRuntime \<Rightarrow> instant \<Rightarrow> nat \<Rightarrow> gostring \<Rightarrow> bool \<Rightarrow> ctx_err \<Rightarrow> poolRuntime \<times> bool" where
  "publishSwap pr now gen target ok ctx =
     (if pr_swapGen pr \<noteq> gen then (notify pr, False)
      else
        (let pr = pr\<lparr>pr_swapping := False, pr_swapTarget := ''''\<rparr>;
             fail = (\<lambda>e. notify (pr\<lparr>pr_swapErr := (pr_swapErr pr)(target \<mapsto> \<lparr>sf_gen = gen, sf_err = e\<rparr>)\<rparr>)) in
         if \<not> ok then
           (case ctx of
              CtxCanceled \<Rightarrow> (notify pr, False)
            | CtxDeadline \<Rightarrow> (fail (ErrSwapDeadlineExceeded target), True)
            | CtxLive \<Rightarrow> (fail (ErrSwapFailed target), True))
         else (notify (pr\<lparr>pr_resident := target, pr_residentCheckedAt := now\<rparr>), False)))"

definition deactivateIfUnwanted :: "poolRuntime \<Rightarrow> gostring \<Rightarrow> bool" where
  "deactivateIfUnwanted pr member \<longleftrightarrow>
     \<not> (pr_waiting pr member > 0 \<or> pr_resident pr = member \<or> pr_swapping pr \<and> pr_swapTarget pr = member)"

subsection \<open>Acquire and release\<close>

text \<open>The result of one pass of the loop: return, with an error or with the release function; or
  wait on a channel.\<close>

datatype loop_result = Return "acquire_error option" | Held nat

definition evaluateSlot ::
    "poolRuntime \<Rightarrow> instant \<Rightarrow> gostring \<Rightarrow> gostring \<Rightarrow> duration \<Rightarrow> poolRuntime \<times> loop_result \<times> swapRun option" where
  "evaluateSlot pr now member mode budget =
     (if \<not> pr_swapping pr \<and> pr_resident pr = member then
        (pr\<lparr>pr_inflight := (pr_inflight pr)(member := pr_inflight pr member + 1)\<rparr>, Return None, None)
      else if \<not> pr_swapping pr \<and> pr_resident pr \<noteq> member then
        (let incumbent = pr_resident pr in
         if incumbent = '''' \<or> pr_inflight pr incumbent = 0 then
           (let (pr', sw) = startSwap pr now incumbent member budget in (pr', Held (pr_change pr'), Some sw))
         else if mode = PoolActivationIfIdle then (pr, Return (Some ErrIncumbentBusy), None)
         else (pr, Held (pr_change pr), None))
      else (pr, Held (pr_change pr), None))"

definition evaluate ::
    "poolRuntime \<Rightarrow> instant \<Rightarrow> gostring \<Rightarrow> gostring \<Rightarrow> duration \<Rightarrow> nat \<Rightarrow> poolRuntime \<times> loop_result \<times> swapRun option" where
  "evaluate pr now member mode budget arrivalGen =
     (case pr_swapErr pr member of
        Some f \<Rightarrow> if sf_gen f \<ge> arrivalGen then (pr, Return (Some (sf_err f)), None) else evaluateSlot pr now member mode budget
      | None \<Rightarrow> evaluateSlot pr now member mode budget)"

text \<open>Entry to \<open>AcquireWithMode\<close> up to the first unlock: reconcile, register, first pass.\<close>

definition registerCaller :: "poolRuntime \<Rightarrow> gostring \<Rightarrow> poolRuntime \<times> nat" where
  "registerCaller pr member =
     (pr\<lparr>pr_waiting := (pr_waiting pr)(member := pr_waiting pr member + 1)\<rparr>,
      if pr_swapping pr then pr_swapGen pr else pr_swapGen pr + 1)"

definition beginAcquire ::
    "(gostring \<Rightarrow> gostring option) \<Rightarrow> duration \<Rightarrow> instant \<Rightarrow> poolRuntime \<Rightarrow> BackendPool \<Rightarrow> gostring
     \<Rightarrow> poolRuntime \<times> nat \<times> loop_result \<times> swapRun option" where
  "beginAcquire phase resyncInterval now pr p mode =
     (let (pr, ok) = reconcileResident phase resyncInterval now pr (pool_Members p);
          (pr, arrivalGen) = registerCaller pr (pool_Member p);
          (pr, res, sw) = evaluate pr now (pool_Member p) mode (pool_SwapBudget p) arrivalGen in
      (pr, arrivalGen, res, sw))"

text \<open>The deferred function; the flag says that it starts \<open>deactivateIfUnwanted\<close>.\<close>

definition leaveHold :: "poolRuntime \<Rightarrow> gostring \<Rightarrow> poolRuntime \<times> bool" where
  "leaveHold pr member =
     (let pr = pr\<lparr>pr_waiting := (pr_waiting pr)(member := pr_waiting pr member - 1)\<rparr> in
      (pr, pr_waiting pr member = 0 \<and> pr_resident pr \<noteq> member))"

definition releaseSlot :: "poolRuntime \<Rightarrow> gostring \<Rightarrow> poolRuntime" where
  "releaseSlot pr member =
     (let pr = (if pr_inflight pr member > 0
                then pr\<lparr>pr_inflight := (pr_inflight pr)(member := pr_inflight pr member - 1)\<rparr> else pr) in
      if pr_inflight pr member = 0 then notify pr else pr)"

section \<open>Interleavings\<close>

text \<open>A request: waiting on a channel; past its return, before the deferred function ran, with an
  error or with the slot; holding the slot; done.\<close>

datatype caller_state = Waiting nat | Leaving "acquire_error option" | Holding | Done "acquire_error option"

record caller =
  ca_member :: gostring
  ca_mode :: gostring
  ca_budget :: duration
  ca_gen :: nat
  ca_state :: caller_state

text \<open>One pool at run time: its state, the requests by number, the swap goroutines, the members
  with a pending \<open>deactivateIfUnwanted\<close>, the cluster and the clock.\<close>

record system =
  sy_pool :: poolRuntime
  sy_callers :: "caller list"
  sy_swaps :: "swapRun list"
  sy_deacts :: "gostring list"
  sy_cluster :: cluster
  sy_now :: instant

definition stateOf :: "loop_result \<Rightarrow> caller_state" where
  "stateOf r = (case r of Return e \<Rightarrow> Leaving e | Held ch \<Rightarrow> Waiting ch)"

definition swapsOf :: "swapRun option \<Rightarrow> swapRun list" where
  "swapsOf o' = (case o' of Some sw \<Rightarrow> [sw] | None \<Rightarrow> [])"

definition dropNth :: "nat \<Rightarrow> 'a list \<Rightarrow> 'a list" where
  "dropNth i xs = take i xs @ drop (Suc i) xs"

inductive proxy_step :: "system \<Rightarrow> system \<Rightarrow> bool" where
  Arrive:
    "beginAcquire (\<lambda>m. Phase (getOK m) (sy_cluster s) m) residentResyncInterval (sy_now s) (sy_pool s) p mode
       = (pr, g, res, sw) \<Longrightarrow> pool_Member p \<noteq> '''' \<Longrightarrow>
     proxy_step s (s\<lparr>sy_pool := pr,
       sy_callers := sy_callers s @ [\<lparr>ca_member = pool_Member p, ca_mode = mode, ca_budget = pool_SwapBudget p,
         ca_gen = g, ca_state = stateOf res\<rparr>],
       sy_swaps := sy_swaps s @ swapsOf sw\<rparr>)"
| Wake:
    "i < length (sy_callers s) \<Longrightarrow> c = sy_callers s ! i \<Longrightarrow> ca_state c = Waiting ch \<Longrightarrow>
     ch < pr_change (sy_pool s) \<Longrightarrow>
     evaluate (sy_pool s) (sy_now s) (ca_member c) (ca_mode c) (ca_budget c) (ca_gen c) = (pr, res, sw) \<Longrightarrow>
     proxy_step s (s\<lparr>sy_pool := pr, sy_callers := (sy_callers s)[i := c\<lparr>ca_state := stateOf res\<rparr>],
       sy_swaps := sy_swaps s @ swapsOf sw\<rparr>)"
| GiveUp:
    "i < length (sy_callers s) \<Longrightarrow> c = sy_callers s ! i \<Longrightarrow> ca_state c = Waiting ch \<Longrightarrow>
     e \<in> {ErrHoldBudgetExceeded, ErrContextCanceled} \<Longrightarrow>
     proxy_step s (s\<lparr>sy_callers := (sy_callers s)[i := c\<lparr>ca_state := Leaving (Some e)\<rparr>]\<rparr>)"
| Leave:
    "i < length (sy_callers s) \<Longrightarrow> c = sy_callers s ! i \<Longrightarrow> ca_state c = Leaving e \<Longrightarrow>
     leaveHold (sy_pool s) (ca_member c) = (pr, spawn) \<Longrightarrow>
     proxy_step s (s\<lparr>sy_pool := pr,
       sy_callers := (sy_callers s)[i := c\<lparr>ca_state := (if e = None then Holding else Done e)\<rparr>],
       sy_deacts := (if spawn then ca_member c # sy_deacts s else sy_deacts s)\<rparr>)"
| Release:
    "i < length (sy_callers s) \<Longrightarrow> c = sy_callers s ! i \<Longrightarrow> ca_state c = Holding \<Longrightarrow>
     proxy_step s (s\<lparr>sy_pool := releaseSlot (sy_pool s) (ca_member c),
       sy_callers := (sy_callers s)[i := c\<lparr>ca_state := Done None\<rparr>]\<rparr>)"
| SwapActivate:
    "j < length (sy_swaps s) \<Longrightarrow> sw = sy_swaps s ! j \<Longrightarrow> sw_stage sw = Activating \<Longrightarrow>
     Activate getOK patchOK (sy_cluster s) (sw_target sw) = (c', ok) \<Longrightarrow>
     proxy_step s (s\<lparr>sy_cluster := c',
       sy_swaps := (sy_swaps s)[j := sw\<lparr>sw_stage := (if ok then Loading else Publishing False)\<rparr>]\<rparr>)"
| SwapReady:
    "j < length (sy_swaps s) \<Longrightarrow> sw = sy_swaps s ! j \<Longrightarrow> sw_stage sw = Loading \<Longrightarrow>
     ok \<longrightarrow> Phase True (sy_cluster s) (sw_target sw) = Some modelReadyPhase \<Longrightarrow>
     proxy_step s (s\<lparr>sy_swaps := (sy_swaps s)[j := sw\<lparr>sw_stage := Publishing ok\<rparr>]\<rparr>)"
| SwapPublish:
    "j < length (sy_swaps s) \<Longrightarrow> sw = sy_swaps s ! j \<Longrightarrow> sw_stage sw = Publishing ok \<Longrightarrow>
     ctx = CtxDeadline \<longrightarrow> sw_deadline sw \<le> sy_now s - sw_start sw \<Longrightarrow>
     publishSwap (sy_pool s) (sy_now s) (sw_gen sw) (sw_target sw) ok ctx = (pr, down) \<Longrightarrow>
     proxy_step s (s\<lparr>sy_pool := pr, sy_swaps := dropNth j (sy_swaps s),
       sy_cluster := (if down then fst (Deactivate getOK patchOK (sy_cluster s) (sw_target sw)) else sy_cluster s)\<rparr>)"
| RunDeactivate:
    "m \<in> set (sy_deacts s) \<Longrightarrow>
     proxy_step s (s\<lparr>sy_deacts := remove1 m (sy_deacts s),
       sy_cluster := (if deactivateIfUnwanted (sy_pool s) m
                      then fst (Deactivate getOK patchOK (sy_cluster s) m) else sy_cluster s)\<rparr>)"
| Invalidate:
    "proxy_step s (s\<lparr>sy_pool := invalidatePool (sy_pool s)\<rparr>)"

text \<open>Everything else: time passes and other controllers write the cluster.\<close>

inductive world_step :: "system \<Rightarrow> system \<Rightarrow> bool" where
  "sy_now s \<le> now \<Longrightarrow> world_step s (s\<lparr>sy_now := now, sy_cluster := c\<rparr>)"

definition pool_step :: "system \<Rightarrow> system \<Rightarrow> bool" where
  "pool_step s s' \<longleftrightarrow> proxy_step s s' \<or> world_step s s'"

definition pool_start :: "system \<Rightarrow> bool" where
  "pool_start s \<longleftrightarrow> (\<exists>p. sy_pool s = newRuntime p) \<and> sy_callers s = [] \<and> sy_swaps s = [] \<and> sy_deacts s = []"

section \<open>The invariant\<close>

definition registered :: "gostring \<Rightarrow> caller \<Rightarrow> bool" where
  "registered m c \<longleftrightarrow> ca_member c = m \<and> (case ca_state c of Waiting _ \<Rightarrow> True | Leaving _ \<Rightarrow> True | _ \<Rightarrow> False)"

definition holding :: "gostring \<Rightarrow> caller \<Rightarrow> bool" where
  "holding m c \<longleftrightarrow> ca_member c = m \<and> ca_state c \<in> {Leaving None, Holding}"

definition tally :: "('a \<Rightarrow> bool) \<Rightarrow> 'a list \<Rightarrow> int" where
  "tally P xs = int (length (filter P xs))"

text \<open>Somebody is due to wake the waiters: a swap is running, or the resident is busy.\<close>

definition pending :: "poolRuntime \<Rightarrow> bool" where
  "pending pr \<longleftrightarrow> pr_swapping pr \<or> pr_resident pr \<noteq> '''' \<and> pr_inflight pr (pr_resident pr) > 0"

definition counts_match :: "poolRuntime \<Rightarrow> caller list \<Rightarrow> bool" where
  "counts_match pr cs \<longleftrightarrow>
     (\<forall>m. pr_waiting pr m = tally (registered m) cs) \<and> (\<forall>m. pr_inflight pr m = tally (holding m) cs)"

definition one_swap :: "poolRuntime \<Rightarrow> swapRun list \<Rightarrow> bool" where
  "one_swap pr sws \<longleftrightarrow>
     (if pr_swapping pr then
        (\<exists>sw. sws = [sw] \<and> sw_gen sw = pr_swapGen pr \<and> sw_target sw = pr_swapTarget pr) \<and>
        pr_swapTarget pr \<noteq> pr_resident pr \<and> pr_swapTarget pr \<noteq> '''' \<and>
        (pr_resident pr = '''' \<or> pr_inflight pr (pr_resident pr) = 0)
      else sws = [])"

definition failures_old :: "poolRuntime \<Rightarrow> bool" where
  "failures_old pr \<longleftrightarrow> (\<forall>m f. pr_swapErr pr m = Some f \<longrightarrow>
     sf_gen f \<le> pr_swapGen pr \<and> (pr_swapping pr \<longrightarrow> sf_gen f < pr_swapGen pr))"

definition caller_ok :: "poolRuntime \<Rightarrow> caller \<Rightarrow> bool" where
  "caller_ok pr c \<longleftrightarrow> ca_member c \<noteq> '''' \<and>
     ca_gen c \<le> pr_swapGen pr + (if pr_swapping pr then 0 else 1) \<and>
     (\<forall>ch. ca_state c = Waiting ch \<longrightarrow> ch \<le> pr_change pr \<and>
        (ch = pr_change pr \<longrightarrow> ca_mode c = PoolActivationIfIdle \<longrightarrow> pr_swapping pr))"

definition wakeups_due :: "poolRuntime \<Rightarrow> caller list \<Rightarrow> bool" where
  "wakeups_due pr cs \<longleftrightarrow> ((\<exists>c \<in> set cs. ca_state c = Waiting (pr_change pr)) \<longrightarrow> pending pr)"

definition pool_inv :: "system \<Rightarrow> bool" where
  "pool_inv s \<longleftrightarrow> counts_match (sy_pool s) (sy_callers s) \<and> one_swap (sy_pool s) (sy_swaps s) \<and>
     failures_old (sy_pool s) \<and> (\<forall>c \<in> set (sy_callers s). caller_ok (sy_pool s) c) \<and>
     wakeups_due (sy_pool s) (sy_callers s)"

lemma tally_append [simp]: "tally P (xs @ ys) = tally P xs + tally P ys"
  by (simp add: tally_def)

lemma tally_simps [simp]: "tally P [] = 0" "tally P (x # xs) = of_bool (P x) + tally P xs"
  by (simp_all add: tally_def)

lemma tally_nonneg [simp]: "0 \<le> tally P xs"
  by (simp add: tally_def)

lemma tally_update: "i < length xs \<Longrightarrow> tally P (xs[i := y]) = tally P xs - of_bool (P (xs ! i)) + of_bool (P y)"
proof (induction xs arbitrary: i)
  case Nil
  then show ?case by simp
next
  case (Cons x xs)
  then show ?case by (cases i) simp_all
qed

lemma tally_pos: "tally P xs > 0 \<longleftrightarrow> (\<exists>x \<in> set xs. P x)"
  by (simp add: tally_def filter_empty_conv)


lemma registered_state [simp]:
  "registered m (c\<lparr>ca_state := Waiting ch\<rparr>) \<longleftrightarrow> ca_member c = m"
  "registered m (c\<lparr>ca_state := Leaving e\<rparr>) \<longleftrightarrow> ca_member c = m"
  "registered m (c\<lparr>ca_state := Holding\<rparr>) \<longleftrightarrow> False"
  "registered m (c\<lparr>ca_state := Done e\<rparr>) \<longleftrightarrow> False"
  by (simp_all add: registered_def)

lemma holding_state [simp]:
  "holding m (c\<lparr>ca_state := Waiting ch\<rparr>) \<longleftrightarrow> False"
  "holding m (c\<lparr>ca_state := Leaving e\<rparr>) \<longleftrightarrow> e = None \<and> ca_member c = m"
  "holding m (c\<lparr>ca_state := Holding\<rparr>) \<longleftrightarrow> ca_member c = m"
  "holding m (c\<lparr>ca_state := Done e\<rparr>) \<longleftrightarrow> False"
  by (auto simp: holding_def)

text \<open>The four outcomes of a pass of the loop.\<close>

lemma evaluate_cases:
  assumes "evaluate pr now member mode budget g = (pr', res, sw)"
  obtains
    (failed) f where "pr_swapErr pr member = Some f" "g \<le> sf_gen f" "pr' = pr" "res = Return (Some (sf_err f))" "sw = None"
  | (served) "\<not> pr_swapping pr" "pr_resident pr = member" "res = Return None" "sw = None"
      "pr' = pr\<lparr>pr_inflight := (pr_inflight pr)(member := pr_inflight pr member + 1)\<rparr>"
  | (started) run where "\<not> pr_swapping pr" "pr_resident pr \<noteq> member" "pr_resident pr = '''' \<or> pr_inflight pr (pr_resident pr) = 0"
      "startSwap pr now (pr_resident pr) member budget = (pr', run)" "res = Held (pr_change pr')" "sw = Some run"
  | (busy) "\<not> pr_swapping pr" "pr_resident pr \<noteq> ''''" "pr_inflight pr (pr_resident pr) \<noteq> 0"
      "mode = PoolActivationIfIdle" "pr' = pr" "res = Return (Some ErrIncumbentBusy)" "sw = None"
  | (held) "pr_swapping pr \<or> pr_resident pr \<noteq> '''' \<and> pr_inflight pr (pr_resident pr) \<noteq> 0 \<and> mode \<noteq> PoolActivationIfIdle"
      "pr' = pr" "res = Held (pr_change pr)" "sw = None"
proof (cases "\<exists>f. pr_swapErr pr member = Some f \<and> g \<le> sf_gen f")
  case True
  then obtain f where "pr_swapErr pr member = Some f" "g \<le> sf_gen f" by blast
  with assms show thesis by (intro failed [of f]) (simp_all add: evaluate_def)
next
  case False
  with assms have eq: "evaluateSlot pr now member mode budget = (pr', res, sw)"
    by (auto simp: evaluate_def split: option.splits)
  obtain prs run where st: "startSwap pr now (pr_resident pr) member budget = (prs, run)"
    by (cases "startSwap pr now (pr_resident pr) member budget")
  consider (a) "pr_swapping pr" | (b) "\<not> pr_swapping pr" "pr_resident pr = member"
    | (c) "\<not> pr_swapping pr" "pr_resident pr \<noteq> member" "pr_resident pr = '''' \<or> pr_inflight pr (pr_resident pr) = 0"
    | (d) "\<not> pr_swapping pr" "pr_resident pr \<noteq> member" "pr_resident pr \<noteq> ''''" "pr_inflight pr (pr_resident pr) \<noteq> 0"
    by blast
  then show thesis
  proof cases
    case a
    with eq show thesis by (intro held) (auto simp: evaluateSlot_def)
  next
    case b
    with eq show thesis by (intro served) (auto simp: evaluateSlot_def)
  next
    case c
    with eq st show thesis by (intro started [of run]) (auto simp: evaluateSlot_def)
  next
    case d
    then show thesis
    proof (cases "mode = PoolActivationIfIdle")
      case True
      with d eq show thesis by (intro busy) (auto simp: evaluateSlot_def)
    next
      case False
      with d eq show thesis by (intro held) (auto simp: evaluateSlot_def)
    qed
  qed
qed

lemma startSwap_fields:
  assumes "startSwap pr now inc target budget = (pr', run)"
  shows "pr_swapping pr'" "pr_swapTarget pr' = target" "pr_swapGen pr' = Suc (pr_swapGen pr)"
    "pr_change pr' = Suc (pr_change pr)" "pr_resident pr' = pr_resident pr" "pr_inflight pr' = pr_inflight pr"
    "pr_waiting pr' = pr_waiting pr" "pr_swapErr pr' = pr_swapErr pr"
    "sw_gen run = pr_swapGen pr'" "sw_target run = target"
  using assms by (auto simp: startSwap_def notify_def Let_def)

text \<open>A caller in the loop: counted as waiting and not as in flight.\<close>

definition inLoop :: "caller \<Rightarrow> bool" where
  "inLoop c \<longleftrightarrow> registered (ca_member c) c \<and> \<not> holding (ca_member c) c"

lemma inLoop_counts: "inLoop c \<Longrightarrow> registered m c \<longleftrightarrow> ca_member c = m" "inLoop c \<Longrightarrow> \<not> holding m c"
  by (auto simp: inLoop_def registered_def holding_def)

lemma inLoop_waiting: "ca_state c = Waiting ch \<Longrightarrow> inLoop c"
  by (simp add: inLoop_def registered_def holding_def)

lemma stateOf_simps [simp]: "stateOf (Return e) = Leaving e" "stateOf (Held ch) = Waiting ch"
  by (simp_all add: stateOf_def)

lemma swapsOf_simps [simp]: "swapsOf None = []" "swapsOf (Some sw) = [sw]"
  by (simp_all add: swapsOf_def)

text \<open>What every state of the pool satisfies but for the wakeups.\<close>

definition core_inv :: "poolRuntime \<Rightarrow> caller list \<Rightarrow> swapRun list \<Rightarrow> bool" where
  "core_inv pr cs sws \<longleftrightarrow> counts_match pr cs \<and> one_swap pr sws \<and> failures_old pr \<and> (\<forall>c \<in> set cs. caller_ok pr c)"

lemma pool_inv_core:
  "pool_inv s \<longleftrightarrow> core_inv (sy_pool s) (sy_callers s) (sy_swaps s) \<and> wakeups_due (sy_pool s) (sy_callers s)"
  by (auto simp: pool_inv_def core_inv_def)

lemma caller_update:
  assumes "\<forall>c \<in> set cs. caller_ok pr c" and "caller_ok pr x"
  shows "\<forall>c \<in> set (cs[i := x]). caller_ok pr c"
  using assms set_update_subset_insert [of cs i x] by blast

lemma evaluate_counts:
  assumes "evaluate pr now (ca_member c) mode budget g = (pr', res, sw)" and "counts_match pr cs"
    and "i < length cs" "c = cs ! i" "inLoop c"
  shows "counts_match pr' (cs[i := c\<lparr>ca_state := stateOf res\<rparr>])"
  using assms(1)
proof (cases rule: evaluate_cases)
  case (started run)
  note startSwap_fields [OF started(4)]
  with assms(2-) started(5) show ?thesis
    by (simp add: counts_match_def tally_update inLoop_counts)
qed (use assms(2-) in \<open>auto simp: counts_match_def tally_update inLoop_counts\<close>)

lemma evaluate_one_swap:
  assumes "evaluate pr now member mode budget g = (pr', res, sw)" and "one_swap pr sws" and "member \<noteq> ''''"
  shows "one_swap pr' (sws @ swapsOf sw)"
  using assms(1)
proof (cases rule: evaluate_cases)
  case (started run)
  with startSwap_fields [OF started(4)] assms(2,3) show ?thesis by (auto simp: one_swap_def)
qed (use assms(2,3) in \<open>auto simp: one_swap_def\<close>)

lemma evaluate_failures:
  assumes "evaluate pr now member mode budget g = (pr', res, sw)" and "failures_old pr"
  shows "failures_old pr'"
  using assms(1)
proof (cases rule: evaluate_cases)
  case (started run)
  with startSwap_fields [OF started(4)] assms(2) show ?thesis by (fastforce simp: failures_old_def)
qed (use assms(2) in \<open>auto simp: failures_old_def\<close>)

lemma evaluate_caller_ok:
  assumes "evaluate pr now member mode budget g = (pr', res, sw)" and "caller_ok pr x"
  shows "caller_ok pr' x"
  using assms(1)
proof (cases rule: evaluate_cases)
  case (started run)
  with startSwap_fields [OF started(4)] assms(2) show ?thesis by (auto simp: caller_ok_def)
qed (use assms(2) in \<open>auto simp: caller_ok_def\<close>)

lemma evaluate_self_ok:
  assumes "evaluate pr now (ca_member c) (ca_mode c) budget g = (pr', res, sw)" and "caller_ok pr c"
  shows "caller_ok pr' (c\<lparr>ca_state := stateOf res\<rparr>)"
  using assms(1)
proof (cases rule: evaluate_cases)
  case (started run)
  with startSwap_fields [OF started(4)] assms(2) show ?thesis by (auto simp: caller_ok_def)
qed (use assms(2) in \<open>auto simp: caller_ok_def\<close>)

lemma evaluate_core:
  assumes "evaluate pr now (ca_member c) (ca_mode c) budget g = (pr', res, sw)" and "core_inv pr cs sws"
    and "i < length cs" "c = cs ! i" "inLoop c"
  shows "core_inv pr' (cs[i := c\<lparr>ca_state := stateOf res\<rparr>]) (sws @ swapsOf sw)"
proof -
  have c: "caller_ok pr c" using assms(2-4) by (auto simp: core_inv_def)
  then have "ca_member c \<noteq> ''''" by (simp add: caller_ok_def)
  with assms evaluate_counts [OF assms(1)] evaluate_one_swap [OF assms(1)] evaluate_failures [OF assms(1)]
    caller_update [of cs pr' "c\<lparr>ca_state := stateOf res\<rparr>" i] evaluate_caller_ok [OF assms(1)]
    evaluate_self_ok [OF assms(1) c]
  show ?thesis by (simp add: core_inv_def)
qed

lemma inflight_pos: "counts_match pr cs \<Longrightarrow> pr_inflight pr m \<noteq> 0 \<Longrightarrow> pr_inflight pr m > 0"
  by (auto simp: counts_match_def order_less_le)

lemma evaluate_due:
  assumes "evaluate pr now (ca_member c) mode budget g = (pr', res, sw)" and "core_inv pr cs sws"
    and "i < length cs" "c = cs ! i"
    and "wakeups_due pr cs \<or> (\<forall>f. pr_swapErr pr (ca_member c) = Some f \<longrightarrow> sf_gen f < g)"
  shows "wakeups_due pr' (cs[i := c\<lparr>ca_state := stateOf res\<rparr>])"
  using assms(1)
proof (cases rule: evaluate_cases)
  case (failed f)
  then have "wakeups_due pr cs" using assms(5) by auto
  with failed show ?thesis
    using set_update_subset_insert [of cs i "c\<lparr>ca_state := Leaving (Some (sf_err f))\<rparr>"]
    by (auto simp: wakeups_due_def)
next
  case served
  have "pr_inflight pr (ca_member c) \<ge> 0" "ca_member c \<noteq> ''''"
    using assms(2-4) by (auto simp: core_inv_def counts_match_def caller_ok_def)
  with served show ?thesis by (simp add: wakeups_due_def pending_def)
next
  case (started run)
  with startSwap_fields [OF started(4)] show ?thesis by (simp add: wakeups_due_def pending_def)
next
  case busy
  then show ?thesis using assms(2) inflight_pos by (auto simp: wakeups_due_def pending_def core_inv_def)
next
  case held
  then show ?thesis using assms(2) inflight_pos by (auto simp: wakeups_due_def pending_def core_inv_def)
qed

section \<open>Every step keeps the invariant\<close>

text \<open>Reconciling changes the believed resident and the time of the check, and only while no
  swap is running.\<close>

lemma adoptReady_frame:
  assumes "adoptReady phase pr members = (pr', ok)"
  shows "pr_swapping pr' = pr_swapping pr" "pr_swapTarget pr' = pr_swapTarget pr" "pr_swapGen pr' = pr_swapGen pr"
    "pr_swapErr pr' = pr_swapErr pr" "pr_inflight pr' = pr_inflight pr" "pr_waiting pr' = pr_waiting pr"
    "pr_change pr' = pr_change pr"
  using assms by (auto simp: adoptReady_def split: option.splits)

lemma reconcile_frame:
  assumes "reconcileResident phase interval now pr members = (pr', ok)"
  shows "pr_swapping pr' = pr_swapping pr" "pr_swapTarget pr' = pr_swapTarget pr" "pr_swapGen pr' = pr_swapGen pr"
    "pr_swapErr pr' = pr_swapErr pr" "pr_inflight pr' = pr_inflight pr" "pr_waiting pr' = pr_waiting pr"
    "pr_change pr' = pr_change pr" "pr_swapping pr \<Longrightarrow> pr' = pr"
  using assms
  by (auto simp: reconcileResident_def Let_def split: if_splits option.splits dest: adoptReady_frame)

lemma core_inv_reconcile:
  assumes "core_inv pr cs sws" and "reconcileResident phase interval now pr members = (pr', ok)"
  shows "core_inv pr' cs sws"
proof (cases "pr_swapping pr")
  case True
  with reconcile_frame [OF assms(2)] assms(1) show ?thesis by simp
next
  case False
  with reconcile_frame [OF assms(2)] assms(1) show ?thesis
    by (simp add: core_inv_def counts_match_def one_swap_def failures_old_def caller_ok_def)
qed

text \<open>Registering: the new caller's generation is above every recorded failure.\<close>

definition newcomer :: "gostring \<Rightarrow> gostring \<Rightarrow> duration \<Rightarrow> nat \<Rightarrow> caller" where
  "newcomer member mode budget g =
     \<lparr>ca_member = member, ca_mode = mode, ca_budget = budget, ca_gen = g, ca_state = Leaving (Some ErrIncumbentBusy)\<rparr>"

lemma newcomer_inLoop: "inLoop (newcomer member mode budget g)"
  by (simp add: inLoop_def newcomer_def registered_def holding_def)

lemma core_inv_register:
  assumes "core_inv pr cs sws" and "registerCaller pr member = (pr', g)" and "member \<noteq> ''''"
  shows "core_inv pr' (cs @ [newcomer member mode budget g]) sws"
  using assms
  by (auto simp: core_inv_def registerCaller_def counts_match_def one_swap_def failures_old_def
      caller_ok_def newcomer_def registered_def holding_def split: if_splits)

lemma register_fresh:
  assumes "failures_old pr" and "registerCaller pr member = (pr', g)" and "pr_swapErr pr' m = Some f"
  shows "sf_gen f < g"
  using assms by (fastforce simp: registerCaller_def failures_old_def split: if_splits)

text \<open>Arrival. The new caller's generation is above every recorded failure, so its first pass
  never returns one.\<close>

lemma beginAcquire_inv:
  assumes "beginAcquire phase interval now pr p mode = (pr', g, res, sw)" and "core_inv pr cs sws" and "pool_Member p \<noteq> ''''"
  defines "c \<equiv> \<lparr>ca_member = pool_Member p, ca_mode = mode, ca_budget = pool_SwapBudget p, ca_gen = g, ca_state = stateOf res\<rparr>"
  shows "core_inv pr' (cs @ [c]) (sws @ swapsOf sw)" and "wakeups_due pr' (cs @ [c])"
    and "\<And>e. res = Return (Some e) \<Longrightarrow> e = ErrIncumbentBusy \<and> mode = PoolActivationIfIdle"
proof -
  obtain pr1 ok where rec: "reconcileResident phase interval now pr (pool_Members p) = (pr1, ok)"
    by (cases "reconcileResident phase interval now pr (pool_Members p)")
  obtain pr2 g2 where reg: "registerCaller pr1 (pool_Member p) = (pr2, g2)" by (cases "registerCaller pr1 (pool_Member p)")
  define c0 where "c0 = newcomer (pool_Member p) mode (pool_SwapBudget p) g"
  have ev: "evaluate pr2 now (ca_member c0) (ca_mode c0) (pool_SwapBudget p) g = (pr', res, sw)" and g: "g2 = g"
    using assms(1) rec reg by (auto simp: beginAcquire_def c0_def newcomer_def split: prod.splits)
  have core1: "core_inv pr1 cs sws" by (rule core_inv_reconcile [OF assms(2) rec])
  have core2: "core_inv pr2 (cs @ [c0]) sws"
    unfolding c0_def by (rule core_inv_register [OF core1 reg [unfolded g] assms(3)])
  have fresh: "sf_gen f < g" if "pr_swapErr pr2 m = Some f" for m f
    using register_fresh [OF _ reg [unfolded g] that] core1 by (simp add: core_inv_def)
  have upd: "c0\<lparr>ca_state := stateOf res\<rparr> = c" by (simp add: c0_def newcomer_def c_def)
  have loop: "inLoop c0" unfolding c0_def by (rule newcomer_inLoop)
  from evaluate_core [OF ev core2, of "length cs"] loop upd show "core_inv pr' (cs @ [c]) (sws @ swapsOf sw)" by simp
  from evaluate_due [OF ev core2, of "length cs"] fresh upd show "wakeups_due pr' (cs @ [c])" by simp
  show "e = ErrIncumbentBusy \<and> mode = PoolActivationIfIdle" if "res = Return (Some e)" for e
    using ev
  proof (cases rule: evaluate_cases)
    case (failed f)
    with fresh show ?thesis by fastforce
  qed (use that in \<open>auto simp: c0_def newcomer_def\<close>)
qed

lemma notify_simps [simp]:
  "pr_change (notify pr) = Suc (pr_change pr)" "pr_swapping (notify pr) = pr_swapping pr"
  "pr_swapTarget (notify pr) = pr_swapTarget pr" "pr_swapGen (notify pr) = pr_swapGen pr"
  "pr_swapErr (notify pr) = pr_swapErr pr" "pr_inflight (notify pr) = pr_inflight pr"
  "pr_waiting (notify pr) = pr_waiting pr" "pr_resident (notify pr) = pr_resident pr"
  by (simp_all add: notify_def)

lemma caller_ok_notify: "caller_ok pr c \<Longrightarrow> caller_ok (notify pr) c"
  by (auto simp: caller_ok_def)

lemma wakeups_due_above: "\<forall>c \<in> set cs. \<forall>ch. ca_state c = Waiting ch \<longrightarrow> ch < pr_change pr \<Longrightarrow> wakeups_due pr cs"
  by (auto simp: wakeups_due_def)

lemma caller_ok_state: "caller_ok pr c \<Longrightarrow> st \<notin> range Waiting \<Longrightarrow> caller_ok pr (c\<lparr>ca_state := st\<rparr>)"
  by (auto simp: caller_ok_def)

lemma wakeups_due_state:
  "wakeups_due pr cs \<Longrightarrow> ca_state x \<notin> range Waiting \<Longrightarrow> wakeups_due pr (cs[i := x])"
  using set_update_subset_insert [of cs i x] by (fastforce simp: wakeups_due_def)

lemma leaveHold_inv:
  assumes "leaveHold pr (ca_member c) = (pr', spawn)" and "core_inv pr cs sws" and "wakeups_due pr cs"
    and "i < length cs" "c = cs ! i" "ca_state c = Leaving e"
  defines "x \<equiv> c\<lparr>ca_state := (if e = None then Holding else Done e)\<rparr>"
  shows "core_inv pr' (cs[i := x]) sws" and "wakeups_due pr' (cs[i := x])"
proof -
  have pr': "pr' = pr\<lparr>pr_waiting := (pr_waiting pr)(ca_member c := pr_waiting pr (ca_member c) - 1)\<rparr>"
    using assms(1) by (simp add: leaveHold_def Let_def)
  have c: "registered m c \<longleftrightarrow> ca_member c = m" "holding m c \<longleftrightarrow> e = None \<and> ca_member c = m" for m
    using assms(6) by (auto simp: registered_def holding_def)
  have "\<forall>y \<in> set (cs[i := x]). caller_ok pr y"
    using assms(2,4,5) by (intro caller_update) (auto simp: core_inv_def x_def intro!: caller_ok_state)
  with assms(2,4,5) c show "core_inv pr' (cs[i := x]) sws"
    by (auto simp: core_inv_def counts_match_def one_swap_def failures_old_def caller_ok_def pr' x_def tally_update)
  have "wakeups_due pr (cs[i := x])" using assms(3) by (rule wakeups_due_state) (auto simp: x_def)
  then show "wakeups_due pr' (cs[i := x])" by (simp add: wakeups_due_def pr' pending_def)
qed

lemma releaseSlot_inv:
  assumes "core_inv pr cs sws" and "wakeups_due pr cs" and "i < length cs" "c = cs ! i" "ca_state c = Holding"
  defines "x \<equiv> c\<lparr>ca_state := Done None\<rparr>"
  shows "core_inv (releaseSlot pr (ca_member c)) (cs[i := x]) sws"
    and "wakeups_due (releaseSlot pr (ca_member c)) (cs[i := x])"
proof -
  let ?m = "ca_member c"
  define pr1 where "pr1 = pr\<lparr>pr_inflight := (pr_inflight pr)(?m := pr_inflight pr ?m - 1)\<rparr>"
  have c: "\<not> registered m c" "holding m c \<longleftrightarrow> ?m = m" for m using assms(5) by (auto simp: registered_def holding_def)
  then have "tally (holding ?m) cs > 0" unfolding tally_pos using assms(3,4) by (metis nth_mem)
  then have pos: "pr_inflight pr ?m > 0" using assms(1) by (simp add: core_inv_def counts_match_def)
  then have rel: "releaseSlot pr ?m = (if pr_inflight pr1 ?m = 0 then notify pr1 else pr1)"
    by (simp add: releaseSlot_def pr1_def)
  have ok: "\<forall>y \<in> set (cs[i := x]). caller_ok pr y"
    using assms(1,3,4) by (intro caller_update) (auto simp: core_inv_def x_def intro!: caller_ok_state)
  then have ok1: "\<forall>y \<in> set (cs[i := x]). caller_ok pr1 y" by (simp add: caller_ok_def pr1_def)
  have idle: "pr_swapping pr \<Longrightarrow> pr_resident pr = '''' \<or> ?m \<noteq> pr_resident pr"
    using assms(1) pos by (auto simp: core_inv_def one_swap_def)
  have core1: "core_inv pr1 (cs[i := x]) sws"
    unfolding core_inv_def
  proof (intro conjI ok1)
    show "counts_match pr1 (cs[i := x])"
      using assms(1,3,4) c by (simp add: core_inv_def counts_match_def pr1_def x_def tally_update)
    show "one_swap pr1 sws" using assms(1) idle by (auto simp: core_inv_def one_swap_def pr1_def)
    show "failures_old pr1" using assms(1) by (simp add: core_inv_def failures_old_def pr1_def)
  qed
  then show "core_inv (releaseSlot pr ?m) (cs[i := x]) sws"
    by (auto simp: rel core_inv_def counts_match_def one_swap_def failures_old_def intro: caller_ok_notify)
  have "wakeups_due pr (cs[i := x])" using assms(2) by (rule wakeups_due_state) (simp add: x_def image_iff)
  then have "wakeups_due pr1 (cs[i := x])" if "pr_inflight pr1 ?m \<noteq> 0"
    using that pos by (auto simp: wakeups_due_def pending_def pr1_def)
  moreover have "wakeups_due (notify pr1) (cs[i := x])"
    using ok1 by (intro wakeups_due_above) (auto simp: caller_ok_def)
  ultimately show "wakeups_due (releaseSlot pr ?m) (cs[i := x])" by (simp add: rel)
qed

text \<open>The end of a swap. There is never a second swap goroutine, so the one that publishes is the
  one the pool waits for.\<close>

lemma live_swap:
  assumes "one_swap pr sws" and "j < length sws"
  shows "pr_swapping pr" "sws = [sws ! j]" "sw_gen (sws ! j) = pr_swapGen pr" "sw_target (sws ! j) = pr_swapTarget pr"
  using assms by (auto simp: one_swap_def split: if_splits)

lemma publishSwap_fields:
  assumes "publishSwap pr now (pr_swapGen pr) target ok ctx = (pr', down)"
  shows "\<not> pr_swapping pr'" "pr_swapGen pr' = pr_swapGen pr" "pr_change pr' = Suc (pr_change pr)"
    "pr_inflight pr' = pr_inflight pr" "pr_waiting pr' = pr_waiting pr"
    "pr_resident pr' = (if ok then target else pr_resident pr)"
    "down \<longleftrightarrow> \<not> ok \<and> ctx \<noteq> CtxCanceled"
    "pr_swapErr pr' = (if down then (pr_swapErr pr)(target \<mapsto> \<lparr>sf_gen = pr_swapGen pr,
       sf_err = (if ctx = CtxDeadline then ErrSwapDeadlineExceeded target else ErrSwapFailed target)\<rparr>) else pr_swapErr pr)"
  using assms by (auto simp: publishSwap_def Let_def split: if_splits ctx_err.splits)

lemma publishSwap_inv:
  assumes "core_inv pr cs sws" and "j < length sws" "sw = sws ! j"
    and "publishSwap pr now (sw_gen sw) (sw_target sw) ok ctx = (pr', down)"
  shows "core_inv pr' cs (dropNth j sws)" and "wakeups_due pr' cs"
proof -
  have os: "one_swap pr sws" using assms(1) by (simp add: core_inv_def)
  note live = live_swap [OF os assms(2)]
  obtain y where y: "sws = [y]" using live(2) by blast
  then have empty': "dropNth j sws = []" using assms(2) by (simp add: dropNth_def)
  note f = publishSwap_fields [OF assms(4) [unfolded assms(3) live(3)]]
  have callers: "\<forall>c \<in> set cs. caller_ok pr' c \<and> (\<forall>ch. ca_state c = Waiting ch \<longrightarrow> ch < pr_change pr')"
    using assms(1) live(1) f by (fastforce simp: core_inv_def caller_ok_def)
  then show "core_inv pr' cs (dropNth j sws)"
    using assms(1) f live(1) empty'
    by (auto simp: core_inv_def counts_match_def one_swap_def failures_old_def)
  show "wakeups_due pr' cs" using callers by (intro wakeups_due_above) blast
qed

lemma core_inv_stage:
  assumes "core_inv pr cs sws" and "j < length sws"
  shows "core_inv pr cs (sws[j := (sws ! j)\<lparr>sw_stage := st\<rparr>])"
proof -
  have os: "one_swap pr sws" using assms(1) by (simp add: core_inv_def)
  obtain y where y: "sws = [y]" using live_swap(2) [OF os assms(2)] by blast
  then show ?thesis using assms live_swap [OF os assms(2)] by (simp add: core_inv_def one_swap_def)
qed

lemma proxy_step_inv: "proxy_step s s' \<Longrightarrow> pool_inv s \<Longrightarrow> pool_inv s'"
proof (induction rule: proxy_step.induct)
  case (Arrive getOK s p mode pr g res sw)
  then have core: "core_inv (sy_pool s) (sy_callers s) (sy_swaps s)" by (simp add: pool_inv_core)
  show ?case using beginAcquire_inv(1,2) [OF Arrive(1) core Arrive(2)] by (simp add: pool_inv_core)
next
  case (Wake i s c ch pr res sw)
  then have core: "core_inv (sy_pool s) (sy_callers s) (sy_swaps s)" and due: "wakeups_due (sy_pool s) (sy_callers s)"
    by (simp_all add: pool_inv_core)
  show ?case
    using evaluate_core [OF Wake(5) core Wake(1,2) inLoop_waiting [OF Wake(3)]]
      evaluate_due [OF Wake(5) core Wake(1,2) disjI1 [OF due]] by (simp add: pool_inv_core)
next
  case (GiveUp i s c ch e)
  let ?x = "c\<lparr>ca_state := Leaving (Some e)\<rparr>"
  have c: "caller_ok (sy_pool s) c" "\<forall>c \<in> set (sy_callers s). caller_ok (sy_pool s) c"
    using GiveUp by (auto simp: pool_inv_def)
  have "counts_match (sy_pool s) ((sy_callers s)[i := ?x])"
    using GiveUp inLoop_counts [OF inLoop_waiting [OF GiveUp(3)]] by (simp add: pool_inv_def counts_match_def tally_update)
  moreover have "\<forall>c \<in> set ((sy_callers s)[i := ?x]). caller_ok (sy_pool s) c"
    using c by (intro caller_update caller_ok_state) auto
  moreover have "wakeups_due (sy_pool s) ((sy_callers s)[i := ?x])"
    using GiveUp(5) by (intro wakeups_due_state) (auto simp: pool_inv_def)
  ultimately show ?case using GiveUp(5) by (simp add: pool_inv_def)
next
  case (Leave i s c e pr spawn)
  then have core: "core_inv (sy_pool s) (sy_callers s) (sy_swaps s)" and due: "wakeups_due (sy_pool s) (sy_callers s)"
    by (simp_all add: pool_inv_core)
  show ?case using leaveHold_inv [OF Leave(4) core due Leave(1-3)] by (simp add: pool_inv_core)
next
  case (Release i s c)
  then have core: "core_inv (sy_pool s) (sy_callers s) (sy_swaps s)" and due: "wakeups_due (sy_pool s) (sy_callers s)"
    by (simp_all add: pool_inv_core)
  show ?case using releaseSlot_inv [OF core due Release(1-3)] by (simp add: pool_inv_core)
next
  case (SwapActivate j s sw getOK patchOK c' ok)
  then show ?case by (auto simp: pool_inv_core intro!: core_inv_stage)
next
  case (SwapReady j s sw ok)
  then show ?case by (auto simp: pool_inv_core intro!: core_inv_stage)
next
  case (SwapPublish j s sw ok ctx pr down getOK patchOK)
  then have core: "core_inv (sy_pool s) (sy_callers s) (sy_swaps s)" by (simp add: pool_inv_core)
  show ?case using publishSwap_inv [OF core SwapPublish(1,2,5)] by (simp add: pool_inv_core)
next
  case (RunDeactivate m s getOK patchOK)
  then show ?case by (simp add: pool_inv_def)
next
  case (Invalidate s)
  then show ?case
    by (auto simp: pool_inv_def invalidatePool_def counts_match_def one_swap_def failures_old_def caller_ok_def
        wakeups_due_def pending_def)
qed

lemma pool_start_inv: "pool_start s \<Longrightarrow> pool_inv s"
  by (auto simp: pool_start_def pool_inv_def newRuntime_def counts_match_def one_swap_def failures_old_def wakeups_due_def)

lemma pool_step_inv: "pool_inv s \<Longrightarrow> pool_step s s' \<Longrightarrow> pool_inv s'"
  unfolding pool_step_def using proxy_step_inv by (auto elim!: world_step.cases simp: pool_inv_def)

interpretation swaps: step_invariant pool_start pool_step pool_inv
  by unfold_locales (auto intro: pool_start_inv pool_step_inv)

lemma pool_inv_reachable: "pool_start s0 \<Longrightarrow> pool_step\<^sup>*\<^sup>* s0 s \<Longrightarrow> pool_inv s"
  by (rule swaps.holds_reachable)

section \<open>Failures reach the callers that waited for them\<close>

definition told :: "poolRuntime \<Rightarrow> gostring \<Rightarrow> nat \<Rightarrow> bool" where
  "told pr m g \<longleftrightarrow> (\<exists>f. pr_swapErr pr m = Some f \<and> g \<le> sf_gen f)"

lemma told_evaluate:
  assumes "told pr m g"
  shows "\<exists>e. evaluate pr now m mode budget g = (pr, Return (Some e), None)"
  using assms by (auto simp: told_def evaluate_def)

lemma evaluate_swapErr: "evaluate pr now m mode budget g = (pr', res, sw) \<Longrightarrow> pr_swapErr pr' = pr_swapErr pr"
  by (erule evaluate_cases) (auto simp: startSwap_def Let_def)

lemma beginAcquire_swapErr:
  "beginAcquire phase interval now pr p mode = (pr', g, res, sw) \<Longrightarrow> pr_swapErr pr' = pr_swapErr pr"
  by (auto simp: beginAcquire_def registerCaller_def split: prod.splits dest!: evaluate_swapErr dest: reconcile_frame(4))

lemma swapErr_frame [simp]:
  "pr_swapErr (releaseSlot pr m) = pr_swapErr pr" "pr_swapErr (invalidatePool pr) = pr_swapErr pr"
  by (simp_all add: releaseSlot_def invalidatePool_def Let_def)

text \<open>Failures are recorded only when a swap ends, for its target, and with its generation, which
  is above every earlier one.\<close>

lemma publish_swapErr:
  assumes "pool_inv s" and "j < length (sy_swaps s)" "sw = sy_swaps s ! j"
    and "publishSwap (sy_pool s) now (sw_gen sw) (sw_target sw) ok ctx = (pr, down)"
    and "pr_swapErr pr m \<noteq> pr_swapErr (sy_pool s) m"
  shows "m = pr_swapTarget (sy_pool s) \<and> pr_swapping (sy_pool s) \<and>
    (\<exists>f. pr_swapErr pr m = Some f \<and> sf_gen f = pr_swapGen (sy_pool s) \<and>
       sf_err f \<in> {ErrSwapDeadlineExceeded m, ErrSwapFailed m})"
proof -
  have os: "one_swap (sy_pool s) (sy_swaps s)" using assms(1) by (simp add: pool_inv_def)
  note live = live_swap [OF os assms(2)]
  from publishSwap_fields(8) [OF assms(4) [unfolded assms(3) live(3)]] assms(5) live(1,4)
  show ?thesis by (auto split: if_splits)
qed

lemma proxy_step_swapErr:
  assumes "proxy_step s s'" and "pool_inv s" and "pr_swapErr (sy_pool s') m \<noteq> pr_swapErr (sy_pool s) m"
  shows "m = pr_swapTarget (sy_pool s) \<and> pr_swapping (sy_pool s) \<and> sy_callers s' = sy_callers s \<and>
    (\<exists>f. pr_swapErr (sy_pool s') m = Some f \<and> sf_gen f = pr_swapGen (sy_pool s) \<and>
       sf_err f \<in> {ErrSwapDeadlineExceeded m, ErrSwapFailed m})"
  using assms
proof (induction rule: proxy_step.induct)
  case (SwapPublish j s sw ok ctx pr down getOK patchOK)
  then show ?case using publish_swapErr [OF _ SwapPublish(1,2,5)] by simp
qed (auto simp: leaveHold_def Let_def dest: evaluate_swapErr beginAcquire_swapErr)

lemma told_step:
  assumes "pool_step s s'" and "pool_inv s" and "told (sy_pool s) m g"
  shows "told (sy_pool s') m g"
proof (cases "pr_swapErr (sy_pool s') m = pr_swapErr (sy_pool s) m")
  case True
  with assms(3) show ?thesis by (simp add: told_def)
next
  case False
  then have "proxy_step s s'" using assms(1) by (auto simp: pool_step_def elim!: world_step.cases)
  from proxy_step_swapErr [OF this assms(2) False] obtain f where f: "pr_swapErr (sy_pool s') m = Some f"
    "sf_gen f = pr_swapGen (sy_pool s)" "pr_swapping (sy_pool s)" by blast
  obtain f0 where "pr_swapErr (sy_pool s) m = Some f0" "g \<le> sf_gen f0" using assms(3) by (auto simp: told_def)
  moreover have "failures_old (sy_pool s)" using assms(2) by (simp add: pool_inv_def)
  ultimately show ?thesis using f unfolding told_def failures_old_def by fastforce
qed

text \<open>A caller keeps its number, member and generation.\<close>

definition sameCaller :: "caller \<Rightarrow> caller \<Rightarrow> bool" where
  "sameCaller c c' \<longleftrightarrow> ca_member c' = ca_member c \<and> ca_gen c' = ca_gen c \<and> ca_mode c' = ca_mode c \<and> ca_budget c' = ca_budget c"

lemma pool_step_callers:
  assumes "pool_step s s'" and "i < length (sy_callers s)"
  shows "i < length (sy_callers s') \<and> sameCaller (sy_callers s ! i) (sy_callers s' ! i)"
proof -
  have "i < length (sy_callers s') \<and> sameCaller (sy_callers s ! i) (sy_callers s' ! i)" if "proxy_step s s'"
    using that assms(2) by (induction rule: proxy_step.induct) (auto simp: sameCaller_def nth_append nth_list_update)
  then show ?thesis using assms by (auto simp: pool_step_def sameCaller_def elim!: world_step.cases)
qed

lemma pool_steps_callers:
  assumes "pool_step\<^sup>*\<^sup>* s s'" and "i < length (sy_callers s)"
  shows "i < length (sy_callers s') \<and> sameCaller (sy_callers s ! i) (sy_callers s' ! i)"
  using assms
proof (induction rule: rtranclp_induct)
  case base
  then show ?case by (simp add: sameCaller_def)
next
  case (step y z)
  then show ?case using pool_step_callers [OF step.hyps(2), of i] by (auto simp: sameCaller_def)
qed

lemma told_steps:
  assumes "pool_step\<^sup>*\<^sup>* s s'" and "pool_inv s" and "i < length (sy_callers s)"
    and "told (sy_pool s) (ca_member (sy_callers s ! i)) (ca_gen (sy_callers s ! i))"
  shows "i < length (sy_callers s') \<and> told (sy_pool s') (ca_member (sy_callers s' ! i)) (ca_gen (sy_callers s' ! i))"
  using assms
proof (induction rule: rtranclp_induct)
  case base
  then show ?case by simp
next
  case (step y z)
  then have y: "pool_inv y" "i < length (sy_callers y)" "told (sy_pool y) (ca_member (sy_callers y ! i)) (ca_gen (sy_callers y ! i))"
    using swaps.holds_steps by blast+
  from pool_step_callers [OF step.hyps(2) y(2)] told_step [OF step.hyps(2) y(1,3)] show ?case
    by (simp add: sameCaller_def)
qed

section \<open>The controller operations\<close>



section \<open>A worked example\<close>

text \<open>A pool of two members, \<open>A\<close> ready. A request for \<open>A\<close> arrives and is admitted; one for \<open>B\<close>
  arrives and is held behind it.\<close>

definition arrive :: "system \<Rightarrow> BackendPool \<Rightarrow> gostring \<Rightarrow> system" where
  "arrive s p mode =
     (let (pr, g, res, sw) = beginAcquire (\<lambda>m. Phase True (sy_cluster s) m) residentResyncInterval (sy_now s) (sy_pool s) p mode in
      s\<lparr>sy_pool := pr,
        sy_callers := sy_callers s @ [\<lparr>ca_member = pool_Member p, ca_mode = mode, ca_budget = pool_SwapBudget p,
          ca_gen = g, ca_state = stateOf res\<rparr>],
        sy_swaps := sy_swaps s @ swapsOf sw\<rparr>)"

lemma arrive_step: "pool_Member p \<noteq> '''' \<Longrightarrow> proxy_step s (arrive s p mode)"
  unfolding arrive_def by (auto simp: split_beta Let_def intro!: Arrive [where getOK = "\<lambda>_. True"])

definition ex_member :: "gostring \<Rightarrow> BackendPool" where
  "ex_member m = \<lparr>pool_Name = ''p'', pool_Namespace = ''ns'', pool_Member = m, pool_Members = [''A'', ''B''], pool_SwapBudget = 0\<rparr>"

definition ex_cluster :: "gostring \<Rightarrow> cluster" where
  "ex_cluster ready m =
     (if m \<in> {''A'', ''B''} then Some \<lparr>is_Replicas = Some 1, is_Phase = (if m = ready then ''Ready'' else ''Pending'')\<rparr> else None)"

definition ex_cold :: system where
  "ex_cold = \<lparr>sy_pool = newRuntime (ex_member ''A''), sy_callers = [], sy_swaps = [], sy_deacts = [],
     sy_cluster = ex_cluster ''A'', sy_now = hour\<rparr>"

definition ex_held :: system where
  "ex_held = arrive (arrive ex_cold (ex_member ''A'') PoolActivationWait) (ex_member ''B'') PoolActivationWait"

lemma ex_cold_start: "pool_start ex_cold"
  by (auto simp: pool_start_def ex_cold_def)

lemma ex_held_reachable: "pool_step\<^sup>*\<^sup>* ex_cold ex_held"
proof -
  have "pool_step ex_cold (arrive ex_cold (ex_member ''A'') PoolActivationWait)"
    "pool_step (arrive ex_cold (ex_member ''A'') PoolActivationWait) ex_held"
    by (auto simp: pool_step_def ex_held_def ex_member_def intro!: arrive_step)
  then show ?thesis by (meson converse_rtranclp_into_rtranclp rtranclp.rtrancl_refl)
qed

lemmas ex_pool_defs = arrive_def ex_member_def ex_cluster_def ex_cold_def ex_held_def beginAcquire_def
  registerCaller_def evaluate_def evaluateSlot_def reconcileResident_def adoptReady_def newRuntime_def Phase_def kubeGet_def
  modelReadyPhase_def residentResyncInterval_def startSwap_def PoolActivationWait_def PoolActivationIfIdle_def


section \<open>Properties\<close>



text \<open>A request is only ever admitted to the member that owns the slot, with no swap running, so
  nothing is dispatched to a member that is being loaded or torn down.\<close>
lemma admitted_on_resident:
  assumes "proxy_step s s'" and "i < length (sy_callers s')" and "holding m (sy_callers s' ! i)"
    and "i < length (sy_callers s) \<longrightarrow> \<not> holding m (sy_callers s ! i)"
  shows "pr_resident (sy_pool s') = m \<and> \<not> pr_swapping (sy_pool s')"
proof -
  have served: "pr_resident pr' = m \<and> \<not> pr_swapping pr'"
    if "evaluate pr now m mode budget g = (pr', Return None, sw)" for pr now m mode budget g pr' sw
    using that by (rule evaluate_cases) auto
  from assms show ?thesis
  proof (induction rule: proxy_step.induct)
    case (Arrive getOK s p mode pr g res sw)
    then have "i = length (sy_callers s)" by (auto simp: nth_append split: if_splits)
    with Arrive have "m = pool_Member p" "res = Return None"
      by (auto simp: holding_def stateOf_def split: loop_result.splits)
    with Arrive(1) served show ?case by (auto simp: beginAcquire_def split: prod.splits)
  next
    case (Wake k s c ch pr res sw)
    then have "i = k" by (auto simp: nth_list_update split: if_splits)
    with Wake have "m = ca_member c" "res = Return None"
      by (auto simp: holding_def stateOf_def split: loop_result.splits)
    with Wake(5) served show ?case by auto
  qed (auto simp: nth_list_update holding_def split: if_splits)
qed





text \<open>C9. Failures are delivered, to the right callers. When a swap's failure is recorded, every
  request held for its target at that moment gets an error the next time it looks at the pool,
  however late that is and whatever swaps have started since; and a request that arrives
  afterwards is never given an old failure: it returns at once only if it is served, or if it asked
  not to wait for a busy member.\<close>
theorem swap_failure_delivered:
  assumes "pool_start s0" and "pool_step\<^sup>*\<^sup>* s0 s" and "proxy_step s s'"
    and "pr_swapErr (sy_pool s') m \<noteq> pr_swapErr (sy_pool s) m"
    and "i < length (sy_callers s)" and "registered m (sy_callers s ! i)" and "pool_step\<^sup>*\<^sup>* s' t"
  shows "(let c = sy_callers t ! i in
     \<exists>e. evaluate (sy_pool t) now m (ca_mode c) (ca_budget c) (ca_gen c) = (sy_pool t, Return (Some e), None)) \<and>
    (\<forall>phase p mode pr g e sw.
       beginAcquire phase residentResyncInterval now (sy_pool t) p mode = (pr, g, Return (Some e), sw) \<and> pool_Member p \<noteq> ''''
       \<longrightarrow> e = ErrIncumbentBusy \<and> mode = PoolActivationIfIdle)"
proof -
  have inv: "pool_inv s" using assms(1,2) by (rule pool_inv_reachable)
  then have inv': "pool_inv s'" using assms(3) by (rule proxy_step_inv [rotated])
  from proxy_step_swapErr [OF assms(3) inv assms(4)]
  obtain f where f: "pr_swapErr (sy_pool s') m = Some f" "sf_gen f = pr_swapGen (sy_pool s)"
    "pr_swapping (sy_pool s)" "sy_callers s' = sy_callers s" by blast
  have "caller_ok (sy_pool s) (sy_callers s ! i)" using inv assms(5) by (simp add: pool_inv_def)
  then have "told (sy_pool s') (ca_member (sy_callers s' ! i)) (ca_gen (sy_callers s' ! i))"
    using f assms(6) by (auto simp: told_def caller_ok_def registered_def)
  from told_steps [OF assms(7) inv' _ this] f(4) assms(5)
  have told: "told (sy_pool t) (ca_member (sy_callers t ! i)) (ca_gen (sy_callers t ! i))" by simp
  have "pool_step\<^sup>*\<^sup>* s s'" using assms(3) by (auto simp: pool_step_def)
  then have st: "pool_step\<^sup>*\<^sup>* s t" using assms(7) by (rule rtranclp_trans)
  have "ca_member (sy_callers t ! i) = m"
    using pool_steps_callers [OF st assms(5)] assms(6) by (simp add: sameCaller_def registered_def)
  then have one: "\<exists>e. evaluate (sy_pool t) now m (ca_mode (sy_callers t ! i)) (ca_budget (sy_callers t ! i))
      (ca_gen (sy_callers t ! i)) = (sy_pool t, Return (Some e), None)" using told_evaluate told by blast
  have "core_inv (sy_pool t) (sy_callers t) (sy_swaps t)"
    using swaps.holds_steps [OF st inv] by (simp add: pool_inv_core)
  from beginAcquire_inv(3) [OF _ this] have "e = ErrIncumbentBusy \<and> mode = PoolActivationIfIdle"
    if "beginAcquire phase residentResyncInterval now (sy_pool t) p mode = (pr, g, Return (Some e), sw) \<and> pool_Member p \<noteq> ''''"
    for phase p mode pr g e sw using that by blast
  with one show ?thesis unfolding Let_def by blast
qed

text \<open>A swap that fails: \<open>B\<close> is not in the cluster.\<close>

definition ex_lost :: system where
  "ex_lost = arrive (ex_cold\<lparr>sy_cluster := Map.empty\<rparr>) (ex_member ''B'') PoolActivationWait"

definition ex_failing :: system where
  "ex_failing = ex_lost\<lparr>sy_swaps := [(sy_swaps ex_lost ! 0)\<lparr>sw_stage := Publishing False\<rparr>]\<rparr>"

definition ex_failed :: system where
  "ex_failed = ex_failing\<lparr>sy_pool := fst (publishSwap (sy_pool ex_failing) hour 1 ''B'' False CtxLive), sy_swaps := []\<rparr>"

lemma ex_lost_one: "sy_swaps ex_lost = [sy_swaps ex_lost ! 0]"
  by (simp add: ex_lost_def ex_pool_defs Let_def)

lemma ex_lost_swaps: "sw_stage (sy_swaps ex_lost ! 0) = Activating"
  "sw_gen (sy_swaps ex_lost ! 0) = 1" "sw_target (sy_swaps ex_lost ! 0) = ''B''" "sy_cluster ex_lost = Map.empty"
  "sy_now ex_lost = hour" "length (sy_callers ex_lost) = 1" "registered ''B'' (sy_callers ex_lost ! 0)"
  "pr_swapErr (sy_pool ex_lost) ''B'' = None" "pr_swapGen (sy_pool ex_lost) = 1"
  by (simp_all add: ex_lost_def ex_pool_defs Let_def registered_def)

lemma ex_failing_reachable: "pool_start (ex_cold\<lparr>sy_cluster := Map.empty\<rparr>)" "pool_step\<^sup>*\<^sup>* (ex_cold\<lparr>sy_cluster := Map.empty\<rparr>) ex_failing"
proof -
  show "pool_start (ex_cold\<lparr>sy_cluster := Map.empty\<rparr>)" by (auto simp: pool_start_def ex_cold_def)
  have "proxy_step (ex_cold\<lparr>sy_cluster := Map.empty\<rparr>) ex_lost"
    unfolding ex_lost_def by (rule arrive_step) (simp add: ex_member_def)
  moreover have "proxy_step ex_lost ex_failing"
  proof -
    have act: "Activate False False (sy_cluster ex_lost) (sw_target (sy_swaps ex_lost ! 0)) = (sy_cluster ex_lost, False)"
      by (simp add: Activate_def kubeGet_def)
    have len: "0 < length (sy_swaps ex_lost)" by (subst ex_lost_one) simp
    have upd: "(sy_swaps ex_lost)[0 := x] = [x]" for x by (subst ex_lost_one) simp
    have "ex_failing = ex_lost\<lparr>sy_cluster := sy_cluster ex_lost, sy_swaps := (sy_swaps ex_lost)
        [0 := (sy_swaps ex_lost ! 0)\<lparr>sw_stage := (if False then Loading else Publishing False)\<rparr>]\<rparr>"
      by (simp add: ex_failing_def upd)
    then show ?thesis using SwapActivate [OF len refl ex_lost_swaps(1) act] by simp
  qed
  ultimately show "pool_step\<^sup>*\<^sup>* (ex_cold\<lparr>sy_cluster := Map.empty\<rparr>) ex_failing"
    by (meson pool_step_def converse_rtranclp_into_rtranclp rtranclp.rtrancl_refl)
qed

lemma ex_failed_step: "proxy_step ex_failing ex_failed"
  "pr_swapErr (sy_pool ex_failed) ''B'' \<noteq> pr_swapErr (sy_pool ex_failing) ''B''"
proof -
  let ?sw = "sy_swaps ex_failing ! 0"
  have sw: "sw_gen ?sw = 1" "sw_target ?sw = ''B''" "sw_stage ?sw = Publishing False"
    by (simp_all add: ex_failing_def ex_lost_swaps)
  have gen: "pr_swapGen (sy_pool ex_failing) = 1" by (simp add: ex_failing_def ex_lost_swaps)
  obtain pr down where pub: "publishSwap (sy_pool ex_failing) hour 1 ''B'' False CtxLive = (pr, down)"
    by (cases "publishSwap (sy_pool ex_failing) hour 1 ''B'' False CtxLive")
  have "publishSwap (sy_pool ex_failing) hour (pr_swapGen (sy_pool ex_failing)) ''B'' False CtxLive = (pr, down)"
    by (simp only: gen pub)
  note f = publishSwap_fields [OF this]
  have st: "ex_failed = ex_failing\<lparr>sy_pool := pr, sy_swaps := dropNth 0 (sy_swaps ex_failing),
      sy_cluster := (if down then fst (Deactivate False False (sy_cluster ex_failing) (sw_target ?sw)) else sy_cluster ex_failing)\<rparr>"
    using pub by (simp add: ex_failed_def ex_failing_def dropNth_def Deactivate_def kubeGet_def)
  have now: "sy_now ex_failing = hour" by (simp add: ex_failing_def ex_lost_swaps)
  have len: "0 < length (sy_swaps ex_failing)" by (simp add: ex_failing_def)
  have pub': "publishSwap (sy_pool ex_failing) (sy_now ex_failing) (sw_gen ?sw) (sw_target ?sw) False CtxLive = (pr, down)"
    by (simp only: sw now pub)
  show "proxy_step ex_failing ex_failed"
    unfolding st by (rule SwapPublish [OF len refl sw(3) _ pub']) simp
  have "pr_swapErr (sy_pool ex_failing) ''B'' = None" by (simp add: ex_failing_def ex_lost_swaps)
  moreover have "sy_pool ex_failed = pr" by (simp only: st) simp
  moreover have "pr_swapErr pr ''B'' \<noteq> None" using f(7,8) by simp
  ultimately show "pr_swapErr (sy_pool ex_failed) ''B'' \<noteq> pr_swapErr (sy_pool ex_failing) ''B''" by simp
qed

theorem swap_failure_delivered_witness:
  "let c = sy_callers ex_failed ! 0 in
   \<exists>e. evaluate (sy_pool ex_failed) (hour + 1) ''B'' (ca_mode c) (ca_budget c) (ca_gen c) = (sy_pool ex_failed, Return (Some e), None)"
proof -
  have "0 < length (sy_callers ex_failing)" "registered ''B'' (sy_callers ex_failing ! 0)"
    using ex_lost_swaps(6,7) by (simp_all add: ex_failing_def)
  from swap_failure_delivered [OF ex_failing_reachable ex_failed_step this rtranclp.rtrancl_refl]
  show ?thesis by blast
qed

text \<open>C36. A held request can miss that its member came up. \<open>reconcileResident\<close> adopts a ready
  member without notifying, so there is a reachable state in which a request is still held, not
  notified, for the very member that owns the slot, with no swap running: it waits for some other
  request to be released, or for its hold budget, although it could be served at once.\<close>
theorem adopted_member_not_woken:
  "\<exists>s c. pool_step\<^sup>*\<^sup>* ex_cold s \<and> pool_start ex_cold \<and> c \<in> set (sy_callers s) \<and>
     ca_state c = Waiting (pr_change (sy_pool s)) \<and> ca_member c = pr_resident (sy_pool s) \<and> \<not> pr_swapping (sy_pool s)"
proof -
  define w where "w = ex_held\<lparr>sy_now := 2 * hour, sy_cluster := ex_cluster ''B''\<rparr>"
  define s where "s = arrive w (ex_member ''B'') PoolActivationWait"
  have "pool_step ex_held w"
    by (simp add: pool_step_def w_def) (rule disjI2, rule world_step.intros, simp add: ex_pool_defs Let_def)
  moreover have "pool_step w s" by (auto simp: pool_step_def s_def ex_member_def intro!: arrive_step)
  ultimately have reach: "pool_step\<^sup>*\<^sup>* ex_cold s"
    using ex_held_reachable by (meson rtranclp.rtrancl_into_rtrancl)
  have "ca_state (sy_callers s ! 1) = Waiting (pr_change (sy_pool s))" "ca_member (sy_callers s ! 1) = pr_resident (sy_pool s)"
    "\<not> pr_swapping (sy_pool s)" "1 < length (sy_callers s)"
    by (simp_all add: s_def w_def ex_pool_defs Let_def timeSub_def)
  with reach ex_cold_start show ?thesis by (meson nth_mem)
qed

end
