(* ===== verification/Router_Proxy.thy ===== *)
theory Router_Proxy
  imports Router_Match Router_Budget Router_Dispatcher Activator "HOL-Library.Sublist"
begin

text \<open>
  The router's HTTP application (\<open>internal/router/proxy.go\<close>): construction, the routes, and
  \<open>handleCompletion\<close> from the request body to the reply, the audit line and the budget charge,
  with \<open>dispatchWithFallback\<close> as the loop over the backends of a decision. One request is a state
  transformer on the proxy; what the outside contributes to it (time, the upstreams, the pool
  activator's answer, the header timer, the response body and the client's connection) is the
  record \<open>Run\<close>. Metrics and tracing are left out.
\<close>

section \<open>Construction\<close>

record Proxy =
  px_cfg :: Config
  px_matcher :: Matcher
  px_disp :: Dispatcher
  px_routerName :: gostring
  px_activator :: bool
  px_budgets :: BudgetStore
  px_hasUSDBudget :: bool

definition compileBudgetRule :: "Budget \<Rightarrow> BudgetRule option" where
  "compileBudgetRule b =
     (let r = (\<lambda>key. \<lparr>br_Name = bud_Name b, br_ScopeKey = key, br_MaxTokens = bud_MaxTokens b,
                      br_MaxUSD = bud_MaxUSD b, br_Window = bud_Window b\<rparr>) in
      if bud_Scope b = BudgetScopeRouter then Some (r ''router'')
      else if bud_Scope b = BudgetScopeRule then Some (r (''rule:'' @ bud_RuleName b))
      else if bud_Scope b = BudgetScopeTeam then
        (let hk = (if bud_HeaderKey b = '''' then DefaultTeamHeaderKey else bud_HeaderKey b) in Some (r (''team:'' @ hk)))
      else None)"

definition compileBudgetRules :: "Budget list \<Rightarrow> BudgetRule list" where
  "compileBudgetRules budgets = List.map_filter compileBudgetRule budgets"

definition WithDispatcherOptions :: "(Dispatcher \<Rightarrow> Dispatcher) list \<Rightarrow> Proxy \<Rightarrow> Proxy" where
  "WithDispatcherOptions opts p = p\<lparr>px_disp := NewDispatcher (px_cfg p) opts\<rparr>"

definition WithRouterName :: "gostring \<Rightarrow> Proxy \<Rightarrow> Proxy" where
  "WithRouterName name p = p\<lparr>px_routerName := name\<rparr>"

definition WithActivator :: "bool \<Rightarrow> Proxy \<Rightarrow> Proxy" where
  "WithActivator a p = p\<lparr>px_activator := a\<rparr>"

definition NewProxy :: "Config \<Rightarrow> (Proxy \<Rightarrow> Proxy) list \<Rightarrow> Proxy" where
  "NewProxy cfg opts =
     foldl (\<lambda>p opt. opt p)
       \<lparr>px_cfg = cfg, px_matcher = NewMatcher cfg, px_disp = NewDispatcher cfg [], px_routerName = ''default'',
        px_activator = False, px_budgets = NewBudgetStore (compileBudgetRules (pol_Budgets (cfg_Policy cfg))),
        px_hasUSDBudget = (\<exists>b \<in> set (pol_Budgets (cfg_Policy cfg)). bud_MaxUSD b > 0)\<rparr>
       opts"

section \<open>Routes\<close>

datatype route = Completion gostring | Models | Health

definition Mount :: "gostring \<Rightarrow> gostring \<Rightarrow> route option" where
  "Mount method path =
     (if method = ''POST'' \<and> path \<in> {''/v1/chat/completions'', ''/v1/completions'', ''/v1/embeddings'', ''/v1/rerank'',
          ''/v1/messages'', ''/v1/messages/count_tokens''} then Some (Completion path)
      else if method = ''GET'' \<and> path = ''/v1/models'' then Some Models
      else if method = ''GET'' \<and> path \<in> {''/health'', ''/healthz''} then Some Health
      else None)"

text \<open>The ids and owners \<open>/v1/models\<close> lists.\<close>

definition handleModels :: "Proxy \<Rightarrow> (gostring \<times> gostring) list" where
  "handleModels p =
     map (\<lambda>b. (if be_DisplayName b \<noteq> '''' then be_DisplayName b
               else if be_Model b \<noteq> '''' then be_Model b else be_Name b,
               if be_Provider b \<noteq> '''' then be_Provider b else ''llmkube'')) (cfg_Backends (px_cfg p))"

definition isAnthropicPath :: "gostring \<Rightarrow> bool" where
  "isAnthropicPath path \<longleftrightarrow> path = ''/v1/messages'' \<or> has_prefix ''/v1/messages/'' path"

text \<open>The error type an Anthropic client is given for a status.\<close>

definition errorType :: "nat \<Rightarrow> gostring" where
  "errorType code =
     (if code = 400 then ''invalid_request_error''
      else if code = 404 then ''not_found_error''
      else if code = 413 then ''request_too_large''
      else if code = 429 then ''rate_limit_error''
      else if code = 503 then ''overloaded_error''
      else ''api_error'')"

section \<open>The environment of one request\<close>

text \<open>\<open>encoding/json\<close> on the request and the response, as the handler reads them.\<close>

record Codec =
  cd_partial :: "gostring \<Rightarrow> (gostring \<times> bool) option"
  cd_usage :: "gostring \<Rightarrow> usageEnvelope option"
  cd_anthropicUsage :: "gostring \<Rightarrow> anthropicUsage option option"
  cd_anthropicEvent :: "gostring \<Rightarrow> anthropicEvent option"

text \<open>Per attempt: the environment of \<open>Dispatch\<close>, the times before and after it, the activator's
  answer (\<open>None\<close> grants the slot), whether the header timer fired, and how much of a failed
  response's body was drained. Per request: the time of admission and of the charge, the response
  headers, the reads the response body answers, and how the client takes writes.\<close>

record Run =
  run_env :: "nat \<Rightarrow> Env"
  run_clock :: "nat \<Rightarrow> instant \<times> instant"
  run_acquire :: "nat \<Rightarrow> acquire_error option"
  run_headerTimedOut :: "nat \<Rightarrow> bool"
  run_drained :: "nat \<Rightarrow> nat"
  run_codec :: Codec
  run_admitted :: instant
  run_charged :: instant
  run_respHeader :: header
  run_reads :: "(gostring \<times> read_error) list"
  run_write :: "gostring \<Rightarrow> nat \<times> bool"

section \<open>Features, the gate and the scopes\<close>

definition headerMap :: "header \<Rightarrow> gostring \<Rightarrow> gostring option" where
  "headerMap h = foldl (\<lambda>m (k, vals). case vals of [] \<Rightarrow> m | v # _ \<Rightarrow> m(toLower k \<mapsto> v)) Map.empty h"

text \<open>Reading a missing key of a Go map of strings gives the empty string.\<close>

definition stringAt :: "(gostring \<Rightarrow> gostring option) \<Rightarrow> gostring \<Rightarrow> gostring" where
  "stringAt m k = (case m k of Some v \<Rightarrow> v | None \<Rightarrow> '''')"

definition extractFeatures :: "Codec \<Rightarrow> gostring \<Rightarrow> header \<Rightarrow> gostring \<Rightarrow> (RequestFeatures \<times> bool) option" where
  "extractFeatures codec body h classHeader =
     (let headers = headerMap h in
      case cd_partial codec body of
        None \<Rightarrow> None
      | Some (model, stream) \<Rightarrow>
          Some (\<lparr>rf_Model = model,
                 rf_Classification = toLower (stringAt headers (toLower classHeader)),
                 rf_TaskComplexity = toLower (stringAt headers ''x-llmkube-task-complexity''),
                 rf_Headers = headers\<rparr>, stream))"

datatype gate_error = GateNotConfigured gostring | GateTier gostring gostring gostring

fun gateBackends :: "Matcher \<Rightarrow> gostring \<Rightarrow> gostring list \<Rightarrow> gate_error option" where
  "gateBackends m cls [] = None"
| "gateBackends m cls (name # names) =
     (case Matcher_BackendByName m name of
        None \<Rightarrow> Some (GateNotConfigured name)
      | Some b \<Rightarrow> if be_Tier b \<noteq> ''local'' then Some (GateTier cls (be_Tier b) name) else gateBackends m cls names)"

definition enforceFailClosed :: "Proxy \<Rightarrow> RequestFeatures \<Rightarrow> MatchResult \<Rightarrow> gate_error option" where
  "enforceFailClosed p f dec =
     (if \<not> mr_FailClosed dec then None
      else if rf_Classification f \<notin> SensitiveSet (px_cfg p) then None
      else gateBackends (px_matcher p) (rf_Classification f) (mr_Backends dec))"

definition scopeKey :: "RequestFeatures \<Rightarrow> MatchResult \<Rightarrow> Budget \<Rightarrow> gostring" where
  "scopeKey f dec b =
     (if bud_Scope b = BudgetScopeRouter then ''router''
      else if bud_Scope b = BudgetScopeRule then
        (case mr_Rule dec of
           Some r \<Rightarrow> if rule_Name r = bud_RuleName b then ''rule:'' @ bud_RuleName b else ''''
         | None \<Rightarrow> '''')
      else if bud_Scope b = BudgetScopeTeam then
        (let hk = (if bud_HeaderKey b = '''' then DefaultTeamHeaderKey else bud_HeaderKey b);
             v = stringAt (rf_Headers f) (toLower hk) in
         if v \<noteq> '''' then ''team:'' @ hk @ '':'' @ v else '''')
      else '''')"

definition addKey :: "gostring list \<Rightarrow> gostring \<Rightarrow> gostring list" where
  "addKey keys k = (if k = '''' \<or> k \<in> set keys then keys else keys @ [k])"

definition budgetScopeKeys :: "Proxy \<Rightarrow> RequestFeatures \<Rightarrow> MatchResult \<Rightarrow> gostring list" where
  "budgetScopeKeys p f dec =
     foldl (\<lambda>keys b. addKey keys (scopeKey f dec b)) [] (pol_Budgets (cfg_Policy (px_cfg p)))"

section \<open>Dispatch with fallback\<close>

definition resolveDispatchTimeout :: "MatchResult option \<Rightarrow> Backend option \<Rightarrow> duration \<Rightarrow> duration" where
  "resolveDispatchTimeout dec backend proxyDefault =
     (let rule = (case dec of Some d \<Rightarrow> mr_Rule d | None \<Rightarrow> None) in
      case rule of
        Some r \<Rightarrow> if rule_Timeout r > 0 then rule_Timeout r
                  else (case backend of Some b \<Rightarrow> if be_Timeout b > 0 then be_Timeout b else proxyDefault | None \<Rightarrow> proxyDefault)
      | None \<Rightarrow> (case backend of Some b \<Rightarrow> if be_Timeout b > 0 then be_Timeout b else proxyDefault | None \<Rightarrow> proxyDefault))"

definition resolveSwapBudget :: "BackendPool option \<Rightarrow> duration \<Rightarrow> duration" where
  "resolveSwapBudget pool proxyDefault =
     (case pool of Some p \<Rightarrow> if pool_SwapBudget p > 0 then pool_SwapBudget p else proxyDefault | None \<Rightarrow> proxyDefault)"

text \<open>What a request does to a pool, in order; which backends it was sent to; and the dispatcher.\<close>

datatype pool_event = PoolAcquired BackendPool | PoolReleased BackendPool | PoolInvalidated BackendPool

record Trail =
  tr_disp :: Dispatcher
  tr_pool :: "pool_event list"
  tr_sent :: "gostring list"

datatype proxy_error =
    NotConfigured gostring
  | MarkedUnhealthy gostring
  | PoolError acquire_error
  | DispatchError dispatch_error
  | HeaderTimeout gostring
  | Returned gostring nat
  | NoneAttempted

datatype attempt_result = AttemptPanic | AttemptFailed proxy_error | AttemptOK nat Body

definition poolEvent :: "BackendPool option \<Rightarrow> (BackendPool \<Rightarrow> pool_event) \<Rightarrow> Trail \<Rightarrow> Trail" where
  "poolEvent pool ev tr = (case pool of None \<Rightarrow> tr | Some q \<Rightarrow> tr\<lparr>tr_pool := tr_pool tr @ [ev q]\<rparr>)"

text \<open>One attempt, from the granted slot on. A panic of \<open>Dispatch\<close> leaves everything as it was then:
  nothing between the acquisition and the call is deferred.\<close>

definition attemptBackend ::
    "Run \<Rightarrow> nat \<Rightarrow> BackendPool option \<Rightarrow> Backend \<Rightarrow> header \<Rightarrow> gostring \<Rightarrow> gostring \<Rightarrow> Trail \<Rightarrow> Trail \<times> attempt_result" where
  "attemptBackend run i pool b headers body path tr0 =
     (let tr = poolEvent pool PoolAcquired tr0;
          (d, r) = Dispatch (run_env run i) (tr_disp tr) (fst (run_clock run i)) (snd (run_clock run i))
                     (Some b) ''POST'' path headers body;
          tr = tr\<lparr>tr_disp := d, tr_sent := tr_sent tr @ [be_Name b]\<rparr>;
          failed = (\<lambda>tr e. (poolEvent pool PoolReleased (poolEvent pool PoolInvalidated tr), AttemptFailed e)) in
      case r of
        Panicked \<Rightarrow> (tr, AttemptPanic)
      | Failed e \<Rightarrow> failed tr (if run_headerTimedOut run i then HeaderTimeout (be_Name b) else DispatchError e)
      | Responded st bo \<Rightarrow>
          if run_headerTimedOut run i
          then failed (tr\<lparr>tr_disp := fst (Body_Close d bo)\<rparr>) (HeaderTimeout (be_Name b))
          else if st \<ge> 500
          then (poolEvent pool PoolReleased (tr\<lparr>tr_disp := fst (Body_Close (Body_Read d bo (run_drained run i)) bo)\<rparr>),
                AttemptFailed (Returned (be_Name b) st))
          else (tr, AttemptOK st bo))"

datatype fallback_result = FallbackPanic | FallbackError proxy_error | FallbackOK Backend nat Body "BackendPool option"

fun dispatchFrom ::
    "Proxy \<Rightarrow> Run \<Rightarrow> MatchResult \<Rightarrow> header \<Rightarrow> gostring \<Rightarrow> gostring \<Rightarrow> nat \<Rightarrow> proxy_error option \<Rightarrow> bool
     \<Rightarrow> Trail \<Rightarrow> gostring list \<Rightarrow> Trail \<times> fallback_result" where
  "dispatchFrom p run dec headers body path i lastErr allIncumbentBusy tr [] =
     (tr, FallbackError (case lastErr of
        None \<Rightarrow> NoneAttempted
      | Some e \<Rightarrow> if allIncumbentBusy then PoolError ErrIncumbentBusy else e))"
| "dispatchFrom p run dec headers body path i lastErr allIncumbentBusy tr (name # names) =
     (case Matcher_BackendByName (px_matcher p) name of
        None \<Rightarrow> dispatchFrom p run dec headers body path (Suc i) (Some (NotConfigured name)) False tr names
      | Some b \<Rightarrow>
          if \<not> IsHealthy (tr_disp tr) (fst (run_clock run i)) name
          then dispatchFrom p run dec headers body path (Suc i) (Some (MarkedUnhealthy name)) False tr names
          else
            (let pool = (if px_activator p then be_Pool b else None) in
             case (if pool = None then None else run_acquire run i) of
               Some e \<Rightarrow>
                 dispatchFrom p run dec headers body path (Suc i) (Some (PoolError e))
                   (allIncumbentBusy \<and> e = ErrIncumbentBusy) tr names
             | None \<Rightarrow>
                 (case attemptBackend run i pool b headers body path tr of
                    (tr, AttemptPanic) \<Rightarrow> (tr, FallbackPanic)
                  | (tr, AttemptFailed e) \<Rightarrow> dispatchFrom p run dec headers body path (Suc i) (Some e) False tr names
                  | (tr, AttemptOK st bo) \<Rightarrow> (tr, FallbackOK b st bo pool))))"

definition dispatchWithFallback ::
    "Proxy \<Rightarrow> Run \<Rightarrow> MatchResult \<Rightarrow> header \<Rightarrow> gostring \<Rightarrow> gostring \<Rightarrow> Trail \<times> fallback_result" where
  "dispatchWithFallback p run dec headers body path =
     dispatchFrom p run dec headers body path 0 None True
       \<lparr>tr_disp = px_disp p, tr_pool = [], tr_sent = []\<rparr> (mr_Backends dec)"

section \<open>The response\<close>

definition maxRequestBodyBytes :: nat where "maxRequestBodyBytes = 32 * 2 ^ 20"
definition maxUsageCaptureBytes :: nat where "maxUsageCaptureBytes = 4 * 2 ^ 20"
definition modelPoolRetryAfterSeconds :: int where "modelPoolRetryAfterSeconds = 5"

text \<open>\<open>capturedBody.Read\<close>: the tail buffer after one read.\<close>

definition capturedRead :: "nat \<Rightarrow> gostring \<Rightarrow> gostring \<Rightarrow> gostring" where
  "capturedRead limit buf chunk =
     (if chunk = [] then buf
      else (let buf = buf @ chunk in if length buf > limit then drop (length buf - limit) buf else buf))"

text \<open>The chunks a copy loop reads before it stops, for \<open>io.Copy\<close> and \<open>PipeBody\<close> alike.\<close>

fun chunksRead :: "(gostring \<Rightarrow> nat \<times> bool) \<Rightarrow> (gostring \<times> read_error) list \<Rightarrow> gostring list" where
  "chunksRead write [] = []"
| "chunksRead write ((buf, err) # reads) =
     buf # (if buf \<noteq> [] \<and> snd (write buf) \<or> err \<noteq> NoError then [] else chunksRead write reads)"

definition captureForBudget :: "gostring list \<Rightarrow> gostring list \<Rightarrow> gostring" where
  "captureForBudget scopeKeys chunks =
     (if scopeKeys = [] then [] else foldl (capturedRead maxUsageCaptureBytes) [] chunks)"

text \<open>The headers and bytes the client gets, and whether the response was treated as a stream.\<close>

definition streamResponse :: "Run \<Rightarrow> bool \<Rightarrow> header \<times> gostring \<times> bool" where
  "streamResponse run requestedStream =
     (let isSSE = has_prefix ''text/event-stream'' (headerGet (run_respHeader run) ''Content-Type'');
          isStream = (requestedStream \<or> isSSE);
          h = copyForwardedHeaders (run_respHeader run) [];
          h = (if isStream \<and> headerGet h ''Cache-Control'' = '''' then headerSet ''Cache-Control'' ''no-cache'' h else h) in
      (h, fst (PipeBody (run_write run) (run_reads run) ([], 0, True)), isStream))"

definition parseUsageFor :: "Codec \<Rightarrow> bool \<Rightarrow> gostring \<Rightarrow> bool \<Rightarrow> counts" where
  "parseUsageFor codec anthropic body streamed =
     (if anthropic \<and> body \<noteq> [] then
        (if streamed \<or> looksLikeSSE body then AnthropicUsageTokensFromSSE (cd_anthropicEvent codec) body
         else AnthropicUsageTokens (cd_anthropicUsage codec) body)
      else if body = [] then None
      else if streamed \<or> looksLikeSSE body then UsageTokensFromSSE (cd_usage codec) body
      else UsageTokens (cd_usage codec) body)"

definition streamedReason :: "bool \<Rightarrow> gostring" where
  "streamedReason streamed = (if streamed then ''ok_stream'' else ''ok'')"

section \<open>The handler\<close>

datatype refusal =
    BodyTooLarge
  | BadJSON
  | NoRoute
  | FailClosed gate_error
  | BudgetExceeded gostring
  | PoolTimeout
  | PoolIncumbentBusy
  | FailClosedRuntime proxy_error
  | AllBackendsFailed proxy_error

text \<open>The reply: an error of the router itself, in the shape of the client's API, with its status and
  a \<open>Retry-After\<close>; the upstream's response; or a panic, which \<open>net/http\<close> turns into a closed
  connection.\<close>

datatype reply = Refused bool nat "int option" refusal | Relayed nat header gostring | Crashed

record budgetAudit =
  ba_Exhausted :: gostring
  ba_Tokens :: int
  ba_USD :: float64
  ba_Uncharged :: bool

definition noBudgetAudit :: budgetAudit where
  "noBudgetAudit = \<lparr>ba_Exhausted = '''', ba_Tokens = 0, ba_USD = 0, ba_Uncharged = False\<rparr>"

record auditLine =
  log_model :: gostring
  log_classification :: gostring
  log_taskComplexity :: gostring
  log_status :: nat
  log_outcome :: gostring
  log_rule :: "gostring option"
  log_backend :: "(gostring \<times> gostring) option"
  log_budgetExhausted :: "gostring option"
  log_budgetCharged :: "(int \<times> float64) option"
  log_budgetUncharged :: bool
  log_timeout :: duration

definition audit :: "Proxy \<Rightarrow> RequestFeatures \<Rightarrow> MatchResult \<Rightarrow> Backend option \<Rightarrow> nat \<Rightarrow> gostring \<Rightarrow> budgetAudit \<Rightarrow> auditLine" where
  "audit p f dec chosen statusCode outcome ba =
     \<lparr>log_model = rf_Model f, log_classification = rf_Classification f, log_taskComplexity = rf_TaskComplexity f,
      log_status = statusCode, log_outcome = outcome,
      log_rule = map_option rule_Name (mr_Rule dec),
      log_backend = map_option (\<lambda>b. (be_Name b, be_Tier b)) chosen,
      log_budgetExhausted = (if ba_Exhausted ba \<noteq> '''' then Some (ba_Exhausted ba) else None),
      log_budgetCharged = (if ba_Tokens ba > 0 \<or> ba_USD ba > 0 then Some (ba_Tokens ba, ba_USD ba) else None),
      log_budgetUncharged = ba_Uncharged ba,
      log_timeout = resolveDispatchTimeout (Some dec) chosen (d_responseHeaderTimeout (px_disp p))\<rparr>"

record Handled =
  hd_proxy :: Proxy
  hd_reply :: reply
  hd_audit :: "auditLine list"
  hd_sent :: "gostring list"
  hd_pool :: "pool_event list"

definition retryAfterSeconds :: "duration \<Rightarrow> int" where
  "retryAfterSeconds retryAfter = max 1 (- ((- retryAfter) div second))"

text \<open>After a dispatch that failed: the status is decided by the error and the rule.\<close>

definition refuseDispatch ::
    "Proxy \<Rightarrow> bool \<Rightarrow> RequestFeatures \<Rightarrow> MatchResult \<Rightarrow> Trail \<Rightarrow> proxy_error \<Rightarrow> Handled" where
  "refuseDispatch p anthropic f dec tr err =
     (let p' = p\<lparr>px_disp := tr_disp tr\<rparr>;
          refuse = (\<lambda>code retry outcome why.
            \<lparr>hd_proxy = p', hd_reply = Refused anthropic code retry why,
             hd_audit = [audit p' f dec None code outcome noBudgetAudit], hd_sent = tr_sent tr, hd_pool = tr_pool tr\<rparr>) in
      if (case err of PoolError ErrHoldBudgetExceeded \<Rightarrow> True | PoolError (ErrSwapDeadlineExceeded _) \<Rightarrow> True | _ \<Rightarrow> False) then
        refuse 503 (Some modelPoolRetryAfterSeconds) ''pool_activation_timeout'' PoolTimeout
      else if err = PoolError ErrIncumbentBusy then
        refuse 503 (Some modelPoolRetryAfterSeconds) ''pool_incumbent_busy'' PoolIncumbentBusy
      else if mr_FailClosed dec then refuse 503 None ''fail_closed_runtime'' (FailClosedRuntime err)
      else refuse 502 None ''all_backends_failed'' (AllBackendsFailed err))"

text \<open>After a dispatch that answered: stream the response, charge the budgets, close the body.\<close>

definition serve ::
    "Proxy \<Rightarrow> Run \<Rightarrow> bool \<Rightarrow> RequestFeatures \<Rightarrow> MatchResult \<Rightarrow> gostring list \<Rightarrow> bool \<Rightarrow> Trail
     \<Rightarrow> Backend \<Rightarrow> nat \<Rightarrow> Body \<Rightarrow> BackendPool option \<Rightarrow> Handled" where
  "serve p run anthropic f dec scopeKeys isStream tr chosen st bo pool =
     (let chunks = chunksRead (run_write run) (run_reads run);
          captured = captureForBudget scopeKeys chunks;
          (h, out, streamed) = streamResponse run isStream;
          d = foldl (\<lambda>d chunk. Body_Read d bo (length chunk)) (tr_disp tr) chunks;
          usage = parseUsageFor (run_codec run) anthropic captured streamed;
          (budgets, ba) =
            (if scopeKeys = [] then (px_budgets p, noBudgetAudit)
             else (case usage of
                 Some (prompt, completion) \<Rightarrow>
                   (let usd = CostUSD prompt completion (be_CostPerMillionTokens chosen);
                        tokens = wrap64 (prompt + completion) in
                    (Charge (px_budgets p) (run_charged run) scopeKeys tokens usd,
                     noBudgetAudit\<lparr>ba_Tokens := tokens, ba_USD := usd\<rparr>))
               | None \<Rightarrow> (px_budgets p, noBudgetAudit\<lparr>ba_Uncharged := True\<rparr>)));
          tr = poolEvent pool PoolReleased (tr\<lparr>tr_disp := fst (Body_Close d bo)\<rparr>) in
      \<lparr>hd_proxy = p\<lparr>px_disp := tr_disp tr, px_budgets := budgets\<rparr>,
       hd_reply = Relayed st h out,
       hd_audit = [audit p f dec (Some chosen) st (streamedReason streamed) ba],
       hd_sent = tr_sent tr, hd_pool = tr_pool tr\<rparr>)"

definition handleCompletion :: "gostring \<Rightarrow> Proxy \<Rightarrow> Run \<Rightarrow> header \<Rightarrow> gostring \<Rightarrow> Handled" where
  "handleCompletion upstreamPath p run headers body =
     (let anthropic = isAnthropicPath upstreamPath;
          refuse = (\<lambda>code retry why log.
            \<lparr>hd_proxy = p, hd_reply = Refused anthropic code retry why, hd_audit = log, hd_sent = [], hd_pool = []\<rparr>) in
      if length body > maxRequestBodyBytes then refuse 400 None BodyTooLarge []
      else (case extractFeatures (run_codec run) body headers (ClassificationHeader (px_cfg p)) of
          None \<Rightarrow> refuse 400 None BadJSON []
        | Some (f, isStream) \<Rightarrow>
            (let dec = Match (px_matcher p) f in
             if mr_Backends dec = [] then refuse 503 None NoRoute [audit p f dec None 503 ''no_route'' noBudgetAudit]
             else (case enforceFailClosed p f dec of
                 Some e \<Rightarrow> refuse 503 None (FailClosed e) [audit p f dec None 503 ''fail_closed'' noBudgetAudit]
               | None \<Rightarrow>
                   (let scopeKeys = budgetScopeKeys p f dec in
                    case (if scopeKeys = [] then BudgetOK else Allowed (px_budgets p) (run_admitted run) scopeKeys) of
                      BudgetExhausted retryAfter name \<Rightarrow>
                        refuse 429 (Some (retryAfterSeconds retryAfter)) (BudgetExceeded name)
                          [audit p f dec None 429 ''budget_exceeded'' (noBudgetAudit\<lparr>ba_Exhausted := name\<rparr>)]
                    | BudgetOK \<Rightarrow>
                        (let env = run_env run 0;
                             body = (if isStream \<and> scopeKeys \<noteq> [] \<and> \<not> anthropic
                                     then fst (InjectStreamUsage (env_unmarshalMap env) (env_unmarshalBool env) (env_marshalMap env) body)
                                     else body) in
                         case dispatchWithFallback p run dec headers body upstreamPath of
                           (tr, FallbackPanic) \<Rightarrow>
                             \<lparr>hd_proxy = p\<lparr>px_disp := tr_disp tr\<rparr>, hd_reply = Crashed, hd_audit = [],
                              hd_sent = tr_sent tr, hd_pool = tr_pool tr\<rparr>
                         | (tr, FallbackError err) \<Rightarrow> refuseDispatch p anthropic f dec tr err
                         | (tr, FallbackOK chosen st bo pool) \<Rightarrow>
                             serve p run anthropic f dec scopeKeys isStream tr chosen st bo pool))))))"

section \<open>Reading and closing a body\<close>

lemma callRelease_gone: "alist_get (d_handles d) k = None \<Longrightarrow> callRelease d (Some k) = d"
  by (simp add: callRelease_def)

lemma callRelease_twice: "callRelease (callRelease d h) h = callRelease d h"
proof (cases h)
  case (Some k)
  have "alist_get (d_handles (callRelease d (Some k))) k = None" by (simp add: callRelease_handles)
  then show ?thesis unfolding Some by (rule callRelease_gone)
qed (simp add: callRelease_def)

lemma Body_Close_Read [simp]: "fst (Body_Close (Body_Read d bo n) bo) = fst (Body_Close d bo)"
  by (simp add: Body_Close_def Body_Read_def callRelease_twice)

lemma Body_Close_Reads [simp]:
  "fst (Body_Close (foldl (\<lambda>d chunk. Body_Read d bo (length chunk)) d chunks) bo) = fst (Body_Close d bo)"
  by (induction chunks arbitrary: d) simp_all

lemma marks_only_health:
  "\<exists>m. markUnhealthy d now name ep = d\<lparr>d_health := m\<rparr>" "\<exists>m. markHealthy d name ep = d\<lparr>d_health := m\<rparr>"
  by (cases "d_health d (healthKey name ep)";
      auto simp: markUnhealthy_def markHealthy_def quarantine_def healthFor_def Let_def intro: exI)+

lemma load_inv_health: "load_inv d \<Longrightarrow> load_inv (d\<lparr>d_health := m\<rparr>)"
  by (erule load_inv_weaken) simp_all

lemma load_inv_marks:
  "load_inv d \<Longrightarrow> load_inv (markUnhealthy d now name ep)" "load_inv d \<Longrightarrow> load_inv (markHealthy d name ep)"
  using marks_only_health load_inv_health by metis+

lemma load_inv_Body_Close: "load_inv d \<Longrightarrow> load_inv (fst (Body_Close d bo))"
  by (simp add: Body_Close_def load_inv_callRelease)

lemma Dispatch_load_inv:
  assumes "load_inv d" and "Dispatch env d now later (Some b) method path headers body = (d', r)"
  shows "load_inv d'"
  using assms(2)
proof (cases rule: Dispatch_placed)
  case rr_panic
  with assms(1) show ?thesis by simp
next
  case (placed dp ep tk d1 ho d2 po)
  have "load_inv dp" using assms(1) placed(1) by (simp add: same_ledger_def)
  then have "load_inv d1" using load_inv_track [of dp "be_Name b" ep] placed(2) by simp
  then have "load_inv d2" using load_inv_trackPrefill [of d1 now "be_Name b" ep tk] placed(3) by simp
  with placed(4) show ?thesis by (auto simp: load_inv_callRelease load_inv_marks)
qed

section \<open>What the fallback loop does\<close>

lemma subseq_set: "subseq xs ys \<Longrightarrow> x \<in> set xs \<Longrightarrow> x \<in> set ys"
  by (induction rule: list_emb.induct) auto

text \<open>The slots a request took and gave back; every slot given back once, in turn.\<close>

definition slotEvents :: "pool_event list \<Rightarrow> pool_event list" where
  "slotEvents evs = filter (\<lambda>e. e \<notin> range PoolInvalidated) evs"

definition settled :: "pool_event list \<Rightarrow> bool" where
  "settled evs \<longleftrightarrow> (\<exists>qs. slotEvents evs = concat (map (\<lambda>q. [PoolAcquired q, PoolReleased q]) qs))"

definition acquired :: "BackendPool option \<Rightarrow> pool_event list" where
  "acquired pool = (case pool of None \<Rightarrow> [] | Some q \<Rightarrow> [PoolAcquired q])"

lemma slotEvents_append [simp]: "slotEvents (xs @ ys) = slotEvents xs @ slotEvents ys"
  by (simp add: slotEvents_def)

lemma settled_Nil [simp]: "settled []"
  unfolding settled_def by (rule exI [of _ "[]"]) (simp add: slotEvents_def)

lemma settled_pair:
  "settled evs \<Longrightarrow> slotEvents xs = (case pool of None \<Rightarrow> [] | Some q \<Rightarrow> [PoolAcquired q, PoolReleased q]) \<Longrightarrow> settled (evs @ xs)"
  unfolding settled_def
proof (elim exE)
  fix qs
  assume "slotEvents evs = concat (map (\<lambda>q. [PoolAcquired q, PoolReleased q]) qs)"
    "slotEvents xs = (case pool of None \<Rightarrow> [] | Some q \<Rightarrow> [PoolAcquired q, PoolReleased q])"
  then have "slotEvents (evs @ xs) = concat (map (\<lambda>q. [PoolAcquired q, PoolReleased q]) (qs @ (case pool of None \<Rightarrow> [] | Some q \<Rightarrow> [q])))"
    by (simp split: option.splits)
  then show "\<exists>qs. slotEvents (evs @ xs) = concat (map (\<lambda>q. [PoolAcquired q, PoolReleased q]) qs)" by blast
qed

lemma poolEvent_simps [simp]:
  "tr_disp (poolEvent pool ev tr) = tr_disp tr" "tr_sent (poolEvent pool ev tr) = tr_sent tr"
  "tr_pool (poolEvent pool ev tr) = tr_pool tr @ (case pool of None \<Rightarrow> [] | Some q \<Rightarrow> [ev q])"
  by (simp_all add: poolEvent_def split: option.splits)

lemma attemptBackend_effect:
  assumes "attemptBackend run i pool b headers body path tr = (tr', r)" and "load_inv (tr_disp tr)"
  shows "tr_sent tr' = tr_sent tr @ [be_Name b]" and "load_inv (tr_disp tr')"
    and "r = AttemptFailed e \<Longrightarrow> d_handles (tr_disp tr') = d_handles (tr_disp tr) \<and>
      (\<exists>xs. tr_pool tr' = tr_pool tr @ xs \<and> slotEvents xs = (case pool of None \<Rightarrow> [] | Some q \<Rightarrow> [PoolAcquired q, PoolReleased q]))"
    and "r = AttemptOK st bo \<Longrightarrow> st < 500 \<and> d_handles (fst (Body_Close (tr_disp tr') bo)) = d_handles (tr_disp tr) \<and>
      tr_pool tr' = tr_pool tr @ acquired pool"
    and "r = AttemptPanic \<Longrightarrow> tr_pool tr' = tr_pool tr @ acquired pool"
proof -
  obtain d x where disp: "Dispatch (run_env run i) (tr_disp tr) (fst (run_clock run i)) (snd (run_clock run i))
      (Some b) ''POST'' path headers body = (d, x)"
    by (cases "Dispatch (run_env run i) (tr_disp tr) (fst (run_clock run i)) (snd (run_clock run i)) (Some b) ''POST'' path headers body")
  note back' = Dispatch_gives_back [OF assms(2) disp] and inv = Dispatch_load_inv [OF assms(2) disp]
  have pair: "slotEvents ((case pool of None \<Rightarrow> [] | Some q \<Rightarrow> [PoolAcquired q]) @
      (case pool of None \<Rightarrow> [] | Some q \<Rightarrow> [PoolInvalidated q]) @ (case pool of None \<Rightarrow> [] | Some q \<Rightarrow> [PoolReleased q])) =
      (case pool of None \<Rightarrow> [] | Some q \<Rightarrow> [PoolAcquired q, PoolReleased q])"
    "slotEvents ((case pool of None \<Rightarrow> [] | Some q \<Rightarrow> [PoolAcquired q]) @ (case pool of None \<Rightarrow> [] | Some q \<Rightarrow> [PoolReleased q])) =
      (case pool of None \<Rightarrow> [] | Some q \<Rightarrow> [PoolAcquired q, PoolReleased q])"
    by (auto simp: slotEvents_def split: option.splits)
  note d = attemptBackend_def Let_def disp
  show "tr_sent tr' = tr_sent tr @ [be_Name b]"
    using assms(1) by (cases x) (auto simp: d split: if_splits)
  show "load_inv (tr_disp tr')"
    using assms(1) inv by (cases x) (auto simp: d load_inv_Body_Close split: if_splits)
  show "d_handles (tr_disp tr') = d_handles (tr_disp tr) \<and>
      (\<exists>xs. tr_pool tr' = tr_pool tr @ xs \<and> slotEvents xs = (case pool of None \<Rightarrow> [] | Some q \<Rightarrow> [PoolAcquired q, PoolReleased q]))"
    if "r = AttemptFailed e"
    using assms(1) back' that pair by (cases x) (auto simp: d split: if_splits)
  show "st < 500 \<and> d_handles (fst (Body_Close (tr_disp tr') bo)) = d_handles (tr_disp tr) \<and> tr_pool tr' = tr_pool tr @ acquired pool"
    if "r = AttemptOK st bo"
    using assms(1) back' that by (cases x) (auto simp: d acquired_def split: if_splits)
  show "tr_pool tr' = tr_pool tr @ acquired pool" if "r = AttemptPanic"
    using assms(1) that by (cases x) (auto simp: d acquired_def split: if_splits)
qed

text \<open>The loop sends the request to backends of the list in order, all of them configured; it ends
  with an error and everything given back, or with the answer of the last backend it tried, whose
  body still holds its counts and its slot.\<close>

definition fallback_ok :: "Proxy \<Rightarrow> gostring list \<Rightarrow> Trail \<Rightarrow> Trail \<Rightarrow> fallback_result \<Rightarrow> bool" where
  "fallback_ok p names tr tr' r \<longleftrightarrow>
     (\<exists>xs. tr_sent tr' = tr_sent tr @ xs \<and> subseq xs names \<and>
        (\<forall>n \<in> set xs. \<exists>b. Matcher_BackendByName (px_matcher p) n = Some b) \<and>
        (\<forall>b st bo pool. r = FallbackOK b st bo pool \<longrightarrow>
           xs \<noteq> [] \<and> last xs = be_Name b \<and> Matcher_BackendByName (px_matcher p) (be_Name b) = Some b)) \<and>
     load_inv (tr_disp tr') \<and>
     (\<forall>e. r = FallbackError e \<longrightarrow> d_handles (tr_disp tr') = d_handles (tr_disp tr) \<and> settled (tr_pool tr')) \<and>
     (\<forall>b st bo pool. r = FallbackOK b st bo pool \<longrightarrow> st < 500 \<and>
        d_handles (fst (Body_Close (tr_disp tr') bo)) = d_handles (tr_disp tr) \<and>
        (\<exists>evs. settled evs \<and> tr_pool tr' = evs @ acquired pool))"

lemma fallback_ok_skip: "fallback_ok p names tr tr' r \<Longrightarrow> fallback_ok p (n # names) tr tr' r"
  unfolding fallback_ok_def by (blast intro: subseq_Cons')

lemma fallback_ok_next:
  assumes "fallback_ok p names tr1 tr' r" and "tr_sent tr1 = tr_sent tr @ [n]"
    and "Matcher_BackendByName (px_matcher p) n = Some b" and "d_handles (tr_disp tr1) = d_handles (tr_disp tr)"
  shows "fallback_ok p (n # names) tr tr' r"
proof -
  obtain xs where xs: "tr_sent tr' = tr_sent tr1 @ xs" "subseq xs names"
    "\<forall>n \<in> set xs. \<exists>b. Matcher_BackendByName (px_matcher p) n = Some b"
    "\<forall>b st bo pool. r = FallbackOK b st bo pool \<longrightarrow>
       xs \<noteq> [] \<and> last xs = be_Name b \<and> Matcher_BackendByName (px_matcher p) (be_Name b) = Some b"
    using assms(1) unfolding fallback_ok_def by blast
  have "\<exists>ys. tr_sent tr' = tr_sent tr @ ys \<and> subseq ys (n # names) \<and>
      (\<forall>n \<in> set ys. \<exists>b. Matcher_BackendByName (px_matcher p) n = Some b) \<and>
      (\<forall>b st bo pool. r = FallbackOK b st bo pool \<longrightarrow>
         ys \<noteq> [] \<and> last ys = be_Name b \<and> Matcher_BackendByName (px_matcher p) (be_Name b) = Some b)"
    using xs assms(2,3) by (intro exI [of _ "n # xs"]) auto
  with assms(1,4) show ?thesis unfolding fallback_ok_def by simp
qed

lemma dispatchFrom_ok:
  assumes "\<And>n b. Matcher_BackendByName (px_matcher p) n = Some b \<Longrightarrow> be_Name b = n"
    and "load_inv (tr_disp tr)" and "settled (tr_pool tr)"
    and "dispatchFrom p run dec headers body path i lastErr busy tr names = (tr', r)"
  shows "fallback_ok p names tr tr' r"
  using assms(2-)
proof (induction names arbitrary: i lastErr busy tr)
  case Nil
  then show ?case by (auto simp: fallback_ok_def)
next
  case (Cons n names)
  show ?case
  proof (cases "Matcher_BackendByName (px_matcher p) n")
    case None
    then show ?thesis using Cons.IH [OF Cons.prems(1,2)] Cons.prems(3) by (auto intro!: fallback_ok_skip)
  next
    case (Some b)
    then have name: "be_Name b = n" by (rule assms(1))
    define pool where "pool = (if px_activator p then be_Pool b else None)"
    define acq where "acq = (if pool = None then None else run_acquire run i)"
    note step = Cons.prems(3) [unfolded dispatchFrom.simps Some option.case Let_def, folded pool_def, folded acq_def]
    show ?thesis
    proof (cases "IsHealthy (tr_disp tr) (fst (run_clock run i)) n")
      case False
      then show ?thesis using step Cons.IH [OF Cons.prems(1,2)] by (auto intro!: fallback_ok_skip)
    next
      case True
      show ?thesis
      proof (cases acq)
        case (Some e)
        then show ?thesis using step True Cons.IH [OF Cons.prems(1,2)] by (auto intro!: fallback_ok_skip)
      next
        case None
        obtain tr1 a where at: "attemptBackend run i pool b headers body path tr = (tr1, a)"
          by (cases "attemptBackend run i pool b headers body path tr")
        note eff = attemptBackend_effect [OF at Cons.prems(1)]
        show ?thesis
        proof (cases a)
          case AttemptPanic
          then have "tr' = tr1" "r = FallbackPanic" using step True None at by simp_all
          then show ?thesis using eff(1,2) name Some by (auto simp: fallback_ok_def)
        next
          case (AttemptFailed e)
          from eff(3) [OF this] obtain xs where h: "d_handles (tr_disp tr1) = d_handles (tr_disp tr)"
            and xs: "tr_pool tr1 = tr_pool tr @ xs" "slotEvents xs = (case pool of None \<Rightarrow> [] | Some q \<Rightarrow> [PoolAcquired q, PoolReleased q])"
            by blast
          have "settled (tr_pool tr1)" unfolding xs(1) using Cons.prems(2) xs(2) by (rule settled_pair)
          moreover have "dispatchFrom p run dec headers body path (Suc i) (Some e) False tr1 names = (tr', r)"
            using step True None at AttemptFailed by simp
          ultimately have "fallback_ok p names tr1 tr' r" using Cons.IH eff(2) by blast
          then show ?thesis by (rule fallback_ok_next) (simp_all add: eff(1) name Some h)
        next
          case (AttemptOK st bo)
          then have "tr' = tr1" "r = FallbackOK b st bo pool" using step True None at by simp_all
          then show ?thesis using eff(1,2) eff(4) [OF AttemptOK] name Some Cons.prems(2) by (auto simp: fallback_ok_def)
        qed
      qed
    qed
  qed
qed

section \<open>The handler, case by case\<close>

text \<open>A request is admitted when it parses, is routed, passes the fail-closed gate and no budget of
  its scopes is exhausted.\<close>

definition admitted :: "Proxy \<Rightarrow> Run \<Rightarrow> header \<Rightarrow> gostring \<Rightarrow> RequestFeatures \<Rightarrow> bool \<Rightarrow> bool" where
  "admitted p run headers body f isStream \<longleftrightarrow> length body \<le> maxRequestBodyBytes \<and>
     extractFeatures (run_codec run) body headers (ClassificationHeader (px_cfg p)) = Some (f, isStream) \<and>
     mr_Backends (Match (px_matcher p) f) \<noteq> [] \<and> enforceFailClosed p f (Match (px_matcher p) f) = None \<and>
     (budgetScopeKeys p f (Match (px_matcher p) f) = [] \<or>
      Allowed (px_budgets p) (run_admitted run) (budgetScopeKeys p f (Match (px_matcher p) f)) = BudgetOK)"

definition outboundBody :: "Proxy \<Rightarrow> Run \<Rightarrow> gostring \<Rightarrow> RequestFeatures \<Rightarrow> bool \<Rightarrow> gostring \<Rightarrow> gostring" where
  "outboundBody p run path f isStream body =
     (let env = run_env run 0 in
      if isStream \<and> budgetScopeKeys p f (Match (px_matcher p) f) \<noteq> [] \<and> \<not> isAnthropicPath path
      then fst (InjectStreamUsage (env_unmarshalMap env) (env_unmarshalBool env) (env_marshalMap env) body) else body)"

lemma handle_admitted:
  assumes "admitted p run headers body f isStream"
  shows "handleCompletion path p run headers body =
    (let dec = Match (px_matcher p) f in
     case dispatchWithFallback p run dec headers (outboundBody p run path f isStream body) path of
       (tr, FallbackPanic) \<Rightarrow>
         \<lparr>hd_proxy = p\<lparr>px_disp := tr_disp tr\<rparr>, hd_reply = Crashed, hd_audit = [], hd_sent = tr_sent tr, hd_pool = tr_pool tr\<rparr>
     | (tr, FallbackError err) \<Rightarrow> refuseDispatch p (isAnthropicPath path) f dec tr err
     | (tr, FallbackOK chosen st bo pool) \<Rightarrow>
         serve p run (isAnthropicPath path) f dec (budgetScopeKeys p f dec) isStream tr chosen st bo pool)"
proof -
  have "(if budgetScopeKeys p f (Match (px_matcher p) f) = [] then BudgetOK
      else Allowed (px_budgets p) (run_admitted run) (budgetScopeKeys p f (Match (px_matcher p) f))) = BudgetOK"
    using assms by (auto simp: admitted_def)
  with assms show ?thesis unfolding handleCompletion_def admitted_def outboundBody_def Let_def by simp
qed

lemma handle_refused:
  assumes "\<nexists>f isStream. admitted p run headers body f isStream"
  obtains code retry why log where "handleCompletion path p run headers body =
    \<lparr>hd_proxy = p, hd_reply = Refused (isAnthropicPath path) code retry why, hd_audit = log, hd_sent = [], hd_pool = []\<rparr>"
    "code \<in> {400, 429, 503}" "if code = 400 then log = [] else map log_status log = [code]"
    "code = 429 \<longrightarrow> (\<exists>f isStream ra name. extractFeatures (run_codec run) body headers (ClassificationHeader (px_cfg p)) = Some (f, isStream) \<and>
       Allowed (px_budgets p) (run_admitted run) (budgetScopeKeys p f (Match (px_matcher p) f)) = BudgetExhausted ra name \<and>
       retry = Some (retryAfterSeconds ra) \<and> why = BudgetExceeded name)"
proof (cases "length body > maxRequestBodyBytes \<or>
    extractFeatures (run_codec run) body headers (ClassificationHeader (px_cfg p)) = None")
  case True
  show thesis
  proof (rule that)
    show "handleCompletion path p run headers body = \<lparr>hd_proxy = p, hd_reply = Refused (isAnthropicPath path) 400 None
        (if length body > maxRequestBodyBytes then BodyTooLarge else BadJSON), hd_audit = [], hd_sent = [], hd_pool = []\<rparr>"
      using True by (auto simp: handleCompletion_def Let_def)
  qed simp_all
next
  case False
  then obtain f s where f: "extractFeatures (run_codec run) body headers (ClassificationHeader (px_cfg p)) = Some (f, s)"
    and len: "\<not> length body > maxRequestBodyBytes" by auto
  let ?dec = "Match (px_matcher p) f"
  let ?keys = "budgetScopeKeys p f ?dec"
  note d = handleCompletion_def Let_def f
  consider (route) "mr_Backends ?dec = []" | (gate) e where "mr_Backends ?dec \<noteq> []" "enforceFailClosed p f ?dec = Some e"
    | (spent) ra name where "mr_Backends ?dec \<noteq> []" "enforceFailClosed p f ?dec = None" "?keys \<noteq> []"
        "Allowed (px_budgets p) (run_admitted run) ?keys = BudgetExhausted ra name"
    using assms f len unfolding admitted_def by (metis budget_verdict.exhaust not_le_imp_less option.exhaust)
  then show thesis
  proof cases
    case route
    show thesis
      by (rule that [of 503 None NoRoute "[audit p f ?dec None 503 ''no_route'' noBudgetAudit]"])
        (use route len in \<open>simp_all add: d audit_def\<close>)
  next
    case (gate e)
    show thesis
      by (rule that [of 503 None "FailClosed e" "[audit p f ?dec None 503 ''fail_closed'' noBudgetAudit]"])
        (use gate len in \<open>simp_all add: d audit_def\<close>)
  next
    case (spent ra name)
    show thesis
      by (rule that [of 429 "Some (retryAfterSeconds ra)" "BudgetExceeded name"
            "[audit p f ?dec None 429 ''budget_exceeded'' (noBudgetAudit\<lparr>ba_Exhausted := name\<rparr>)]"])
        (use spent len f in \<open>simp_all add: d audit_def\<close>)
  qed
qed

section \<open>The proxy over any sequence of requests\<close>

definition dispatcherOption :: "(Dispatcher \<Rightarrow> Dispatcher) \<Rightarrow> bool" where
  "dispatcherOption opt \<longleftrightarrow>
     opt \<in> range WithQuarantineDuration \<union> range WithRouterLabel \<union> range WithResponseHeaderTimeout \<union> range WithStreamIdleTimeout"

definition proxyOption :: "(Proxy \<Rightarrow> Proxy) \<Rightarrow> bool" where
  "proxyOption opt \<longleftrightarrow> opt \<in> range WithRouterName \<union> range WithActivator \<union>
     WithDispatcherOptions ` {opts. \<forall>o' \<in> set opts. dispatcherOption o'}"

definition proxy_start :: "Proxy \<Rightarrow> bool" where
  "proxy_start p \<longleftrightarrow> (\<exists>cfg opts. p = NewProxy cfg opts \<and> (\<forall>opt \<in> set opts. proxyOption opt))"

definition request_step :: "Proxy \<Rightarrow> Proxy \<Rightarrow> bool" where
  "request_step p p' \<longleftrightarrow> (\<exists>path run headers body. p' = hd_proxy (handleCompletion path p run headers body))"

definition proxy_inv :: "Proxy \<Rightarrow> bool" where
  "proxy_inv p \<longleftrightarrow> px_matcher p = NewMatcher (px_cfg p) \<and> load_inv (px_disp p)"

lemma load_inv_NewDispatcher:
  assumes "\<forall>opt \<in> set opts. dispatcherOption opt"
  shows "load_inv (NewDispatcher cfg opts)"
proof -
  have "load_start (NewDispatcher cfg opts)"
    using assms by (intro NewDispatcher_start)
      (auto simp: dispatcherOption_def load_start_def WithQuarantineDuration_def WithRouterLabel_def
        WithResponseHeaderTimeout_def WithStreamIdleTimeout_def)
  then show ?thesis using loads.holds_reachable rtranclp.rtrancl_refl by blast
qed

lemma proxy_start_inv: "proxy_start p \<Longrightarrow> proxy_inv p"
proof -
  assume "proxy_start p"
  then obtain cfg opts where p: "p = NewProxy cfg opts" and opts: "\<forall>opt \<in> set opts. proxyOption opt"
    by (auto simp: proxy_start_def)
  have step: "proxy_inv q \<Longrightarrow> proxyOption opt \<Longrightarrow> proxy_inv (opt q)" for q opt
    by (auto simp: proxy_inv_def proxyOption_def WithRouterName_def WithActivator_def WithDispatcherOptions_def load_inv_NewDispatcher)
  have "proxy_inv q \<Longrightarrow> proxy_inv (foldl (\<lambda>p opt. opt p) q opts)" for q
    using opts by (induction opts arbitrary: q) (simp_all add: step)
  then show ?thesis unfolding p NewProxy_def by (simp add: proxy_inv_def load_inv_NewDispatcher)
qed

lemma NewMatcher_named:
  "Matcher_BackendByName (NewMatcher c) n = Some b \<Longrightarrow> be_Name b = n \<and> b \<in> set (cfg_Backends c)"
proof -
  have "foldl (\<lambda>m b. m(be_Name b \<mapsto> b)) M bs n = Some b \<Longrightarrow> M n = Some b \<or> be_Name b = n \<and> b \<in> set bs" for M bs
    by (induction bs arbitrary: M) (fastforce split: if_splits)+
  then show "Matcher_BackendByName (NewMatcher c) n = Some b \<Longrightarrow> be_Name b = n \<and> b \<in> set (cfg_Backends c)"
    by (fastforce simp: Matcher_BackendByName_def NewMatcher_def)
qed

lemma dispatchWithFallback_ok:
  assumes "proxy_inv p" and "dispatchWithFallback p run dec headers body path = (tr, r)"
  shows "fallback_ok p (mr_Backends dec) \<lparr>tr_disp = px_disp p, tr_pool = [], tr_sent = []\<rparr> tr r"
  using assms NewMatcher_named
  by (intro dispatchFrom_ok [where i = 0 and lastErr = None and busy = True]) (auto simp: proxy_inv_def dispatchWithFallback_def)

lemma refuseDispatch_fields:
  "hd_proxy (refuseDispatch p a f dec tr e) = p\<lparr>px_disp := tr_disp tr\<rparr>"
  "hd_sent (refuseDispatch p a f dec tr e) = tr_sent tr" "hd_pool (refuseDispatch p a f dec tr e) = tr_pool tr"
  "\<exists>code retry why. hd_reply (refuseDispatch p a f dec tr e) = Refused a code retry why \<and> code \<in> {502, 503} \<and>
     (mr_FailClosed dec \<longrightarrow> code = 503) \<and> map log_status (hd_audit (refuseDispatch p a f dec tr e)) = [code]"
  by (simp_all add: refuseDispatch_def Let_def audit_def)

lemma serve_fields:
  "px_disp (hd_proxy (serve p run a f dec keys s tr b st bo pool)) = fst (Body_Close (tr_disp tr) bo)"
  "px_matcher (hd_proxy (serve p run a f dec keys s tr b st bo pool)) = px_matcher p"
  "px_cfg (hd_proxy (serve p run a f dec keys s tr b st bo pool)) = px_cfg p"
  "hd_sent (serve p run a f dec keys s tr b st bo pool) = tr_sent tr"
  "hd_pool (serve p run a f dec keys s tr b st bo pool) = tr_pool tr @ (case pool of None \<Rightarrow> [] | Some q \<Rightarrow> [PoolReleased q])"
  "\<exists>h out. hd_reply (serve p run a f dec keys s tr b st bo pool) = Relayed st h out"
  "map log_status (hd_audit (serve p run a f dec keys s tr b st bo pool)) = [st]"
  by (simp_all add: serve_def Let_def split_beta audit_def)

lemma handle_inv: "proxy_inv p \<Longrightarrow> proxy_inv (hd_proxy (handleCompletion path p run headers body))"
proof -
  assume inv: "proxy_inv p"
  show ?thesis
  proof (cases "\<exists>f s. admitted p run headers body f s")
    case False
    then obtain code retry why log where "handleCompletion path p run headers body =
      \<lparr>hd_proxy = p, hd_reply = Refused (isAnthropicPath path) code retry why, hd_audit = log, hd_sent = [], hd_pool = []\<rparr>"
      by (rule handle_refused [of p run headers body path])
    with inv show ?thesis by simp
  next
    case True
    then obtain f s where adm: "admitted p run headers body f s" by blast
    obtain tr r where disp: "dispatchWithFallback p run (Match (px_matcher p) f) headers (outboundBody p run path f s body) path = (tr, r)"
      by (cases "dispatchWithFallback p run (Match (px_matcher p) f) headers (outboundBody p run path f s body) path")
    have "load_inv (tr_disp tr)" using dispatchWithFallback_ok [OF inv disp] by (simp add: fallback_ok_def)
    then show ?thesis
      using inv unfolding handle_admitted [OF adm] Let_def disp
      by (cases r) (simp_all add: proxy_inv_def refuseDispatch_fields serve_fields load_inv_Body_Close)
  qed
qed

interpretation requests: step_invariant proxy_start request_step proxy_inv
  by unfold_locales (auto simp: request_step_def proxy_start_inv handle_inv)

section \<open>Budgets over a sequence of requests\<close>

type_synonym request = "gostring \<times> Run \<times> header \<times> gostring"

text \<open>The charge a request makes, read off its reply and the response that went through: nothing
  unless the response was relayed, a budget applies and the upstream reported usage.\<close>

definition chargeOf :: "Proxy \<Rightarrow> request \<Rightarrow> charge_call list" where
  "chargeOf p req = (case req of (path, run, headers, body) \<Rightarrow>
     let h = handleCompletion path p run headers body in
     case (extractFeatures (run_codec run) body headers (ClassificationHeader (px_cfg p)), hd_reply h) of
       (Some (f, isStream), Relayed st hdr out) \<Rightarrow>
         (let keys = budgetScopeKeys p f (Match (px_matcher p) f);
              captured = captureForBudget keys (chunksRead (run_write run) (run_reads run));
              streamed = snd (snd (streamResponse run isStream)) in
          if keys = [] then []
          else (case parseUsageFor (run_codec run) (isAnthropicPath path) captured streamed of
              None \<Rightarrow> []
            | Some (prompt, completion) \<Rightarrow>
                [(run_charged run, keys, wrap64 (prompt + completion),
                  CostUSD prompt completion
                    (Option.bind (Matcher_BackendByName (px_matcher p) (last (hd_sent h))) be_CostPerMillionTokens))]))
     | _ \<Rightarrow> [])"

fun serveAll :: "Proxy \<Rightarrow> request list \<Rightarrow> Proxy \<times> charge_call list" where
  "serveAll p [] = (p, [])"
| "serveAll p ((path, run, headers, body) # reqs) =
     (let (p', cs) = serveAll (hd_proxy (handleCompletion path p run headers body)) reqs in
      (p', chargeOf p (path, run, headers, body) @ cs))"

lemma handle_charges:
  assumes "proxy_inv p"
  shows "px_budgets (hd_proxy (handleCompletion path p run headers body)) =
    run_charges (px_budgets p) (chargeOf p (path, run, headers, body))"
    "px_cfg (hd_proxy (handleCompletion path p run headers body)) = px_cfg p"
proof -
  have "px_budgets (hd_proxy (handleCompletion path p run headers body)) =
      run_charges (px_budgets p) (chargeOf p (path, run, headers, body)) \<and>
    px_cfg (hd_proxy (handleCompletion path p run headers body)) = px_cfg p"
  proof (cases "\<exists>f s. admitted p run headers body f s")
    case False
    then obtain code retry why log where h: "handleCompletion path p run headers body =
      \<lparr>hd_proxy = p, hd_reply = Refused (isAnthropicPath path) code retry why, hd_audit = log, hd_sent = [], hd_pool = []\<rparr>"
      by (rule handle_refused [of p run headers body path])
    show ?thesis by (simp add: chargeOf_def h Let_def split: option.splits)
  next
    case True
    then obtain f s where adm: "admitted p run headers body f s" by blast
    then have f: "extractFeatures (run_codec run) body headers (ClassificationHeader (px_cfg p)) = Some (f, s)"
      by (simp add: admitted_def)
    obtain tr r where disp: "dispatchWithFallback p run (Match (px_matcher p) f) headers (outboundBody p run path f s body) path = (tr, r)"
      by (cases "dispatchWithFallback p run (Match (px_matcher p) f) headers (outboundBody p run path f s body) path")
    note ok = dispatchWithFallback_ok [OF assms disp]
    note h = handle_admitted [OF adm, of path, unfolded Let_def disp]
    show ?thesis
    proof (cases r)
      case FallbackPanic
      then show ?thesis by (simp add: chargeOf_def h f)
    next
      case (FallbackError e)
      obtain code retry why where "hd_reply (refuseDispatch p (isAnthropicPath path) f (Match (px_matcher p) f) tr e) =
          Refused (isAnthropicPath path) code retry why" using refuseDispatch_fields(4) by blast
      with FallbackError show ?thesis by (simp add: chargeOf_def h f refuseDispatch_fields)
    next
      case (FallbackOK b st bo pool)
      have chosen: "tr_sent tr \<noteq> [] \<and> last (tr_sent tr) = be_Name b \<and> Matcher_BackendByName (px_matcher p) (be_Name b) = Some b"
        using ok FallbackOK unfolding fallback_ok_def by auto
      obtain hdr out streamed where st: "streamResponse run s = (hdr, out, streamed)" by (cases "streamResponse run s")
      show ?thesis
        using FallbackOK chosen
        by (auto simp: chargeOf_def h f st serve_def Let_def split: option.splits prod.splits)
    qed
  qed
  then show "px_budgets (hd_proxy (handleCompletion path p run headers body)) =
      run_charges (px_budgets p) (chargeOf p (path, run, headers, body))"
    "px_cfg (hd_proxy (handleCompletion path p run headers body)) = px_cfg p" by simp_all
qed

lemma run_charges_append: "run_charges s (xs @ ys) = run_charges (run_charges s xs) ys"
  by (simp add: run_charges_def)

lemma serveAll_charges:
  assumes "proxy_inv p"
  shows "proxy_inv (fst (serveAll p reqs)) \<and> px_cfg (fst (serveAll p reqs)) = px_cfg p \<and>
    px_budgets (fst (serveAll p reqs)) = run_charges (px_budgets p) (snd (serveAll p reqs))"
  using assms
proof (induction reqs arbitrary: p)
  case Nil
  then show ?case by simp
next
  case (Cons r reqs)
  obtain path run headers body where r: "r = (path, run, headers, body)" by (cases r)
  let ?p = "hd_proxy (handleCompletion path p run headers body)"
  have "proxy_inv ?p" using Cons.prems by (rule handle_inv)
  from Cons.IH [OF this] handle_charges [OF Cons.prems, of path run headers body] show ?case
    by (simp add: r split_beta run_charges_append)
qed

lemma proxy_start_budgets:
  assumes "proxy_start p"
  shows "px_budgets p = NewBudgetStore (compileBudgetRules (pol_Budgets (cfg_Policy (px_cfg p))))"
proof -
  obtain cfg opts where p: "p = NewProxy cfg opts" and opts: "\<forall>opt \<in> set opts. proxyOption opt"
    using assms by (auto simp: proxy_start_def)
  have step: "px_budgets (opt q) = px_budgets q \<and> px_cfg (opt q) = px_cfg q" if "proxyOption opt" for q opt
    using that by (auto simp: proxyOption_def WithRouterName_def WithActivator_def WithDispatcherOptions_def)
  have "px_budgets (foldl (\<lambda>p opt. opt p) q opts) = px_budgets q \<and> px_cfg (foldl (\<lambda>p opt. opt p) q opts) = px_cfg q" for q
    using opts step by (induction opts arbitrary: q) simp_all
  then show ?thesis unfolding p NewProxy_def by simp
qed

section \<open>The tail buffer\<close>

text \<open>However the response is cut into reads, the buffer holds the last bytes of it.\<close>

lemma capturedRead_tail:
  "foldl (capturedRead limit) (drop (length xs - limit) xs) chunks =
     (let ys = xs @ concat chunks in drop (length ys - limit) ys)"
proof (induction chunks arbitrary: xs)
  case Nil
  show ?case by simp
next
  case (Cons c cs)
  have "capturedRead limit (drop (length xs - limit) xs) c = drop (length (xs @ c) - limit) (xs @ c)"
    by (cases "length xs \<le> limit") (auto simp: capturedRead_def Let_def drop_append add.commute)
  with Cons [of "xs @ c"] show ?case by simp
qed

lemma reachable_cfg:
  assumes "request_step\<^sup>*\<^sup>* p p'" and "proxy_inv p"
  shows "px_cfg p' = px_cfg p"
proof -
  from assms have "proxy_inv p' \<and> px_cfg p' = px_cfg p"
    by (induction rule: rtranclp_induct) (auto simp: request_step_def handle_inv handle_charges(2))
  then show ?thesis by simp
qed

lemma sent_guarded:
  assumes inv: "proxy_inv p" and "extractFeatures (run_codec run) body headers (ClassificationHeader (px_cfg p)) = Some (f, isStream)"
    and "name \<in> set (hd_sent (handleCompletion path p run headers body))"
  shows "name \<in> set (mr_Backends (Match (px_matcher p) f)) \<and>
    (\<exists>b \<in> set (cfg_Backends (px_cfg p)). be_Name b = name \<and>
       (mr_FailClosed (Match (px_matcher p) f) \<and> rf_Classification f \<in> SensitiveSet (px_cfg p) \<longrightarrow> be_Tier b = ''local''))"
proof (cases "\<exists>f s. admitted p run headers body f s")
  case False
  then have "hd_sent (handleCompletion path p run headers body) = []"
    by (rule handle_refused [of p run headers body path]) simp
  with assms(3) show ?thesis by simp
next
  case True
  then have adm: "admitted p run headers body f isStream" using assms(2) by (auto simp: admitted_def)
  let ?dec = "Match (px_matcher p) f"
  obtain tr r where disp: "dispatchWithFallback p run ?dec headers (outboundBody p run path f isStream body) path = (tr, r)"
    by (cases "dispatchWithFallback p run ?dec headers (outboundBody p run path f isStream body) path")
  have sent: "hd_sent (handleCompletion path p run headers body) = tr_sent tr"
    unfolding handle_admitted [OF adm] Let_def disp by (cases r) (simp_all add: refuseDispatch_fields serve_fields)
  from dispatchWithFallback_ok [OF inv disp] assms(3) sent have n: "name \<in> set (mr_Backends ?dec)"
    and "\<exists>b. Matcher_BackendByName (px_matcher p) name = Some b"
    unfolding fallback_ok_def by (auto dest: subseq_set)
  then obtain b where b: "Matcher_BackendByName (px_matcher p) name = Some b" by blast
  then have named: "be_Name b = name" "b \<in> set (cfg_Backends (px_cfg p))"
    using inv NewMatcher_named by (auto simp: proxy_inv_def)
  have gate: "\<forall>n \<in> set ns. \<forall>b. Matcher_BackendByName (px_matcher p) n = Some b \<longrightarrow> be_Tier b = ''local''"
    if "gateBackends (px_matcher p) cls ns = None" for cls ns
    using that by (induction ns) (auto split: option.splits if_splits)
  have "be_Tier b = ''local''" if "mr_FailClosed ?dec" "rf_Classification f \<in> SensitiveSet (px_cfg p)"
    using adm that gate n b by (auto simp: admitted_def enforceFailClosed_def)
  with n named show ?thesis by blast
qed

section \<open>Properties\<close>

text \<open>C1. Sensitive data stays local. Whatever requests came before, when a request whose
  classification is sensitive matches a fail-closed rule, every backend it is sent to, fallbacks
  included, is one the rule names, is configured, and is of the local tier. And any request at all
  is only sent to backends of its decision.\<close>
theorem sensitive_stays_local:
  assumes "proxy_start p0" and "request_step\<^sup>*\<^sup>* p0 p"
    and "extractFeatures (run_codec run) body headers (ClassificationHeader (px_cfg p)) = Some (f, isStream)"
    and "name \<in> set (hd_sent (handleCompletion path p run headers body))"
  shows "name \<in> set (mr_Backends (Match (px_matcher p) f)) \<and>
    (\<exists>b \<in> set (cfg_Backends (px_cfg p)). be_Name b = name \<and>
       (mr_FailClosed (Match (px_matcher p) f) \<and> rf_Classification f \<in> SensitiveSet (px_cfg p) \<longrightarrow> be_Tier b = ''local''))"
  using requests.holds_reachable [OF assms(1,2)] assms(3,4) by (rule sent_guarded)

text \<open>C6. Nothing is kept: unless the handler panics, after a request the dispatcher's counts are
  what they were before it, and every pool slot the request took, on its way through the fallbacks,
  was given back exactly once.\<close>
theorem request_gives_back:
  assumes "proxy_start p0" and "request_step\<^sup>*\<^sup>* p0 p" and "hd_reply (handleCompletion path p run headers body) \<noteq> Crashed"
  shows "d_handles (px_disp (hd_proxy (handleCompletion path p run headers body))) = d_handles (px_disp p) \<and>
    (\<exists>qs. slotEvents (hd_pool (handleCompletion path p run headers body)) =
       concat (map (\<lambda>q. [PoolAcquired q, PoolReleased q]) qs))"
proof (cases "\<exists>f s. admitted p run headers body f s")
  case False
  then obtain code retry why log where "handleCompletion path p run headers body =
    \<lparr>hd_proxy = p, hd_reply = Refused (isAnthropicPath path) code retry why, hd_audit = log, hd_sent = [], hd_pool = []\<rparr>"
    by (rule handle_refused [of p run headers body path])
  then show ?thesis by (auto simp: slotEvents_def intro: exI [of _ "[]"])
next
  case True
  then obtain f s where adm: "admitted p run headers body f s" by blast
  have inv: "proxy_inv p" using assms(1,2) by (rule requests.holds_reachable)
  obtain tr r where disp: "dispatchWithFallback p run (Match (px_matcher p) f) headers (outboundBody p run path f s body) path = (tr, r)"
    by (cases "dispatchWithFallback p run (Match (px_matcher p) f) headers (outboundBody p run path f s body) path")
  note ok = dispatchWithFallback_ok [OF inv disp] and h = handle_admitted [OF adm, of path, unfolded Let_def disp]
  have "d_handles (px_disp (hd_proxy (handleCompletion path p run headers body))) = d_handles (px_disp p) \<and>
      settled (hd_pool (handleCompletion path p run headers body))"
  proof (cases r)
    case FallbackPanic
    with h assms(3) show ?thesis by simp
  next
    case (FallbackError e)
    with h ok show ?thesis by (simp add: fallback_ok_def refuseDispatch_fields)
  next
    case (FallbackOK b st bo pool)
    with ok obtain evs where evs: "settled evs" "tr_pool tr = evs @ acquired pool"
      and d: "d_handles (fst (Body_Close (tr_disp tr) bo)) = d_handles (px_disp p)" unfolding fallback_ok_def by auto
    have "settled (evs @ acquired pool @ (case pool of None \<Rightarrow> [] | Some q \<Rightarrow> [PoolReleased q]))"
      using evs(1) by (rule settled_pair [where pool = pool]) (auto simp: acquired_def slotEvents_def split: option.splits)
    with FallbackOK h evs(2) d show ?thesis by (simp add: serve_fields)
  qed
  then show ?thesis by (simp add: settled_def)
qed

text \<open>C4. Budgets hold end to end. After any sequence of requests, a request that parses, is routed and
  passes the gate is refused with 429 exactly when a budget governing one of its scopes is
  exhausted on the ledger of what the earlier requests were charged. It is then sent nowhere,
  changes nothing, and is told to retry after at least a second.\<close>
theorem proxy_enforces_budgets:
  assumes "proxy_start p0" and "serveAll p0 reqs = (p, calls)"
    and "sorted (map fst calls)" and "\<forall>c \<in> set calls. fst c \<le> run_admitted run"
    and "length body \<le> maxRequestBodyBytes"
    and "extractFeatures (run_codec run) body headers (ClassificationHeader (px_cfg p)) = Some (f, isStream)"
    and "mr_Backends (Match (px_matcher p) f) \<noteq> []" and "enforceFailClosed p f (Match (px_matcher p) f) = None"
  shows "(\<exists>sk \<in> set (budgetScopeKeys p f (Match (px_matcher p) f)). \<exists>r.
      ruleFor (NewBudgetStore (compileBudgetRules (pol_Budgets (cfg_Policy (px_cfg p0))))) sk = Some r \<and>
      ledger_exhausted (run_admitted run) r (ledger_of calls sk)) \<longleftrightarrow>
    (\<exists>ra name. 1 \<le> ra \<and>
      hd_reply (handleCompletion path p run headers body) = Refused (isAnthropicPath path) 429 (Some ra) (BudgetExceeded name) \<and>
      hd_sent (handleCompletion path p run headers body) = [] \<and> hd_proxy (handleCompletion path p run headers body) = p)"
    (is "?spent \<longleftrightarrow> ?refused")
proof -
  let ?keys = "budgetScopeKeys p f (Match (px_matcher p) f)"
  let ?h = "handleCompletion path p run headers body"
  have store: "px_budgets p = run_charges (NewBudgetStore (compileBudgetRules (pol_Budgets (cfg_Policy (px_cfg p0))))) calls"
    using serveAll_charges [OF proxy_start_inv [OF assms(1)], of reqs] assms(2) proxy_start_budgets [OF assms(1)] by simp
  have spent: "?spent \<longleftrightarrow> Allowed (px_budgets p) (run_admitted run) ?keys \<noteq> BudgetOK"
    unfolding store using assms(3,4) by (auto simp: Allowed_OK_iff exhausted_is_ledger)
  show ?thesis
  proof (cases "Allowed (px_budgets p) (run_admitted run) ?keys")
    case BudgetOK
    then have "admitted p run headers body f isStream" using assms(5-8) by (simp add: admitted_def)
    then have "why \<noteq> BudgetExceeded name" if "hd_reply ?h = Refused a c r why" for a c r why name
      using that unfolding handle_admitted [OF \<open>admitted p run headers body f isStream\<close>]
      by (auto simp: Let_def refuseDispatch_def serve_def split: prod.splits fallback_result.splits if_splits)
    then have "\<not> ?refused" by blast
    moreover have "\<not> ?spent" using spent BudgetOK by simp
    ultimately show ?thesis by blast
  next
    case (BudgetExhausted ra name)
    then have keys: "?keys \<noteq> []" by auto
    have "hd_reply ?h = Refused (isAnthropicPath path) 429 (Some (retryAfterSeconds ra)) (BudgetExceeded name)"
      "hd_sent ?h = []" "hd_proxy ?h = p"
      using assms(5-8) keys BudgetExhausted by (simp_all add: handleCompletion_def Let_def)
    moreover have "1 \<le> retryAfterSeconds ra" by (simp add: retryAfterSeconds_def)
    ultimately show ?thesis using spent BudgetExhausted by auto
  qed
qed


text \<open>Token accounting sees the end of the response: however the body is cut into reads, the bytes
  kept for the usage parser are its last \<open>maxUsageCaptureBytes\<close>, so memory is bounded; without a
  budget nothing is kept.\<close>
lemma captured_tail:
  "captureForBudget keys chunks =
     (if keys = [] then [] else drop (length (concat chunks) - maxUsageCaptureBytes) (concat chunks)) \<and>
   length (captureForBudget keys chunks) \<le> maxUsageCaptureBytes"
proof -
  have "foldl (capturedRead maxUsageCaptureBytes) [] chunks =
      drop (length (concat chunks) - maxUsageCaptureBytes) (concat chunks)"
    using capturedRead_tail [of maxUsageCaptureBytes "[]" chunks] by (simp add: Let_def)
  then show ?thesis by (simp add: captureForBudget_def) arith
qed


section \<open>A worked example\<close>

definition ex_codec :: Codec where
  "ex_codec = \<lparr>cd_partial = (\<lambda>_. Some (''m'', False)),
     cd_usage = (\<lambda>_. Some (Some \<lparr>uo_PromptTokens = Some 40, uo_CompletionTokens = Some 60, uo_TotalTokens = None\<rparr>)),
     cd_anthropicUsage = (\<lambda>_. None), cd_anthropicEvent = (\<lambda>_. None)\<rparr>"

definition ex_run :: "instant \<Rightarrow> Run" where
  "ex_run t = \<lparr>run_env = (\<lambda>_. ex_env), run_clock = (\<lambda>_. (t, t)), run_acquire = (\<lambda>_. None),
     run_headerTimedOut = (\<lambda>_. False), run_drained = (\<lambda>_. 0), run_codec = ex_codec,
     run_admitted = t, run_charged = t, run_respHeader = [], run_reads = [(''{}'', EOF)],
     run_write = (\<lambda>buf. (length buf, False))\<rparr>"

definition ex_headers :: header where
  "ex_headers = [(''X-Llmkube-Classification'', [''PII''])]"

definition ex_proxy :: Proxy where
  "ex_proxy = NewProxy ex_config [WithActivator True]"

lemma ex_proxy_start: "proxy_start ex_proxy"
  unfolding proxy_start_def ex_proxy_def by (intro exI [of _ ex_config] exI [of _ "[WithActivator True]"]) (simp add: proxyOption_def)

definition ex_sensitive :: RequestFeatures where
  "ex_sensitive = \<lparr>rf_Model = ''m'', rf_Classification = ''pii'', rf_TaskComplexity = '''', rf_Headers = headerMap ex_headers\<rparr>"

lemma ex_extract: "extractFeatures (run_codec (ex_run t)) body ex_headers (ClassificationHeader ex_config) = Some (ex_sensitive, False)"
proof -
  have "toLower (stringAt (headerMap ex_headers) (toLower (ClassificationHeader ex_config))) = ''pii''"
    "toLower (stringAt (headerMap ex_headers) ''x-llmkube-task-complexity'') = ''''" by code_simp+
  then show ?thesis by (simp add: extractFeatures_def ex_run_def ex_codec_def ex_sensitive_def)
qed

lemma ex_match: "Match (NewMatcher ex_config) ex_sensitive = \<lparr>mr_Rule = Some ex_rule, mr_Backends = [''local''],
    mr_Strategy = ''primary-fallback'', mr_FailClosed = True, mr_PoolActivation = ''''\<rparr>"
  by (simp add: Match_def ex_rules ruleMatches_def ex_rule_def ex_sensitive_def contains_def matchModels_def
      matchHeaders_def satisfiesRequiredCapabilities_def strategyOrDefault_def strategyPrimaryFallback_def NewMatcher_def)

lemma ex_proxy_fields: "px_matcher ex_proxy = NewMatcher ex_config" "px_cfg ex_proxy = ex_config"
  "px_disp ex_proxy = NewDispatcher ex_config []" "px_activator ex_proxy"
  "px_budgets ex_proxy = NewBudgetStore (compileBudgetRules [ex_budget])"
  by (simp_all add: ex_proxy_def NewProxy_def WithActivator_def) (simp add: ex_config_def)

lemma ex_admitted: "admitted ex_proxy (ex_run t) ex_headers ''{}'' ex_sensitive False"
proof -
  have "enforceFailClosed ex_proxy ex_sensitive (Match (NewMatcher ex_config) ex_sensitive) = None"
    by (simp add: enforceFailClosed_def ex_match ex_proxy_fields) (simp add: ex_config_def NewMatcher_def Matcher_BackendByName_def ex_backend_def)
  moreover have "budgetScopeKeys ex_proxy ex_sensitive (Match (NewMatcher ex_config) ex_sensitive) = [''router'']"
    by (simp add: budgetScopeKeys_def ex_proxy_fields) (simp add: ex_config_def addKey_def scopeKey_def ex_budget_def)
  moreover have "Allowed (NewBudgetStore (compileBudgetRules [ex_budget])) t [''router''] = BudgetOK"
    by (simp add: Allowed_OK_iff exhausted_def usedInWindow_def NewBudgetStore_def bucketsOf_def compileBudgetRules_def
        map_filter_simps compileBudgetRule_def ex_budget_def ruleFor_def)
  ultimately show ?thesis
    by (simp add: admitted_def ex_proxy_fields ex_extract ex_match maxRequestBodyBytes_def) (simp add: ex_run_def)
qed

lemma ex_place: "place (NewDispatcher ex_config []) t (ex_backend ''local'' ''local'') h n =
    Some (NewDispatcher ex_config [], '''', NoResult, ReasonNone, 0)"
  by (simp add: place_def liveEndpoints_def roundRobin_def Let_def)
    (simp add: ex_backend_def NewDispatcher_def addBackend_def ex_config_def Let_def)

lemma ex_dispatch: "\<exists>d bo. Dispatch ex_env (NewDispatcher ex_config []) t t (Some (ex_backend ''local'' ''local'')) ''POST'' path h body
    = (d, Responded 200 bo)"
  using ex_place by (simp add: Dispatch_def Let_def track_def trackPrefill_def applyModelOverride_def outboundModel_def
      newUpstreamRequest_def applyCredentials_def ex_env_def ex_backend_def)

lemma ex_sent: "\<exists>hdr out. hd_sent (handleCompletion ''/v1/chat/completions'' ex_proxy (ex_run t) ex_headers ''{}'') = [''local''] \<and>
    hd_reply (handleCompletion ''/v1/chat/completions'' ex_proxy (ex_run t) ex_headers ''{}'') = Relayed 200 hdr out"
proof -
  let ?b = "ex_backend ''local'' ''local''"
  obtain d bo where disp: "Dispatch ex_env (NewDispatcher ex_config []) t t (Some ?b) ''POST'' ''/v1/chat/completions'' ex_headers ''{}''
      = (d, Responded 200 bo)" using ex_dispatch by blast
  have b: "Matcher_BackendByName (NewMatcher ex_config) ''local'' = Some ?b"
    by (simp add: Matcher_BackendByName_def NewMatcher_def ex_config_def) (simp add: ex_backend_def)
  have health: "IsHealthy (NewDispatcher ex_config []) t ''local''"
    by (simp add: IsHealthy_def dispatchable_def NewDispatcher_def addBackend_def ex_config_def ex_backend_def freshHealth_def Let_def)
  have "attemptBackend (ex_run t) 0 None ?b ex_headers ''{}'' ''/v1/chat/completions'' \<lparr>tr_disp = NewDispatcher ex_config [], tr_pool = [], tr_sent = []\<rparr>
      = (\<lparr>tr_disp = d, tr_pool = [], tr_sent = [''local'']\<rparr>, AttemptOK 200 bo)"
    using disp by (simp add: attemptBackend_def poolEvent_def ex_run_def Let_def) (simp add: ex_backend_def)
  moreover have "be_Pool ?b = None" by (simp add: ex_backend_def)
  ultimately have "dispatchWithFallback ex_proxy (ex_run t) (Match (NewMatcher ex_config) ex_sensitive) ex_headers ''{}'' ''/v1/chat/completions''
      = (\<lparr>tr_disp = d, tr_pool = [], tr_sent = [''local'']\<rparr>, FallbackOK ?b 200 bo None)"
    using b health by (simp add: dispatchWithFallback_def ex_match ex_proxy_fields Let_def) (simp add: ex_run_def)
  then show ?thesis
    unfolding handle_admitted [OF ex_admitted] Let_def outboundBody_def
    using serve_fields(6) by (simp add: ex_proxy_fields serve_fields)
qed

theorem sensitive_stays_local_witness:
  "\<exists>b \<in> set (cfg_Backends ex_config). be_Name b = ''local'' \<and> be_Tier b = ''local''"
proof -
  have "''local'' \<in> set (hd_sent (handleCompletion ''/v1/chat/completions'' ex_proxy (ex_run minute) ex_headers ''{}''))"
    using ex_sent [of minute] by auto
  moreover have "extractFeatures (run_codec (ex_run minute)) ''{}'' ex_headers (ClassificationHeader (px_cfg ex_proxy)) = Some (ex_sensitive, False)"
    by (simp only: ex_proxy_fields ex_extract)
  ultimately have "''local'' \<in> set (mr_Backends (Match (px_matcher ex_proxy) ex_sensitive)) \<and>
    (\<exists>b \<in> set (cfg_Backends (px_cfg ex_proxy)). be_Name b = ''local'' \<and>
       (mr_FailClosed (Match (px_matcher ex_proxy) ex_sensitive) \<and> rf_Classification ex_sensitive \<in> SensitiveSet (px_cfg ex_proxy) \<longrightarrow> be_Tier b = ''local''))"
    using sensitive_stays_local [OF ex_proxy_start rtranclp.rtrancl_refl] by blast
  moreover have "rf_Classification ex_sensitive \<in> SensitiveSet ex_config" by (simp add: ex_sensitive_def SensitiveSet_def ex_config_def)
  ultimately show ?thesis unfolding ex_proxy_fields ex_match by auto
qed

theorem request_gives_back_witness:
  "d_handles (px_disp (hd_proxy (handleCompletion ''/v1/chat/completions'' ex_proxy (ex_run minute) ex_headers ''{}''))) = d_handles (px_disp ex_proxy)"
proof -
  have "hd_reply (handleCompletion ''/v1/chat/completions'' ex_proxy (ex_run minute) ex_headers ''{}'') \<noteq> Crashed"
    using ex_sent [of minute] by auto
  from request_gives_back [OF ex_proxy_start rtranclp.rtrancl_refl this] show ?thesis by simp
qed

lemma ex_charged: "chargeOf ex_proxy (''/v1/chat/completions'', ex_run t, ex_headers, ''{}'') = [(t, [''router''], 100, 160 / 1000000)]"
proof -
  obtain hdr out where h: "hd_sent (handleCompletion ''/v1/chat/completions'' ex_proxy (ex_run t) ex_headers ''{}'') = [''local'']"
    "hd_reply (handleCompletion ''/v1/chat/completions'' ex_proxy (ex_run t) ex_headers ''{}'') = Relayed 200 hdr out"
    using ex_sent [of t] by blast
  have keys: "budgetScopeKeys ex_proxy ex_sensitive (Match (NewMatcher ex_config) ex_sensitive) = [''router'']"
    by (simp add: budgetScopeKeys_def ex_proxy_fields) (simp add: ex_config_def addKey_def scopeKey_def ex_budget_def)
  have cap: "captureForBudget [''router''] (chunksRead (run_write (ex_run t)) (run_reads (ex_run t))) = ''{}''"
    by (simp add: captureForBudget_def ex_run_def capturedRead_def maxUsageCaptureBytes_def)
  have usage: "parseUsageFor (run_codec (ex_run t)) (isAnthropicPath ''/v1/chat/completions'') ''{}'' streamed = Some (40, 60)"
    if "\<not> streamed" for streamed
  proof -
    have "\<not> isAnthropicPath ''/v1/chat/completions''" "\<not> looksLikeSSE ''{}''" by code_simp+
    with that show ?thesis
      by (simp add: parseUsageFor_def UsageTokens_def ex_run_def ex_codec_def countsOf_def usageCounts_def)
  qed
  have stream: "\<not> snd (snd (streamResponse (ex_run t) False))"
    by (simp add: streamResponse_def ex_run_def headerGet_def Let_def) code_simp
  have b: "Matcher_BackendByName (NewMatcher ex_config) ''local'' = Some (ex_backend ''local'' ''local'')"
    by (simp add: Matcher_BackendByName_def NewMatcher_def ex_config_def) (simp add: ex_backend_def)
  have cost: "be_CostPerMillionTokens (ex_backend ''local'' ''local'') = Some \<lparr>PromptUSD = 1, CompletionUSD = 2\<rparr>"
    by (simp add: ex_backend_def)
  have t: "run_charged (ex_run t) = t" by (simp add: ex_run_def)
  show ?thesis
    unfolding chargeOf_def
    by (simp add: ex_proxy_fields ex_extract h keys cap usage [OF stream] b cost t CostUSD_def wrap64_def Let_def)
qed

theorem proxy_enforces_budgets_witness:
  "\<exists>p calls ra name. serveAll ex_proxy [(''/v1/chat/completions'', ex_run minute, ex_headers, ''{}'')] = (p, calls) \<and>
     hd_reply (handleCompletion ''/v1/chat/completions'' p (ex_run (minute + second)) ex_headers ''{}'') =
       Refused (isAnthropicPath ''/v1/chat/completions'') 429 (Some ra) (BudgetExceeded name)"
proof -
  let ?path = "''/v1/chat/completions''"
  define p where "p = hd_proxy (handleCompletion ?path ex_proxy (ex_run minute) ex_headers ''{}'')"
  have inv: "proxy_inv ex_proxy" using ex_proxy_start by (rule proxy_start_inv)
  have cfg: "px_cfg p = ex_config" "px_matcher p = NewMatcher ex_config"
    using handle_charges(2) [OF inv, of ?path "ex_run minute" ex_headers "''{}''"]
      handle_inv [OF inv, of ?path "ex_run minute" ex_headers "''{}''"]
    by (simp_all add: p_def ex_proxy_fields proxy_inv_def)
  have sv: "serveAll ex_proxy [(?path, ex_run minute, ex_headers, ''{}'')] = (p, [(minute, [''router''], 100, 160 / 1000000)])"
    by (simp only: serveAll.simps ex_charged p_def [symmetric]) simp
  have keys: "budgetScopeKeys p ex_sensitive (Match (px_matcher p) ex_sensitive) = [''router'']"
    by (simp add: budgetScopeKeys_def cfg) (simp add: ex_config_def addKey_def scopeKey_def ex_budget_def)
  have adm: "mr_Backends (Match (px_matcher p) ex_sensitive) \<noteq> []" "enforceFailClosed p ex_sensitive (Match (px_matcher p) ex_sensitive) = None"
    by (simp_all add: cfg ex_match enforceFailClosed_def)
      (simp add: ex_config_def NewMatcher_def Matcher_BackendByName_def ex_backend_def)
  have rule: "ruleFor (NewBudgetStore (compileBudgetRules (pol_Budgets (cfg_Policy (px_cfg ex_proxy))))) ''router'' =
      Some \<lparr>br_Name = ''all'', br_ScopeKey = ''router'', br_MaxTokens = 100, br_MaxUSD = 0, br_Window = minute\<rparr>"
    by (simp add: ex_proxy_fields ruleFor_def)
      (simp add: NewBudgetStore_def ex_config_def compileBudgetRules_def map_filter_simps compileBudgetRule_def ex_budget_def)
  have spent: "ledger_exhausted (minute + second) \<lparr>br_Name = ''all'', br_ScopeKey = ''router'', br_MaxTokens = 100, br_MaxUSD = 0, br_Window = minute\<rparr>
      (ledger_of [(minute, [''router''], 100, 160 / 1000000)] ''router'')"
    by (simp add: ledger_exhausted_def ledger_tokens_def live_entries_def ledger_of_def timeTruncate_def bucketDuration_def wrap64_def)
  have run: "run_admitted (ex_run t) = t" for t by (simp add: ex_run_def)
  have ext: "extractFeatures (run_codec (ex_run (minute + second))) ''{}'' ex_headers (ClassificationHeader (px_cfg p)) = Some (ex_sensitive, False)"
    by (simp only: cfg ex_extract)
  have "\<exists>ra name. 1 \<le> ra \<and>
      hd_reply (handleCompletion ?path p (ex_run (minute + second)) ex_headers ''{}'') = Refused (isAnthropicPath ?path) 429 (Some ra) (BudgetExceeded name) \<and>
      hd_sent (handleCompletion ?path p (ex_run (minute + second)) ex_headers ''{}'') = [] \<and>
      hd_proxy (handleCompletion ?path p (ex_run (minute + second)) ex_headers ''{}'') = p"
    using keys rule spent
    by (subst proxy_enforces_budgets [OF ex_proxy_start sv _ _ _ ext adm, symmetric])
      (auto simp: run maxRequestBodyBytes_def)
  with sv show ?thesis by blast
qed






section \<open>Two configurations that validation accepts\<close>





end
