(* ===== verification/Model_Router.thy ===== *)
theory Model_Router
  imports Router_Config
begin

text \<open>
  The ModelRouter resource as its users write it (\<open>api/v1alpha1/modelrouter_types.go\<close>) and the
  controller's static validation of it (\<open>internal/controller/modelrouter_validation.go\<close>). Each
  failure the validation reports is a constructor of \<open>spec_error\<close> with the indices its field
  path names. \<open>validateModelRouter_accepts\<close> shows that the empty report is equivalent to the
  declarative predicate \<open>router_spec_ok\<close>. Types and functions whose Go names are already those of
  the wire configuration (\<open>config.go\<close>) carry the suffix \<open>Spec\<close>. Fields of the specification that
  neither the validation nor the proxy data plane reads are left out. \<open>strconv.ParseFloat\<close> is the
  parameter \<open>parseFloat\<close>, with \<open>None\<close> for an error.
\<close>

section \<open>The resource\<close>

record ExternalProvider =
  ext_Provider :: gostring
  ext_URL :: gostring
  ext_Model :: gostring
  ext_CredentialsSecretRef :: "gostring option"

record TokenCostSpec =
  tcs_PromptUSD :: gostring
  tcs_CompletionUSD :: gostring

record SessionAffinity =
  sa_Headers :: "gostring list"
  sa_IdleTimeout :: "duration option"

record BackendBalancing =
  bb_Mode :: gostring
  bb_SessionAffinity :: "SessionAffinity option"

record RouterBackend =
  rb_Name :: gostring
  rb_DisplayName :: gostring
  rb_InferenceServiceRef :: "gostring option"
  rb_External :: "ExternalProvider option"
  rb_Tier :: gostring
  rb_Resolution :: gostring
  rb_Balancing :: "BackendBalancing option"
  rb_Capabilities :: "gostring list"
  rb_Weight :: "int option"
  rb_CostPerMillionTokens :: "TokenCostSpec option"
  rb_Timeout :: "duration option"

record RuleMatchSpec =
  rms_DataClassification :: "gostring list"
  rms_TaskComplexity :: gostring
  rms_RequiredCapabilities :: "gostring list"
  rms_Headers :: "(gostring \<times> gostring) list"
  rms_Models :: "gostring list"

record RuleRouteSpec =
  rrs_Backends :: "gostring list"
  rrs_Strategy :: gostring
  rrs_PoolActivation :: gostring

record RouterRule =
  rr_Name :: gostring
  rr_Match :: "RuleMatchSpec option"
  rr_Route :: RuleRouteSpec
  rr_FailClosed :: bool
  rr_Timeout :: "duration option"

record BudgetSpec =
  bsp_Name :: gostring
  bsp_Scope :: gostring
  bsp_RuleName :: gostring
  bsp_HeaderKey :: gostring
  bsp_WindowSeconds :: int
  bsp_MaxTokens :: "int option"
  bsp_MaxUSD :: gostring

record ClassificationPolicySpec =
  cps_Mode :: gostring
  cps_HeaderKey :: gostring
  cps_SensitiveClassifications :: "gostring list"

record AuditLogPolicySpec =
  aps_Sink :: gostring
  aps_FilePath :: gostring
  aps_IncludeRequestBody :: bool

record RouterPolicy =
  rp_Budgets :: "BudgetSpec list"
  rp_Classification :: "ClassificationPolicySpec option"
  rp_AuditLog :: "AuditLogPolicySpec option"

record EndpointSpec =
  ep_Port :: int
  ep_Path :: gostring
  ep_Type :: gostring
  ep_NodePort :: "int option"
  ep_ExternalTrafficPolicy :: gostring

record RouterProxySpec =
  rps_Replicas :: "int option"
  rps_Image :: gostring
  rps_QuarantineDuration :: "duration option"
  rps_ResponseHeaderTimeout :: "duration option"
  rps_StreamIdleTimeout :: "duration option"
  rps_TopologySpreadConstraints :: "gostring list"
  rps_PodAntiAffinity :: "gostring list option"

record ModelRouterSpec =
  spec_DataPlane :: gostring
  spec_Backends :: "RouterBackend list"
  spec_Rules :: "RouterRule list"
  spec_DefaultRoute :: gostring
  spec_DefaultRouteStrategy :: gostring
  spec_Policy :: "RouterPolicy option"
  spec_Endpoint :: "EndpointSpec option"
  spec_Proxy :: "RouterProxySpec option"

record ModelRouter =
  meta_Name :: gostring
  meta_Namespace :: gostring
  meta_UID :: gostring
  mr_Spec :: ModelRouterSpec

definition ModelRouterDataPlaneProxy :: gostring where
  "ModelRouterDataPlaneProxy = ''Proxy''"

definition RouterBackendResolutionEndpoint :: gostring where
  "RouterBackendResolutionEndpoint = ''endpoint''"

definition backendTierLocal :: gostring where "backendTierLocal = ''local''"

definition backendTierCloud :: gostring where "backendTierCloud = ''cloud''"

definition minRouterTimeout :: duration where "minRouterTimeout = 100 * 1000000"

definition maxRouterTimeout :: duration where "maxRouterTimeout = 30 * minute"

text \<open>The default the CRD schema gives an omitted tier, whatever the kind of the backend.\<close>

definition defaultTier :: "RouterBackend \<Rightarrow> RouterBackend" where
  "defaultTier b = (if rb_Tier b = [] then b\<lparr>rb_Tier := backendTierLocal\<rparr> else b)"

section \<open>Static validation\<close>

datatype spec_error =
    BothKinds nat
  | NoKind nat
  | LocalMarkedCloud nat
  | SpecNameRequired nat
  | SpecDuplicateName nat gostring
  | BackendTimeoutLow nat
  | BackendTimeoutHigh nat
  | SpecUnknownDefault gostring
  | SpecNoRoute nat
  | SpecUnknownBackend nat nat gostring
  | MustFailClosed nat "gostring list"
  | SensitiveToCloud nat gostring "gostring list"
  | RuleTimeoutLow nat
  | RuleTimeoutHigh nat
  | SpecRuleNameRequired nat
  | SpecUnknownRule nat gostring
  | SpecNoCap nat
  | SpecUnpriced nat

definition validateBackendKindExclusivity :: "nat \<Rightarrow> RouterBackend \<Rightarrow> spec_error list" where
  "validateBackendKindExclusivity i b =
     (let hasLocal = rb_InferenceServiceRef b \<noteq> None; hasExt = rb_External b \<noteq> None in
      if hasLocal \<and> hasExt then [BothKinds i]
      else if \<not> hasLocal \<and> \<not> hasExt then [NoKind i]
      else [])"

definition validateTimeout :: "spec_error \<Rightarrow> spec_error \<Rightarrow> duration option \<Rightarrow> spec_error list" where
  "validateTimeout low high t =
     (case t of
        None \<Rightarrow> []
      | Some d \<Rightarrow> if d < minRouterTimeout then [low] else if d > maxRouterTimeout then [high] else [])"

definition validateBackendTimeout :: "nat \<Rightarrow> RouterBackend \<Rightarrow> spec_error list" where
  "validateBackendTimeout i b = validateTimeout (BackendTimeoutLow i) (BackendTimeoutHigh i) (rb_Timeout b)"

definition validateRuleTimeout :: "nat \<Rightarrow> RouterRule \<Rightarrow> spec_error list" where
  "validateRuleTimeout i r = validateTimeout (RuleTimeoutLow i) (RuleTimeoutHigh i) (rr_Timeout r)"

definition validateBackendSpec :: "nat \<Rightarrow> gostring list \<Rightarrow> RouterBackend \<Rightarrow> spec_error list" where
  "validateBackendSpec i nameSet b =
     validateBackendKindExclusivity i b @
     (if rb_InferenceServiceRef b \<noteq> None \<and> rb_Tier b = backendTierCloud then [LocalMarkedCloud i] else []) @
     (if rb_Name b = '''' then [SpecNameRequired i]
      else if rb_Name b \<in> set nameSet then [SpecDuplicateName i (rb_Name b)] else []) @
     validateBackendTimeout i b"

fun validateBackendsSpec ::
    "nat \<Rightarrow> gostring list \<Rightarrow> (gostring \<Rightarrow> RouterBackend option) \<Rightarrow> RouterBackend list
     \<Rightarrow> gostring list \<times> (gostring \<Rightarrow> RouterBackend option) \<times> spec_error list" where
  "validateBackendsSpec i nameSet byName [] = (nameSet, byName, [])"
| "validateBackendsSpec i nameSet byName (b # bs) =
     (let (names, m, errs) =
        validateBackendsSpec (Suc i) (rb_Name b # nameSet) (byName(rb_Name b \<mapsto> b)) bs in
      (names, m, validateBackendSpec i nameSet b @ errs))"

fun validateRuleRoute :: "nat \<Rightarrow> gostring list \<Rightarrow> nat \<Rightarrow> gostring list \<Rightarrow> spec_error list" where
  "validateRuleRoute i nameSet j [] = []"
| "validateRuleRoute i nameSet j (name # names) =
     (if name \<in> set nameSet then [] else [SpecUnknownBackend i j name]) @
     validateRuleRoute i nameSet (Suc j) names"

definition matchedSensitive :: "gostring set \<Rightarrow> RouterRule \<Rightarrow> gostring list" where
  "matchedSensitive sensitiveSet r =
     (case rr_Match r of
        None \<Rightarrow> []
      | Some m \<Rightarrow> filter (\<lambda>cls. cls \<in> sensitiveSet) (rms_DataClassification m))"

definition validateRuleSensitiveData ::
    "nat \<Rightarrow> gostring set \<Rightarrow> (gostring \<Rightarrow> RouterBackend option) \<Rightarrow> RouterRule \<Rightarrow> spec_error list" where
  "validateRuleSensitiveData i sensitiveSet byName r =
     (let matched = matchedSensitive sensitiveSet r in
      if matched = [] then []
      else (if rr_FailClosed r then [] else [MustFailClosed i matched]) @
           concat (map (\<lambda>name.
             case byName name of
               None \<Rightarrow> []
             | Some b \<Rightarrow> if rb_Tier b = backendTierCloud then [SensitiveToCloud i name matched] else [])
             (rrs_Backends (rr_Route r))))"

definition sensitiveClassificationSet :: "RouterPolicy option \<Rightarrow> gostring set" where
  "sensitiveClassificationSet policy =
     (case policy of
        None \<Rightarrow> {''pii'', ''phi''}
      | Some p \<Rightarrow>
          (case rp_Classification p of
             None \<Rightarrow> {''pii'', ''phi''}
           | Some c \<Rightarrow> if cps_SensitiveClassifications c \<noteq> [] then set (cps_SensitiveClassifications c)
                       else {''pii'', ''phi''}))"

fun validateRulesSpec ::
    "gostring list \<Rightarrow> (gostring \<Rightarrow> RouterBackend option) \<Rightarrow> gostring set \<Rightarrow> nat \<Rightarrow> RouterRule list
     \<Rightarrow> gostring list \<times> spec_error list" where
  "validateRulesSpec nameSet byName sensitiveSet i [] = ([], [])"
| "validateRulesSpec nameSet byName sensitiveSet i (r # rs) =
     (let (names, errs) = validateRulesSpec nameSet byName sensitiveSet (Suc i) rs in
      (if rr_Name r \<noteq> '''' then rr_Name r # names else names,
       (if rrs_Backends (rr_Route r) = [] then [SpecNoRoute i] else []) @
       validateRuleRoute i nameSet 0 (rrs_Backends (rr_Route r)) @
       validateRuleSensitiveData i sensitiveSet byName r @
       validateRuleTimeout i r @ errs))"

definition positiveUSD :: "(gostring \<Rightarrow> float64 option) \<Rightarrow> gostring \<Rightarrow> bool" where
  "positiveUSD parseFloat s = (case parseFloat (trimSpace s) of None \<Rightarrow> False | Some f \<Rightarrow> f > 0)"

definition pricesTokensSpec :: "(gostring \<Rightarrow> float64 option) \<Rightarrow> TokenCostSpec option \<Rightarrow> bool" where
  "pricesTokensSpec parseFloat c =
     (case c of
        None \<Rightarrow> False
      | Some t \<Rightarrow> positiveUSD parseFloat (tcs_PromptUSD t) \<or> positiveUSD parseFloat (tcs_CompletionUSD t))"

definition validateBudgetSpec :: "gostring list \<Rightarrow> nat \<Rightarrow> BudgetSpec \<Rightarrow> spec_error list" where
  "validateBudgetSpec ruleNames i b =
     (if bsp_Scope b = ''rule'' then
        (if bsp_RuleName b = '''' then [SpecRuleNameRequired i]
         else if bsp_RuleName b \<notin> set ruleNames then [SpecUnknownRule i (bsp_RuleName b)] else [])
      else []) @
     (if bsp_MaxTokens b = None \<and> trimSpace (bsp_MaxUSD b) = '''' then [SpecNoCap i] else [])"

fun validateBudgetList :: "gostring list \<Rightarrow> nat \<Rightarrow> BudgetSpec list \<Rightarrow> spec_error list" where
  "validateBudgetList ruleNames i [] = []"
| "validateBudgetList ruleNames i (b # bs) =
     validateBudgetSpec ruleNames i b @ validateBudgetList ruleNames (Suc i) bs"

fun validatePricingSpec :: "(gostring \<Rightarrow> float64 option) \<Rightarrow> nat \<Rightarrow> RouterBackend list \<Rightarrow> spec_error list" where
  "validatePricingSpec parseFloat i [] = []"
| "validatePricingSpec parseFloat i (b # bs) =
     (if pricesTokensSpec parseFloat (rb_CostPerMillionTokens b) then [] else [SpecUnpriced i]) @
     validatePricingSpec parseFloat (Suc i) bs"

definition validateBudgetsSpec ::
    "(gostring \<Rightarrow> float64 option) \<Rightarrow> ModelRouterSpec \<Rightarrow> gostring list \<Rightarrow> spec_error list" where
  "validateBudgetsSpec parseFloat spec ruleNames =
     (case spec_Policy spec of
        None \<Rightarrow> []
      | Some p \<Rightarrow>
          validateBudgetList ruleNames 0 (rp_Budgets p) @
          (if \<exists>b \<in> set (rp_Budgets p). trimSpace (bsp_MaxUSD b) \<noteq> ''''
           then validatePricingSpec parseFloat 0 (spec_Backends spec) else []))"

definition validateModelRouter :: "(gostring \<Rightarrow> float64 option) \<Rightarrow> ModelRouter \<Rightarrow> spec_error list" where
  "validateModelRouter parseFloat mr =
     (let spec = mr_Spec mr;
          (nameSet, byName, backendErrs) = validateBackendsSpec 0 [] Map.empty (spec_Backends spec);
          (ruleNames, ruleErrs) =
            validateRulesSpec nameSet byName (sensitiveClassificationSet (spec_Policy spec)) 0 (spec_Rules spec) in
      backendErrs @
      (if spec_DefaultRoute spec \<noteq> '''' \<and> spec_DefaultRoute spec \<notin> set nameSet
       then [SpecUnknownDefault (spec_DefaultRoute spec)] else []) @
      ruleErrs @ validateBudgetsSpec parseFloat spec ruleNames)"

section \<open>What an empty report means\<close>

definition timeout_ok :: "duration option \<Rightarrow> bool" where
  "timeout_ok t \<longleftrightarrow> (\<forall>d. t = Some d \<longrightarrow> minRouterTimeout \<le> d \<and> d \<le> maxRouterTimeout)"

definition backend_spec_ok :: "RouterBackend \<Rightarrow> bool" where
  "backend_spec_ok b \<longleftrightarrow>
     (rb_InferenceServiceRef b = None) \<noteq> (rb_External b = None) \<and>
     (rb_InferenceServiceRef b \<noteq> None \<longrightarrow> rb_Tier b \<noteq> backendTierCloud) \<and>
     rb_Name b \<noteq> '''' \<and> timeout_ok (rb_Timeout b)"

definition rule_spec_ok :: "RouterBackend list \<Rightarrow> gostring set \<Rightarrow> RouterRule \<Rightarrow> bool" where
  "rule_spec_ok backends sensitive r \<longleftrightarrow>
     rrs_Backends (rr_Route r) \<noteq> [] \<and>
     set (rrs_Backends (rr_Route r)) \<subseteq> rb_Name ` set backends \<and>
     timeout_ok (rr_Timeout r) \<and>
     (matchedSensitive sensitive r \<noteq> [] \<longrightarrow>
        rr_FailClosed r \<and>
        (\<forall>b \<in> set backends. rb_Name b \<in> set (rrs_Backends (rr_Route r)) \<longrightarrow> rb_Tier b \<noteq> backendTierCloud))"

definition budget_spec_ok :: "gostring set \<Rightarrow> BudgetSpec \<Rightarrow> bool" where
  "budget_spec_ok ruleNames b \<longleftrightarrow>
     (bsp_Scope b = ''rule'' \<longrightarrow> bsp_RuleName b \<noteq> '''' \<and> bsp_RuleName b \<in> ruleNames) \<and>
     (bsp_MaxTokens b \<noteq> None \<or> trimSpace (bsp_MaxUSD b) \<noteq> '''')"

definition specBudgets :: "ModelRouterSpec \<Rightarrow> BudgetSpec list" where
  "specBudgets spec = (case spec_Policy spec of None \<Rightarrow> [] | Some p \<Rightarrow> rp_Budgets p)"

definition router_spec_ok :: "(gostring \<Rightarrow> float64 option) \<Rightarrow> ModelRouterSpec \<Rightarrow> bool" where
  "router_spec_ok parseFloat spec \<longleftrightarrow>
     (\<forall>b \<in> set (spec_Backends spec). backend_spec_ok b) \<and>
     distinct (map rb_Name (spec_Backends spec)) \<and>
     (spec_DefaultRoute spec = '''' \<or> spec_DefaultRoute spec \<in> rb_Name ` set (spec_Backends spec)) \<and>
     (\<forall>r \<in> set (spec_Rules spec).
        rule_spec_ok (spec_Backends spec) (sensitiveClassificationSet (spec_Policy spec)) r) \<and>
     (\<forall>b \<in> set (specBudgets spec). budget_spec_ok (rr_Name ` set (spec_Rules spec)) b) \<and>
     ((\<exists>b \<in> set (specBudgets spec). trimSpace (bsp_MaxUSD b) \<noteq> '''') \<longrightarrow>
        (\<forall>b \<in> set (spec_Backends spec). pricesTokensSpec parseFloat (rb_CostPerMillionTokens b)))"

lemma validateTimeout_Nil_iff: "validateTimeout low high t = [] \<longleftrightarrow> timeout_ok t"
  by (auto simp: validateTimeout_def timeout_ok_def split: option.splits)

lemma validateBackendSpec_Nil_iff:
  "validateBackendSpec i ns b = [] \<longleftrightarrow> backend_spec_ok b \<and> rb_Name b \<notin> set ns"
  by (auto simp: validateBackendSpec_def validateBackendKindExclusivity_def validateBackendTimeout_def
      validateTimeout_Nil_iff backend_spec_ok_def Let_def)

lemma validateBackendsSpec_eq:
  "validateBackendsSpec i ns m bs = (ns', m', errs) \<Longrightarrow>
     set ns' = set ns \<union> rb_Name ` set bs \<and>
     m' = foldl (\<lambda>m b. m(rb_Name b \<mapsto> b)) m bs \<and>
     (errs = [] \<longleftrightarrow> (\<forall>b \<in> set bs. backend_spec_ok b) \<and> distinct (map rb_Name bs) \<and>
        rb_Name ` set bs \<inter> set ns = {})"
proof (induction i ns m bs arbitrary: ns' m' errs rule: validateBackendsSpec.induct)
  case (2 i ns m b bs)
  obtain n2 m2 e2 where eq: "validateBackendsSpec (Suc i) (rb_Name b # ns) (m(rb_Name b \<mapsto> b)) bs = (n2, m2, e2)"
    by (cases "validateBackendsSpec (Suc i) (rb_Name b # ns) (m(rb_Name b \<mapsto> b)) bs") auto
  from 2(1) [OF eq] 2(2) eq show ?case
    by (auto simp: validateBackendSpec_Nil_iff)
qed simp

lemma foldl_update_lookup:
  assumes "distinct (map rb_Name bs)"
  shows "foldl (\<lambda>m b. m(rb_Name b \<mapsto> b)) m bs n = Some b \<longleftrightarrow>
    b \<in> set bs \<and> rb_Name b = n \<or> n \<notin> rb_Name ` set bs \<and> m n = Some b"
  using assms by (induction bs arbitrary: m) (auto split: if_splits)

lemma validateRuleRoute_Nil_iff: "validateRuleRoute i ns j names = [] \<longleftrightarrow> set names \<subseteq> set ns"
  by (induction names arbitrary: j) auto

lemma validateRuleSensitiveData_Nil_iff:
  "validateRuleSensitiveData i sens byName r = [] \<longleftrightarrow>
     (matchedSensitive sens r \<noteq> [] \<longrightarrow> rr_FailClosed r \<and>
       (\<forall>name \<in> set (rrs_Backends (rr_Route r)). \<forall>b. byName name = Some b \<longrightarrow> rb_Tier b \<noteq> backendTierCloud))"
  by (auto simp: validateRuleSensitiveData_def Let_def split: option.splits)

lemma validateRulesSpec_eq:
  "validateRulesSpec ns byName sens i rs = (names, errs) \<Longrightarrow>
     set names = rr_Name ` set rs - {''''} \<and>
     (errs = [] \<longleftrightarrow> (\<forall>r \<in> set rs. rrs_Backends (rr_Route r) \<noteq> [] \<and>
        set (rrs_Backends (rr_Route r)) \<subseteq> set ns \<and> timeout_ok (rr_Timeout r) \<and>
        validateRuleSensitiveData 0 sens byName r = []))"
proof (induction rs arbitrary: i names errs)
  case (Cons r rs)
  obtain n2 e2 where eq: "validateRulesSpec ns byName sens (Suc i) rs = (n2, e2)"
    by (cases "validateRulesSpec ns byName sens (Suc i) rs") auto
  have errs: "errs = (if rrs_Backends (rr_Route r) = [] then [SpecNoRoute i] else []) @
      validateRuleRoute i ns 0 (rrs_Backends (rr_Route r)) @
      validateRuleSensitiveData i sens byName r @ validateRuleTimeout i r @ e2"
    using Cons.prems eq by simp
  have "validateRuleSensitiveData i sens byName r = [] \<longleftrightarrow> validateRuleSensitiveData 0 sens byName r = []"
    by (simp add: validateRuleSensitiveData_Nil_iff)
  then have "errs = [] \<longleftrightarrow> e2 = [] \<and> rrs_Backends (rr_Route r) \<noteq> [] \<and>
      set (rrs_Backends (rr_Route r)) \<subseteq> set ns \<and> timeout_ok (rr_Timeout r) \<and>
      validateRuleSensitiveData 0 sens byName r = []"
    unfolding errs by (auto simp: validateRuleRoute_Nil_iff validateRuleTimeout_def validateTimeout_Nil_iff)
  moreover have "set names = (if rr_Name r = '''' then set n2 else insert (rr_Name r) (set n2))"
    using Cons.prems eq by (auto split: if_splits)
  ultimately show ?case using Cons.IH [OF eq] by auto
qed simp

lemma validateBudgetList_Nil_iff:
  "validateBudgetList names i bs = [] \<longleftrightarrow> (\<forall>b \<in> set bs. budget_spec_ok (set names) b)"
  by (induction bs arbitrary: i) (auto simp: validateBudgetSpec_def budget_spec_ok_def)

lemma validatePricingSpec_Nil_iff:
  "validatePricingSpec pf i bs = [] \<longleftrightarrow> (\<forall>b \<in> set bs. pricesTokensSpec pf (rb_CostPerMillionTokens b))"
  by (induction bs arbitrary: i) auto

lemma budget_spec_ok_names: "budget_spec_ok (A - {''''}) b \<longleftrightarrow> budget_spec_ok A b"
  by (auto simp: budget_spec_ok_def)

lemma validateBudgetsSpec_Nil_iff:
  "validateBudgetsSpec pf spec names = [] \<longleftrightarrow>
     (\<forall>b \<in> set (specBudgets spec). budget_spec_ok (set names) b) \<and>
     ((\<exists>b \<in> set (specBudgets spec). trimSpace (bsp_MaxUSD b) \<noteq> '''') \<longrightarrow>
        (\<forall>b \<in> set (spec_Backends spec). pricesTokensSpec pf (rb_CostPerMillionTokens b)))"
  by (auto simp: validateBudgetsSpec_def specBudgets_def validateBudgetList_Nil_iff
      validatePricingSpec_Nil_iff split: option.splits)

lemma validateModelRouter_iff:
  "validateModelRouter pf mr = [] \<longleftrightarrow> router_spec_ok pf (mr_Spec mr)"
proof -
  let ?bs = "spec_Backends (mr_Spec mr)"
  let ?sens = "sensitiveClassificationSet (spec_Policy (mr_Spec mr))"
  obtain ns m be where b: "validateBackendsSpec 0 [] Map.empty ?bs = (ns, m, be)"
    by (cases "validateBackendsSpec 0 [] Map.empty ?bs") auto
  obtain rn re where r: "validateRulesSpec ns m ?sens 0 (spec_Rules (mr_Spec mr)) = (rn, re)"
    by (cases "validateRulesSpec ns m ?sens 0 (spec_Rules (mr_Spec mr))") auto
  note B = validateBackendsSpec_eq [OF b]
  note R = validateRulesSpec_eq [OF r]
  have names: "set ns = rb_Name ` set ?bs" using B by simp
  have rules: "re = [] \<longleftrightarrow> (\<forall>r \<in> set (spec_Rules (mr_Spec mr)). rule_spec_ok ?bs ?sens r)"
    if d: "distinct (map rb_Name ?bs)"
  proof -
    have m: "m n = Some b \<longleftrightarrow> b \<in> set ?bs \<and> rb_Name b = n" for n b
      using foldl_update_lookup [OF d, of Map.empty n b] B by auto
    show ?thesis
      using R names by (auto simp: rule_spec_ok_def validateRuleSensitiveData_Nil_iff m)
  qed
  have buds: "validateBudgetsSpec pf (mr_Spec mr) rn = [] \<longleftrightarrow>
     (\<forall>b \<in> set (specBudgets (mr_Spec mr)). budget_spec_ok (rr_Name ` set (spec_Rules (mr_Spec mr))) b) \<and>
     ((\<exists>b \<in> set (specBudgets (mr_Spec mr)). trimSpace (bsp_MaxUSD b) \<noteq> '''') \<longrightarrow>
        (\<forall>b \<in> set ?bs. pricesTokensSpec pf (rb_CostPerMillionTokens b)))"
    using R by (simp add: validateBudgetsSpec_Nil_iff budget_spec_ok_names)
  have "validateModelRouter pf mr = [] \<longleftrightarrow>
     be = [] \<and> (spec_DefaultRoute (mr_Spec mr) = '''' \<or> spec_DefaultRoute (mr_Spec mr) \<in> set ns) \<and>
     re = [] \<and> validateBudgetsSpec pf (mr_Spec mr) rn = []"
    by (auto simp: validateModelRouter_def Let_def b r)
  also have "\<dots> \<longleftrightarrow> router_spec_ok pf (mr_Spec mr)"
    using B rules by (auto simp: router_spec_ok_def names buds)
  finally show ?thesis .
qed

text \<open>C17. The controller's static validation reports nothing exactly for the specifications of the
  declarative contract: backends have one kind each, distinct non-empty names and sane timeouts; every
  route and the default name declared backends; a rule on a sensitive classification fails closed and
  names no cloud-tier backend; budgets name real rules and a cap, and a dollar cap comes with priced
  backends only.\<close>
theorem validateModelRouter_accepts:
  "validateModelRouter pf mr = [] \<longleftrightarrow> router_spec_ok pf (mr_Spec mr)"
  by (rule validateModelRouter_iff)

end
