(* ===== verification/Router_Compile.thy ===== *)
theory Router_Compile
  imports Model_Router Picker
begin

text \<open>
  The controller's compilation of a ModelRouter into the configuration the proxy loads
  (\<open>internal/controller/router_config_builder.go\<close>, \<open>modelrouter_backend_auth.go\<close>,
  \<open>endpoint_auth.go\<close>). The Kubernetes API is the parameter \<open>Kube\<close>: a lookup is found, not found or
  failed. \<open>json.MarshalIndent\<close> and \<open>sha256.Sum256\<close> are parameters. A status message is the list of its
  parts, a value of \<open>status_note\<close> each, where the code joins texts with a semicolon.

  The lemmas show what a backend compiles to, which configurations the final \<open>Validate\<close> accepts
  (\<open>compile_succeeds\<close>), and that the compiled rules, classification policy and tiers carry the
  static guarantees of \<open>Model_Router\<close> over to the proxy.
\<close>

section \<open>The cluster as the compiler reads it\<close>

datatype 'a lookup = Found 'a | NotFound | LookupFailed gostring

record isvc =
  isvc_Name :: gostring
  isvc_Namespace :: gostring
  isvc_Runtime :: gostring
  isvc_ModelRef :: gostring
  isvc_EndpointPort :: "int option"
  isvc_APIKeySecretRef :: bool
  isvc_ExtraArgs :: "gostring list"
  isvc_Command :: "gostring list"
  isvc_Args :: "gostring list"
  isvc_Env :: "gostring list"

record ModelObject =
  mo_Name :: gostring
  mo_Source :: gostring

record Endpoint =
  epn_Ready :: "bool option"
  epn_Addresses :: "gostring list"

type_synonym EndpointSlice = "Endpoint list"

record ModelPool =
  mpo_Name :: gostring
  mpo_Namespace :: gostring
  mpo_Members :: "gostring list"
  mpo_SwapBudget :: "duration option"

record Kube =
  kube_InferenceService :: "gostring \<Rightarrow> gostring \<Rightarrow> isvc lookup"
  kube_Model :: "gostring \<Rightarrow> gostring \<Rightarrow> ModelObject lookup"
  kube_Secret :: "gostring \<Rightarrow> gostring \<Rightarrow> gostring list lookup"
  kube_EndpointSlices :: "gostring \<Rightarrow> gostring \<Rightarrow> EndpointSlice list option"
  kube_ModelPools :: "gostring \<Rightarrow> ModelPool list option"

datatype status_note =
    IsvcNotFound gostring gostring
  | IsvcLookupFailed gostring gostring
  | SlicesFailed gostring
  | NoReadyEndpoints
  | PoolsFailed
  | RequiresURL gostring
  | SecretNotFound gostring
  | SecretLookupFailed gostring gostring
  | SecretMissingKey gostring gostring
  | NoProviderDeclared
  | BackendKeyed gostring
  | PoolMembersKeyed gostring "gostring list"

record BackendStatus =
  st_Name :: gostring
  st_Tier :: gostring
  st_Address :: gostring
  st_Healthy :: bool
  st_Message :: "status_note list"
  st_LastProbeTime :: instant

datatype compile_error =
    IsvcGetFailed gostring gostring gostring
  | CompiledInvalid config_error
  | MarshalFailed

record compiledConfig =
  cc_JSON :: gostring
  cc_Hash :: gostring
  cc_Backends :: "BackendStatus list"
  cc_Warnings :: "(gostring \<times> status_note list) list"
  cc_HasPools :: bool
  cc_KeyedBackends :: "gostring list"
  cc_KeyedPoolBackends :: "gostring list"

section \<open>Small helpers\<close>

definition itoaInt :: "int \<Rightarrow> gostring" where
  "itoaInt i = (if i < 0 then ''-'' @ itoa (nat (- i)) else itoa (nat i))"

definition sanitizeDNSName :: "gostring \<Rightarrow> gostring" where
  "sanitizeDNSName name = map (\<lambda>c. if c = CHR ''.'' then CHR ''-'' else c) name"

definition appendMsg :: "status_note list \<Rightarrow> status_note list \<Rightarrow> status_note list" where
  "appendMsg base extra = (if base = [] then extra else if extra = [] then base else base @ extra)"

definition RuntimeVLLM :: gostring where "RuntimeVLLM = ''vllm''"

definition RuntimeOMLX :: gostring where "RuntimeOMLX = ''omlx''"

definition vllmAPIKeyEnv :: gostring where "vllmAPIKeyEnv = ''VLLM_API_KEY''"

definition hasMatchingExtraArgAny :: "gostring list \<Rightarrow> gostring list \<Rightarrow> bool" where
  "hasMatchingExtraArgAny extraArgs names \<longleftrightarrow>
     (\<exists>name \<in> set names.
        let flag = (if has_prefix ''-'' name then name else ''--'' @ name) in
        \<exists>v \<in> set extraArgs. v = flag \<or> has_prefix (flag @ ''='') v)"

definition hasMatchingExtraArg :: "gostring list \<Rightarrow> gostring \<Rightarrow> bool" where
  "hasMatchingExtraArg extraArgs argName = hasMatchingExtraArgAny extraArgs [argName]"

definition inferenceServiceRequiresAPIKey :: "isvc \<Rightarrow> bool" where
  "inferenceServiceRequiresAPIKey i \<longleftrightarrow>
     isvc_APIKeySecretRef i \<or>
     hasMatchingExtraArg (isvc_ExtraArgs i) ''api-key'' \<or>
     isvc_Command i \<noteq> [] \<and> hasMatchingExtraArg (isvc_Args i) ''api-key'' \<or>
     isvc_Runtime i = RuntimeVLLM \<and> vllmAPIKeyEnv \<in> set (isvc_Env i)"

definition resolveServingRuntime :: "isvc \<Rightarrow> gostring" where
  "resolveServingRuntime i = (if isvc_Runtime i = '''' then ''llamacpp'' else isvc_Runtime i)"

text \<open>\<open>filepath.Base\<close>: trailing slashes are dropped, then everything up to the last slash.\<close>

definition filepathBase :: "gostring \<Rightarrow> gostring" where
  "filepathBase path =
     (if path = '''' then ''.''
      else (let p = rev (dropWhile (\<lambda>c. c = CHR ''/'') (rev path));
                b = rev (takeWhile (\<lambda>c. c \<noteq> CHR ''/'') (rev p)) in
            if b = '''' then ''/'' else b))"

definition servicePort :: "isvc \<Rightarrow> int" where
  "servicePort i = (case isvc_EndpointPort i of None \<Rightarrow> 8080 | Some p \<Rightarrow> if p > 0 then p else 8080)"

definition serviceURL :: "isvc \<Rightarrow> gostring" where
  "serviceURL i = ''http://'' @ sanitizeDNSName (isvc_Name i) @ ''.'' @ isvc_Namespace i @
     ''.svc.cluster.local:'' @ itoaInt (servicePort i)"

definition ReadyEndpointURLs :: "EndpointSlice list \<Rightarrow> int \<Rightarrow> gostring list" where
  "ReadyEndpointURLs slices port =
     concat (map (\<lambda>s. concat (map (\<lambda>ep.
       if epn_Ready ep = Some False then []
       else map (\<lambda>addr. ''http://'' @ addr @ '':'' @ itoaInt port) (epn_Addresses ep)) s)) slices)"

definition collectNotReadyReplicaURLs :: "EndpointSlice list \<Rightarrow> int \<Rightarrow> gostring list" where
  "collectNotReadyReplicaURLs slices port =
     concat (map (\<lambda>s. concat (map (\<lambda>ep.
       if epn_Ready ep = None \<or> epn_Ready ep = Some True then []
       else map (\<lambda>addr. ''http://'' @ addr @ '':'' @ itoaInt port) (epn_Addresses ep)) s)) slices)"

section \<open>Resolving one backend\<close>

definition defaultAnthropicURL :: gostring where "defaultAnthropicURL = ''https://api.anthropic.com''"

definition defaultOpenAIURL :: gostring where "defaultOpenAIURL = ''https://api.openai.com''"

definition resolveExternalURL :: "gostring \<Rightarrow> ExternalProvider \<Rightarrow> gostring \<times> status_note list" where
  "resolveExternalURL DefaultLiteLLMURL p =
     (if ext_URL p \<noteq> '''' then (ext_URL p, [])
      else if ext_Provider p = ''anthropic'' then (defaultAnthropicURL, [])
      else if ext_Provider p = ''openai'' then (defaultOpenAIURL, [])
      else if ext_Provider p = ''litellm'' \<and> DefaultLiteLLMURL \<noteq> '''' then (DefaultLiteLLMURL, [])
      else ('''', [RequiresURL (ext_Provider p)]))"

definition resolveInferenceServiceAddress :: "Kube \<Rightarrow> gostring \<Rightarrow> gostring \<Rightarrow> gostring \<times> status_note list" where
  "resolveInferenceServiceAddress k namespace name =
     (case kube_InferenceService k namespace name of
        NotFound \<Rightarrow> ('''', [IsvcNotFound name namespace])
      | LookupFailed e \<Rightarrow> ('''', [IsvcLookupFailed name e])
      | Found i \<Rightarrow> (serviceURL i, []))"

definition localBackendServedModel :: "Kube \<Rightarrow> gostring \<Rightarrow> gostring \<Rightarrow> gostring" where
  "localBackendServedModel k namespace name =
     (case kube_InferenceService k namespace name of
        Found i \<Rightarrow>
          if isvc_Runtime i \<noteq> RuntimeOMLX \<or> isvc_ModelRef i = '''' then ''''
          else (case kube_Model k namespace (isvc_ModelRef i) of
                  Found m \<Rightarrow> if mo_Source m \<noteq> '''' then filepathBase (mo_Source m) else mo_Name m
                | _ \<Rightarrow> '''')
      | _ \<Rightarrow> '''')"

definition resolveInferenceServiceEndpoints ::
    "Kube \<Rightarrow> gostring \<Rightarrow> gostring \<Rightarrow> gostring list \<times> EndpointSource option \<times> gostring \<times> status_note list" where
  "resolveInferenceServiceEndpoints k namespace name =
     (case kube_InferenceService k namespace name of
        NotFound \<Rightarrow> ([], None, '''', [IsvcNotFound name namespace])
      | LookupFailed e \<Rightarrow> ([], None, '''', [IsvcLookupFailed name e])
      | Found i \<Rightarrow>
          (let port = servicePort i; svcName = sanitizeDNSName (isvc_Name i);
               source = \<lparr>es_Namespace = isvc_Namespace i, es_Service = svcName, es_Port = port\<rparr> in
           case kube_EndpointSlices k namespace svcName of
             None \<Rightarrow> ([], Some source, serviceURL i, [SlicesFailed svcName])
           | Some slices \<Rightarrow> (ReadyEndpointURLs slices port, Some source, serviceURL i, [])))"

definition backendPoolOf :: "gostring \<Rightarrow> ModelPool \<Rightarrow> BackendPool" where
  "backendPoolOf member p =
     \<lparr>pool_Name = mpo_Name p, pool_Namespace = mpo_Namespace p, pool_Member = member,
      pool_Members = mpo_Members p,
      pool_SwapBudget = (case mpo_SwapBudget p of None \<Rightarrow> 0 | Some d \<Rightarrow> d)\<rparr>"

definition resolveBackendPool :: "Kube \<Rightarrow> gostring \<Rightarrow> gostring \<Rightarrow> BackendPool option option" where
  "resolveBackendPool k namespace member =
     (case kube_ModelPools k namespace of
        None \<Rightarrow> None
      | Some pools \<Rightarrow>
          Some (map_option (backendPoolOf member) (List.find (\<lambda>p. member \<in> set (mpo_Members p)) pools)))"

definition wellKnownCredEnv :: "gostring \<Rightarrow> gostring" where
  "wellKnownCredEnv provider =
     (if provider = ''anthropic'' then ''ANTHROPIC_API_KEY''
      else if provider = ''openai'' then ''OPENAI_API_KEY''
      else if provider = ''litellm'' then ''LITELLM_MASTER_KEY''
      else if provider = ''bedrock'' then ''AWS_ACCESS_KEY_ID''
      else if provider = ''vertex_ai'' then ''GOOGLE_APPLICATION_CREDENTIALS''
      else '''')"

definition assertCredentialsSecretExists :: "Kube \<Rightarrow> gostring \<Rightarrow> gostring \<Rightarrow> gostring \<Rightarrow> status_note list" where
  "assertCredentialsSecretExists k namespace name expectedKey =
     (case kube_Secret k namespace name of
        NotFound \<Rightarrow> [SecretNotFound name]
      | LookupFailed e \<Rightarrow> [SecretLookupFailed name e]
      | Found keys \<Rightarrow>
          if expectedKey = '''' \<or> expectedKey \<in> set keys then [] else [SecretMissingKey name expectedKey])"

definition vllmMetricsProfile :: MetricsProfile where
  "vllmMetricsProfile =
     \<lparr>mp_Path = ''/metrics'', mp_Running = ''vllm:num_requests_running'',
      mp_Waiting = ''vllm:num_requests_waiting'', mp_KVUsage = ''vllm:kv_cache_usage_perc''\<rparr>"

definition warnSessionAffinityIgnored :: "RouterBackend \<Rightarrow> gostring list" where
  "warnSessionAffinityIgnored b =
     (case rb_Balancing b of
        None \<Rightarrow> []
      | Some bal \<Rightarrow>
          if bb_SessionAffinity bal = None \<or> bb_Mode bal = BalancingLoadAware then [] else [rb_Name b])"

definition wireBalancing :: "BackendBalancing \<Rightarrow> Balancing" where
  "wireBalancing b =
     (let aware = (bb_Mode b = BalancingLoadAware) in
      \<lparr>bal_Mode = bb_Mode b,
       bal_SessionHeaders = (case bb_SessionAffinity b of
           Some sa \<Rightarrow> if aware then sa_Headers sa else [] | None \<Rightarrow> []),
       bal_SessionIdleTimeout = (case bb_SessionAffinity b of
           Some sa \<Rightarrow> if aware then (case sa_IdleTimeout sa of Some d \<Rightarrow> d | None \<Rightarrow> 0) else 0
         | None \<Rightarrow> 0)\<rparr>)"

definition compileBalancing ::
    "Kube \<Rightarrow> gostring \<Rightarrow> gostring \<Rightarrow> BackendBalancing option
     \<Rightarrow> compile_error + Balancing option \<times> MetricsProfile option" where
  "compileBalancing k namespace isvcName bal =
     (case bal of
        None \<Rightarrow> Inr (None, None)
      | Some b \<Rightarrow>
          (let out = wireBalancing b in
           if bal_Mode out \<noteq> BalancingLoadAware then Inr (Some out, None)
           else (case kube_InferenceService k namespace isvcName of
                   NotFound \<Rightarrow> Inr (Some out, None)
                 | LookupFailed e \<Rightarrow> Inl (IsvcGetFailed namespace isvcName e)
                 | Found i \<Rightarrow>
                     Inr (Some out, if resolveServingRuntime i = RuntimeVLLM then Some vllmMetricsProfile else None))))"

definition parseUSD :: "(gostring \<Rightarrow> float64 option) \<Rightarrow> gostring \<Rightarrow> float64" where
  "parseUSD parseFloat s =
     (let s = trimSpace s in
      if s = '''' then 0
      else (case parseFloat s of None \<Rightarrow> 0 | Some f \<Rightarrow> if f < 0 then 0 else f))"

definition translateTokenCost :: "(gostring \<Rightarrow> float64 option) \<Rightarrow> TokenCostSpec option \<Rightarrow> TokenCost option" where
  "translateTokenCost parseFloat c =
     map_option (\<lambda>t. \<lparr>PromptUSD = parseUSD parseFloat (tcs_PromptUSD t),
                     CompletionUSD = parseUSD parseFloat (tcs_CompletionUSD t)\<rparr>) c"

definition wireBase :: "(gostring \<Rightarrow> float64 option) \<Rightarrow> RouterBackend \<Rightarrow> Backend" where
  "wireBase parseFloat b =
     \<lparr>be_Name = rb_Name b, be_DisplayName = rb_DisplayName b, be_Tier = rb_Tier b, be_Address = '''',
      be_Endpoints = [], be_EndpointSource = None, be_Balancing = None, be_Metrics = None,
      be_Provider = '''', be_Model = '''', be_ServedModel = '''', be_InferenceService = '''',
      be_Capabilities = rb_Capabilities b,
      be_Weight = (case rb_Weight b of None \<Rightarrow> 0 | Some w \<Rightarrow> w),
      be_CredentialsEnv = '''',
      be_Timeout = (case rb_Timeout b of None \<Rightarrow> 0 | Some d \<Rightarrow> d), be_Pool = None,
      be_CostPerMillionTokens = translateTokenCost parseFloat (rb_CostPerMillionTokens b)\<rparr>"

definition statusBase :: "instant \<Rightarrow> RouterBackend \<Rightarrow> BackendStatus" where
  "statusBase now b =
     \<lparr>st_Name = rb_Name b, st_Tier = rb_Tier b, st_Address = '''', st_Healthy = False, st_Message = [],
      st_LastProbeTime = now\<rparr>"

definition resolveLocal ::
    "Kube \<Rightarrow> gostring \<Rightarrow> RouterBackend \<Rightarrow> gostring \<Rightarrow> Backend \<Rightarrow> BackendStatus
     \<Rightarrow> compile_error + Backend \<times> BackendStatus \<times> gostring list" where
  "resolveLocal k namespace b ref wire status =
     (let wire = wire\<lparr>be_InferenceService := ref, be_ServedModel := localBackendServedModel k namespace ref\<rparr>;
          (wire, status) =
            (if be_Tier wire = '''' then (wire\<lparr>be_Tier := backendTierLocal\<rparr>, status\<lparr>st_Tier := backendTierLocal\<rparr>)
             else (wire, status));
          pooled = (\<lambda>wire status events.
            case resolveBackendPool k namespace ref of
              None \<Rightarrow> (wire, status\<lparr>st_Message := appendMsg (st_Message status) [PoolsFailed]\<rparr>, events)
            | Some None \<Rightarrow> (wire, status, events)
            | Some (Some pool) \<Rightarrow> (wire\<lparr>be_Pool := Some pool\<rparr>, status, events)) in
      if rb_Resolution b = RouterBackendResolutionEndpoint then
        (let (endpoints, source, svcAddr, msg) = resolveInferenceServiceEndpoints k namespace ref;
             wire = wire\<lparr>be_Address := svcAddr, be_EndpointSource := source\<rparr> in
         case compileBalancing k namespace ref (rb_Balancing b) of
           Inl e \<Rightarrow> Inl e
         | Inr (bal, metrics) \<Rightarrow>
             Inr (pooled (wire\<lparr>be_Balancing := bal, be_Metrics := metrics\<rparr>)
               (status\<lparr>st_Address := svcAddr, st_Healthy := (endpoints \<noteq> []),
                      st_Message := (if endpoints = [] then appendMsg msg [NoReadyEndpoints] else msg)\<rparr>)
               (warnSessionAffinityIgnored b)))
      else
        (let (addr, msg) = resolveInferenceServiceAddress k namespace ref in
         Inr (pooled (wire\<lparr>be_Address := addr\<rparr>)
           (status\<lparr>st_Address := addr, st_Healthy := (addr \<noteq> ''''), st_Message := msg\<rparr>) [])))"

definition resolveExternal ::
    "Kube \<Rightarrow> gostring \<Rightarrow> gostring \<Rightarrow> ExternalProvider \<Rightarrow> Backend \<Rightarrow> BackendStatus \<Rightarrow> Backend \<times> BackendStatus" where
  "resolveExternal k DefaultLiteLLMURL namespace p wire status =
     (let (wire, status) =
            (if be_Tier wire = '''' then (wire\<lparr>be_Tier := backendTierCloud\<rparr>, status\<lparr>st_Tier := backendTierCloud\<rparr>)
             else (wire, status));
          (addr, urlMsg) = resolveExternalURL DefaultLiteLLMURL p;
          wire = wire\<lparr>be_Provider := ext_Provider p, be_Model := ext_Model p, be_Address := addr\<rparr>;
          status = status\<lparr>st_Address := addr\<rparr> in
      if addr = '''' then (wire, status\<lparr>st_Healthy := False, st_Message := urlMsg\<rparr>)
      else (case ext_CredentialsSecretRef p of
              None \<Rightarrow> (wire, status\<lparr>st_Healthy := True\<rparr>)
            | Some secret \<Rightarrow>
                (let env = wellKnownCredEnv (ext_Provider p);
                     err = assertCredentialsSecretExists k namespace secret env in
                 (wire\<lparr>be_CredentialsEnv := env\<rparr>,
                  if err = [] then status\<lparr>st_Healthy := True\<rparr>
                  else status\<lparr>st_Healthy := False, st_Message := err\<rparr>))))"

definition resolveBackend ::
    "Kube \<Rightarrow> gostring \<Rightarrow> (gostring \<Rightarrow> float64 option) \<Rightarrow> instant \<Rightarrow> gostring \<Rightarrow> RouterBackend
     \<Rightarrow> compile_error + Backend \<times> BackendStatus \<times> gostring list" where
  "resolveBackend k DefaultLiteLLMURL parseFloat now namespace b =
     (case rb_InferenceServiceRef b of
        Some ref \<Rightarrow> resolveLocal k namespace b ref (wireBase parseFloat b) (statusBase now b)
      | None \<Rightarrow>
          (case rb_External b of
             Some p \<Rightarrow>
               (let (wire, status) =
                  resolveExternal k DefaultLiteLLMURL namespace p (wireBase parseFloat b) (statusBase now b) in
                Inr (wire, status, []))
           | None \<Rightarrow>
               Inr (wireBase parseFloat b,
                    (statusBase now b)\<lparr>st_Healthy := False, st_Message := [NoProviderDeclared]\<rparr>, [])))"

section \<open>Backends behind an API key\<close>

fun keyedNames ::
    "Kube \<Rightarrow> gostring \<Rightarrow> (gostring \<times> gostring) list \<Rightarrow> compile_error + gostring list" where
  "keyedNames k namespace [] = Inr []"
| "keyedNames k namespace ((name, ref) # rest) =
     (case kube_InferenceService k namespace ref of
        NotFound \<Rightarrow> keyedNames k namespace rest
      | LookupFailed e \<Rightarrow> Inl (IsvcGetFailed namespace ref e)
      | Found i \<Rightarrow>
          (case keyedNames k namespace rest of
             Inl e \<Rightarrow> Inl e
           | Inr names \<Rightarrow> Inr (if inferenceServiceRequiresAPIKey i then name # names else names)))"

definition localRefs :: "RouterBackend list \<Rightarrow> (gostring \<times> gostring) list" where
  "localRefs bs = List.map_filter (\<lambda>b. map_option (\<lambda>ref. (rb_Name b, ref)) (rb_InferenceServiceRef b)) bs"

definition keyedBackends :: "Kube \<Rightarrow> ModelRouter \<Rightarrow> compile_error + gostring list" where
  "keyedBackends k mr =
     map_sum id sort (keyedNames k (meta_Namespace mr) (localRefs (spec_Backends (mr_Spec mr))))"

definition keyedPoolMembers :: "Kube \<Rightarrow> gostring \<Rightarrow> gostring \<Rightarrow> gostring list \<Rightarrow> compile_error + gostring list" where
  "keyedPoolMembers k namespace self members =
     map_sum id sort (keyedNames k namespace (map (\<lambda>m. (m, m)) (filter (\<lambda>m. m \<noteq> self) members)))"

section \<open>Rules and policy\<close>

definition translateRule :: "RouterRule \<Rightarrow> Rule" where
  "translateRule r =
     \<lparr>rule_Name = rr_Name r,
      rule_Match = (case rr_Match r of
          None \<Rightarrow> \<lparr>DataClassification = [], TaskComplexity = '''', RequiredCapabilities = [],
                    match_Headers = [], match_Models = []\<rparr>
        | Some m \<Rightarrow> \<lparr>DataClassification = rms_DataClassification m, TaskComplexity = rms_TaskComplexity m,
                     RequiredCapabilities = rms_RequiredCapabilities m, match_Headers = rms_Headers m,
                     match_Models = rms_Models m\<rparr>),
      rule_Route = \<lparr>route_Backends = rrs_Backends (rr_Route r), route_Strategy = rrs_Strategy (rr_Route r),
                    route_PoolActivation = rrs_PoolActivation (rr_Route r)\<rparr>,
      rule_FailClosed = rr_FailClosed r,
      rule_Timeout = (case rr_Timeout r of None \<Rightarrow> 0 | Some d \<Rightarrow> d)\<rparr>"

definition translateBudget :: "(gostring \<Rightarrow> float64 option) \<Rightarrow> BudgetSpec \<Rightarrow> Budget" where
  "translateBudget parseFloat b =
     (let window = wrap64 (bsp_WindowSeconds b * second) in
      \<lparr>bud_Name = bsp_Name b, bud_Scope = bsp_Scope b, bud_RuleName = bsp_RuleName b,
       bud_HeaderKey = bsp_HeaderKey b, bud_Window = (if window \<le> 0 then hour else window),
       bud_MaxTokens = (case bsp_MaxTokens b of None \<Rightarrow> 0 | Some t \<Rightarrow> t),
       bud_MaxUSD = parseUSD parseFloat (bsp_MaxUSD b)\<rparr>)"

definition translateBudgets :: "(gostring \<Rightarrow> float64 option) \<Rightarrow> BudgetSpec list \<Rightarrow> Budget list" where
  "translateBudgets parseFloat bs = map (translateBudget parseFloat) bs"

definition translatePolicy :: "(gostring \<Rightarrow> float64 option) \<Rightarrow> RouterPolicy option \<Rightarrow> Policy" where
  "translatePolicy parseFloat p =
     (let out = \<lparr>pol_Classification = \<lparr>cls_Mode = ''header-only'', cls_HeaderKey = '''', cls_Sensitive = []\<rparr>,
                 pol_AuditLog = \<lparr>audit_Sink = ''stdout'', audit_FilePath = '''', audit_IncludeRequestBody = False\<rparr>,
                 pol_Budgets = []\<rparr> in
      case p of
        None \<Rightarrow> out
      | Some p \<Rightarrow>
          out\<lparr>pol_Classification := (case rp_Classification p of
                  None \<Rightarrow> pol_Classification out
                | Some c \<Rightarrow> \<lparr>cls_Mode = (if cps_Mode c = '''' then ''header-only'' else cps_Mode c),
                             cls_HeaderKey = cps_HeaderKey c, cls_Sensitive = cps_SensitiveClassifications c\<rparr>),
              pol_AuditLog := (case rp_AuditLog p of
                  None \<Rightarrow> pol_AuditLog out
                | Some a \<Rightarrow> \<lparr>audit_Sink = (if aps_Sink a = '''' then ''stdout'' else aps_Sink a),
                             audit_FilePath = aps_FilePath a,
                             audit_IncludeRequestBody = aps_IncludeRequestBody a\<rparr>),
              pol_Budgets := translateBudgets parseFloat (rp_Budgets p)\<rparr>)"

section \<open>The whole compilation\<close>

record Compiler =
  co_LiteLLMURL :: gostring
  co_parseFloat :: "gostring \<Rightarrow> float64 option"
  co_validName :: "gostring \<Rightarrow> bool"
  co_marshal :: "Config \<Rightarrow> gostring option"
  co_hash :: "gostring \<Rightarrow> gostring"
  co_now :: instant

record Resolved =
  rs_wires :: "Backend list"
  rs_statuses :: "BackendStatus list"
  rs_warnings :: "(gostring \<times> status_note list) list"
  rs_keyedPool :: "gostring list"
  rs_events :: "gostring list"

definition noneResolved :: Resolved where
  "noneResolved = \<lparr>rs_wires = [], rs_statuses = [], rs_warnings = [], rs_keyedPool = [], rs_events = []\<rparr>"

text \<open>The status of one backend after the API key checks, and whether a pool sibling is keyed.\<close>

definition keyStatus ::
    "Kube \<Rightarrow> gostring \<Rightarrow> gostring list \<Rightarrow> RouterBackend \<Rightarrow> Backend \<Rightarrow> BackendStatus
     \<Rightarrow> compile_error + BackendStatus \<times> bool" where
  "keyStatus k namespace keyed b wire status =
     (if rb_Name b \<in> set keyed then
        Inr (status\<lparr>st_Healthy := False, st_Message := appendMsg (st_Message status) [BackendKeyed (rb_Name b)]\<rparr>, False)
      else (case (be_Pool wire, rb_InferenceServiceRef b) of
          (Some pool, Some ref) \<Rightarrow>
            (case keyedPoolMembers k namespace ref (pool_Members pool) of
               Inl e \<Rightarrow> Inl e
             | Inr siblings \<Rightarrow>
                 if siblings = [] then Inr (status, False)
                 else Inr (status\<lparr>st_Healthy := False,
                   st_Message := appendMsg (st_Message status) [PoolMembersKeyed (pool_Name pool) siblings]\<rparr>, True))
        | _ \<Rightarrow> Inr (status, False)))"

fun compileBackends ::
    "Kube \<Rightarrow> Compiler \<Rightarrow> gostring \<Rightarrow> gostring list \<Rightarrow> RouterBackend list \<Rightarrow> Resolved \<Rightarrow> compile_error + Resolved" where
  "compileBackends k co namespace keyed [] rs = Inr rs"
| "compileBackends k co namespace keyed (b # bs) rs =
     (case resolveBackend k (co_LiteLLMURL co) (co_parseFloat co) (co_now co) namespace b of
        Inl e \<Rightarrow> Inl e
      | Inr (wire, status, events) \<Rightarrow>
          (case keyStatus k namespace keyed b wire status of
             Inl e \<Rightarrow> Inl e
           | Inr (status, poolKeyed) \<Rightarrow>
               compileBackends k co namespace keyed bs
                 \<lparr>rs_wires = rs_wires rs @ [wire], rs_statuses = rs_statuses rs @ [status],
                  rs_warnings = (if st_Message status \<noteq> [] then rs_warnings rs @ [(rb_Name b, st_Message status)]
                                 else rs_warnings rs),
                  rs_keyedPool = (if poolKeyed then rs_keyedPool rs @ [rb_Name b] else rs_keyedPool rs),
                  rs_events = rs_events rs @ events\<rparr>))"

definition wireConfig :: "Compiler \<Rightarrow> ModelRouterSpec \<Rightarrow> Backend list \<Rightarrow> Config" where
  "wireConfig co spec wires =
     \<lparr>cfg_Backends = wires, cfg_Rules = map translateRule (spec_Rules spec),
      cfg_DefaultRoute = spec_DefaultRoute spec, cfg_DefaultRouteStrategy = spec_DefaultRouteStrategy spec,
      cfg_Policy = translatePolicy (co_parseFloat co) (spec_Policy spec)\<rparr>"

definition compileRouterConfig :: "Kube \<Rightarrow> Compiler \<Rightarrow> ModelRouter \<Rightarrow> compile_error + compiledConfig \<times> gostring list" where
  "compileRouterConfig k co mr =
     (case keyedBackends k mr of
        Inl e \<Rightarrow> Inl e
      | Inr keyed \<Rightarrow>
          (case compileBackends k co (meta_Namespace mr) keyed (spec_Backends (mr_Spec mr)) noneResolved of
             Inl e \<Rightarrow> Inl e
           | Inr rs \<Rightarrow>
               (let out = wireConfig co (mr_Spec mr) (rs_wires rs) in
                case Validate (co_validName co) out of
                  Some e \<Rightarrow> Inl (CompiledInvalid e)
                | None \<Rightarrow>
                    (case co_marshal co out of
                       None \<Rightarrow> Inl MarshalFailed
                     | Some data \<Rightarrow>
                         Inr (\<lparr>cc_JSON = data, cc_Hash = co_hash co data, cc_Backends = rs_statuses rs,
                               cc_Warnings = rs_warnings rs,
                               cc_HasPools = (\<exists>b \<in> set (rs_wires rs). be_Pool b \<noteq> None),
                               cc_KeyedBackends = keyed, cc_KeyedPoolBackends = sort (rs_keyedPool rs)\<rparr>,
                              rs_events rs)))))"

section \<open>What a backend compiles to\<close>

definition compiledTier :: "RouterBackend \<Rightarrow> gostring" where
  "compiledTier b =
     (if rb_Tier b \<noteq> '''' then rb_Tier b
      else if rb_InferenceServiceRef b \<noteq> None then backendTierLocal
      else if rb_External b \<noteq> None then backendTierCloud else '''')"

definition resolvesTo :: "Kube \<Rightarrow> Compiler \<Rightarrow> gostring \<Rightarrow> RouterBackend \<Rightarrow> Backend \<Rightarrow> bool" where
  "resolvesTo k co namespace b wire \<longleftrightarrow>
     (\<exists>status events. resolveBackend k (co_LiteLLMURL co) (co_parseFloat co) (co_now co) namespace b =
        Inr (wire, status, events))"

lemma wireBase_fields [simp]:
  "be_Name (wireBase pf b) = rb_Name b" "be_Tier (wireBase pf b) = rb_Tier b"
  "be_Endpoints (wireBase pf b) = []" "be_Address (wireBase pf b) = ''''"
  "be_CostPerMillionTokens (wireBase pf b) = translateTokenCost pf (rb_CostPerMillionTokens b)"
  "be_EndpointSource (wireBase pf b) = None" "be_Balancing (wireBase pf b) = None"
  "be_Metrics (wireBase pf b) = None"
  by (simp_all add: wireBase_def)

lemma resolveLocal_fields:
  assumes "resolveLocal k ns b ref wire status = Inr (w, st, ev)"
  shows "be_Name w = be_Name wire"
    and "be_Tier w = (if be_Tier wire = '''' then backendTierLocal else be_Tier wire)"
    and "be_Endpoints w = be_Endpoints wire"
    and "be_CostPerMillionTokens w = be_CostPerMillionTokens wire"
    and "be_Address w = fst (resolveInferenceServiceAddress k ns ref)"
  using assms
  by (auto simp: resolveLocal_def Let_def resolveInferenceServiceAddress_def resolveInferenceServiceEndpoints_def
      split: if_splits option.splits sum.splits lookup.splits)

lemma resolveLocal_endpoint:
  assumes "resolveLocal k ns b ref wire status = Inr (w, st, ev)"
    and "be_EndpointSource wire = None" and "be_Balancing wire = None" and "be_Metrics wire = None"
  shows "be_EndpointSource w = (if rb_Resolution b = RouterBackendResolutionEndpoint
      then fst (snd (resolveInferenceServiceEndpoints k ns ref)) else None)"
    and "rb_Resolution b \<noteq> RouterBackendResolutionEndpoint \<Longrightarrow> be_Balancing w = None \<and> be_Metrics w = None"
    and "rb_Resolution b = RouterBackendResolutionEndpoint \<Longrightarrow>
      compileBalancing k ns ref (rb_Balancing b) = Inr (be_Balancing w, be_Metrics w)"
  using assms
  by (auto simp: resolveLocal_def Let_def split: if_splits option.splits sum.splits prod.splits)

lemma resolveExternal_fields:
  assumes "resolveExternal k url ns p wire status = (w, st)"
  shows "be_Name w = be_Name wire"
    and "be_Tier w = (if be_Tier wire = '''' then backendTierCloud else be_Tier wire)"
    and "be_Endpoints w = be_Endpoints wire"
    and "be_CostPerMillionTokens w = be_CostPerMillionTokens wire"
    and "be_Address w = fst (resolveExternalURL url p)"
    and "be_EndpointSource w = be_EndpointSource wire" and "be_Balancing w = be_Balancing wire"
    and "be_Metrics w = be_Metrics wire"
  using assms by (auto simp: resolveExternal_def Let_def split: if_splits option.splits prod.splits)

lemma resolvesTo_cases:
  assumes "resolvesTo k co ns b w"
  obtains (Local) ref st ev where "rb_InferenceServiceRef b = Some ref"
      "resolveLocal k ns b ref (wireBase (co_parseFloat co) b) (statusBase (co_now co) b) = Inr (w, st, ev)"
  | (External) p st where "rb_InferenceServiceRef b = None" "rb_External b = Some p"
      "resolveExternal k (co_LiteLLMURL co) ns p (wireBase (co_parseFloat co) b) (statusBase (co_now co) b) = (w, st)"
  | (Neither) "rb_InferenceServiceRef b = None" "rb_External b = None" "w = wireBase (co_parseFloat co) b"
  using assms unfolding resolvesTo_def resolveBackend_def
  by (auto split: option.splits prod.splits)

lemma resolvesTo_fields:
  assumes "resolvesTo k co ns b w"
  shows "be_Name w = rb_Name b" and "be_Tier w = compiledTier b" and "be_Endpoints w = []"
    and "be_CostPerMillionTokens w = translateTokenCost (co_parseFloat co) (rb_CostPerMillionTokens b)"
  using assms
  by (cases rule: resolvesTo_cases; simp add: resolveLocal_fields resolveExternal_fields compiledTier_def)+

lemma resolvesTo_address:
  assumes "resolvesTo k co ns b w"
  shows "be_Address w =
    (case rb_InferenceServiceRef b of
       Some ref \<Rightarrow> fst (resolveInferenceServiceAddress k ns ref)
     | None \<Rightarrow> (case rb_External b of
         Some p \<Rightarrow> fst (resolveExternalURL (co_LiteLLMURL co) p) | None \<Rightarrow> ''''))"
  using assms
  by (cases rule: resolvesTo_cases) (simp_all add: resolveLocal_fields resolveExternal_fields)

lemma compileBackends_wires:
  assumes "compileBackends k co ns keyed bs rs = Inr rs'"
  shows "\<exists>wires. rs_wires rs' = rs_wires rs @ wires \<and> list_all2 (resolvesTo k co ns) bs wires"
  using assms
proof (induction bs arbitrary: rs)
  case (Cons b bs)
  from Cons.prems obtain w st ev st' pk where w:
    "resolveBackend k (co_LiteLLMURL co) (co_parseFloat co) (co_now co) ns b = Inr (w, st, ev)"
    and rest: "compileBackends k co ns keyed bs
       \<lparr>rs_wires = rs_wires rs @ [w], rs_statuses = rs_statuses rs @ [st'],
        rs_warnings = (if st_Message st' \<noteq> [] then rs_warnings rs @ [(rb_Name b, st_Message st')] else rs_warnings rs),
        rs_keyedPool = (if pk then rs_keyedPool rs @ [rb_Name b] else rs_keyedPool rs),
        rs_events = rs_events rs @ ev\<rparr> = Inr rs'"
    by (simp split: sum.splits prod.splits)
  from Cons.IH [OF rest] obtain wires where
    "rs_wires rs' = rs_wires rs @ w # wires" "list_all2 (resolvesTo k co ns) bs wires" by auto
  moreover have "resolvesTo k co ns b w" using w by (auto simp: resolvesTo_def)
  ultimately show ?case by (intro exI [of _ "w # wires"]) simp
qed simp

lemma list_all2_right: "list_all2 P xs ys \<Longrightarrow> y \<in> set ys \<Longrightarrow> \<exists>x \<in> set xs. P x y"
  by (induction rule: list_all2_induct) auto

lemma resolvesTo_pool:
  assumes "resolvesTo k co ns b w"
  shows "be_Pool w = (case rb_InferenceServiceRef b of None \<Rightarrow> None
    | Some ref \<Rightarrow> (case resolveBackendPool k ns ref of None \<Rightarrow> None | Some pool \<Rightarrow> pool))"
  using assms
proof (cases rule: resolvesTo_cases)
  case (Local ref st ev)
  then show ?thesis
    by (auto simp: resolveLocal_def wireBase_def Let_def split: if_splits option.splits sum.splits prod.splits)
next
  case (External p st)
  then show ?thesis by (auto simp: resolveExternal_def wireBase_def Let_def split: if_splits option.splits prod.splits)
qed (simp add: wireBase_def)

lemma list_all2_left: "list_all2 P xs ys \<Longrightarrow> x \<in> set xs \<Longrightarrow> \<exists>y \<in> set ys. P x y"
  by (induction rule: list_all2_induct) auto

lemma list_all2_names:
  assumes "list_all2 (resolvesTo k co ns) bs wires"
  shows "map be_Name wires = map rb_Name bs"
  using assms by (induction rule: list_all2_induct) (simp_all add: resolvesTo_fields)

section \<open>Which specifications compile\<close>

text \<open>What the schema of the resource guarantees (the kubebuilder markers of
  \<open>modelrouter_types.go\<close>: enumerations, minimum lengths and ranges).\<close>

definition backend_schema_ok :: "(gostring \<Rightarrow> bool) \<Rightarrow> RouterBackend \<Rightarrow> bool" where
  "backend_schema_ok validName b \<longleftrightarrow>
     rb_Tier b \<in> {'''', backendTierLocal, backendTierCloud} \<and>
     (\<forall>bal. rb_Balancing b = Some bal \<longrightarrow>
        bb_Mode bal \<in> {'''', BalancingRoundRobin, BalancingLoadAware} \<and>
        (\<forall>sa. bb_SessionAffinity bal = Some sa \<longrightarrow>
           (\<forall>h \<in> set (sa_Headers sa). length h \<le> maxSessionHeaderNameLen \<and> validName h) \<and>
           (\<forall>d. sa_IdleTimeout sa = Some d \<longrightarrow> minSessionIdleTimeout \<le> d \<and> d \<le> maxSessionIdleTimeout)))"

definition schema_ok :: "(gostring \<Rightarrow> bool) \<Rightarrow> ModelRouterSpec \<Rightarrow> bool" where
  "schema_ok validName spec \<longleftrightarrow>
     spec_Backends spec \<noteq> [] \<and>
     (\<forall>b \<in> set (spec_Backends spec). backend_schema_ok validName b) \<and>
     spec_DefaultRouteStrategy spec \<in> {'''', DefaultRouteStrategyStatic, DefaultRouteStrategyBackendNameMatch} \<and>
     (\<forall>r \<in> set (spec_Rules spec). rr_Name r \<noteq> '''' \<and>
        rrs_PoolActivation (rr_Route r) \<in> {'''', PoolActivationWait, PoolActivationIfIdle}) \<and>
     (\<forall>b \<in> set (specBudgets spec). bsp_Name b \<noteq> '''' \<and>
        bsp_Scope b \<in> {BudgetScopeRouter, BudgetScopeTeam, BudgetScopeRule} \<and>
        (\<forall>t. bsp_MaxTokens b = Some t \<longrightarrow> 1 \<le> t))"

definition backend_reachable :: "Kube \<Rightarrow> Compiler \<Rightarrow> gostring \<Rightarrow> RouterBackend \<Rightarrow> bool" where
  "backend_reachable k co namespace b \<longleftrightarrow>
     (case rb_InferenceServiceRef b of
        Some ref \<Rightarrow> \<exists>i. kube_InferenceService k namespace ref = Found i \<and> isvc_Name i \<noteq> '''' \<and> isvc_Namespace i \<noteq> ''''
      | None \<Rightarrow> (case rb_External b of
          Some p \<Rightarrow> fst (resolveExternalURL (co_LiteLLMURL co) p) \<noteq> '''' | None \<Rightarrow> False))"

lemma servicePort_pos: "0 < servicePort i"
  by (simp add: servicePort_def split: option.splits)

lemma serviceURL_nonempty [simp]: "serviceURL i \<noteq> ''''"
  by (simp add: serviceURL_def)

lemma sanitizeDNSName_Nil [simp]: "sanitizeDNSName s = '''' \<longleftrightarrow> s = ''''"
  by (simp add: sanitizeDNSName_def)

lemma compileBalancing_ok:
  assumes "compileBalancing k ns ref bal = Inr (be_Balancing w, be_Metrics w)" and "rb_Balancing b = bal"
    and "backend_schema_ok v b"
  shows "balancing_ok v w"
proof -
  have metrics: "mp_Path m \<noteq> '''' \<and> mp_Running m \<noteq> '''' \<and> mp_Waiting m \<noteq> ''''" if "be_Metrics w = Some m" for m
    using assms(1) that
    by (auto simp: compileBalancing_def Let_def vllmMetricsProfile_def split: option.splits if_splits lookup.splits)
  have "be_Balancing w = map_option wireBalancing bal"
    using assms(1) by (auto simp: compileBalancing_def Let_def split: option.splits if_splits lookup.splits)
  moreover have "bal_Mode out \<in> {'''', BalancingRoundRobin, BalancingLoadAware} \<and>
      (bal_SessionIdleTimeout out = 0 \<or>
       minSessionIdleTimeout \<le> bal_SessionIdleTimeout out \<and> bal_SessionIdleTimeout out \<le> maxSessionIdleTimeout) \<and>
      (\<forall>h \<in> set (bal_SessionHeaders out). length h \<le> maxSessionHeaderNameLen \<and> v h)"
    if bl: "bal = Some bl" and out: "out = wireBalancing bl" for bl out
  proof (cases "bb_SessionAffinity bl")
    case None
    with bl assms(2,3) show ?thesis by (simp add: out wireBalancing_def backend_schema_ok_def Let_def)
  next
    case (Some sa)
    with bl assms(2,3) show ?thesis
      by (cases "sa_IdleTimeout sa") (simp_all add: out wireBalancing_def backend_schema_ok_def Let_def)
  qed
  ultimately show ?thesis using metrics by (auto simp: balancing_ok_def)
qed

lemma reachable_address:
  assumes "backend_reachable k co ns b" and "resolvesTo k co ns b w"
  shows "be_Address w \<noteq> ''''"
  using assms(1) unfolding resolvesTo_address [OF assms(2)]
  by (auto simp: backend_reachable_def resolveInferenceServiceAddress_def split: option.splits)

lemma resolvesTo_backend_ok:
  assumes r: "resolvesTo k co ns b w" and "backend_spec_ok b" and sch: "backend_schema_ok (co_validName co) b"
    and reach: "backend_reachable k co ns b"
  shows "backend_ok (co_validName co) w"
proof -
  have tier: "be_Tier w = ''local'' \<or> be_Tier w = ''cloud''"
    using sch assms(2) unfolding resolvesTo_fields [OF r]
    by (auto simp: compiledTier_def backend_schema_ok_def backend_spec_ok_def backendTierLocal_def backendTierCloud_def)
  have "(\<forall>s. be_EndpointSource w = Some s \<longrightarrow> es_Namespace s \<noteq> '''' \<and> es_Service s \<noteq> '''' \<and> 0 < es_Port s) \<and>
      balancing_ok (co_validName co) w"
    using r
  proof (cases rule: resolvesTo_cases)
    case (Local ref st ev)
    note ep = resolveLocal_endpoint [OF Local(2)]
    obtain i where i: "kube_InferenceService k ns ref = Found i" "isvc_Name i \<noteq> ''''" "isvc_Namespace i \<noteq> ''''"
      using reach Local(1) by (auto simp: backend_reachable_def)
    have "balancing_ok (co_validName co) w"
    proof (cases "rb_Resolution b = RouterBackendResolutionEndpoint")
      case True
      then show ?thesis using ep(3) sch by (intro compileBalancing_ok [where b = b]) auto
    next
      case False
      then show ?thesis using ep(2) by (simp add: balancing_ok_def)
    qed
    moreover have "es_Namespace s \<noteq> '''' \<and> es_Service s \<noteq> '''' \<and> 0 < es_Port s" if "be_EndpointSource w = Some s" for s
      using that ep(1) i servicePort_pos [of i]
      by (auto simp: resolveInferenceServiceEndpoints_def Let_def split: if_splits option.splits)
    ultimately show ?thesis by blast
  next
    case (External p st)
    then show ?thesis by (simp add: resolveExternal_fields balancing_ok_def)
  next
    case Neither
    then show ?thesis by (simp add: balancing_ok_def)
  qed
  moreover have "rb_Name b \<noteq> ''''" using assms(2) by (simp add: backend_spec_ok_def)
  ultimately show ?thesis
    using tier reachable_address [OF reach r] resolvesTo_fields(1) [OF r] by (simp add: backend_ok_def)
qed

lemma parseUSD_pos:
  assumes "pf '''' = None"
  shows "0 < parseUSD pf s \<longleftrightarrow> positiveUSD pf s"
  using assms by (auto simp: parseUSD_def positiveUSD_def Let_def split: option.splits)

lemma pricesTokens_translate:
  assumes "resolvesTo k co ns b w" and "co_parseFloat co '''' = None"
  shows "pricesTokens w \<longleftrightarrow> pricesTokensSpec (co_parseFloat co) (rb_CostPerMillionTokens b)"
  unfolding pricesTokens_def resolvesTo_fields [OF assms(1)]
  by (simp add: translateTokenCost_def pricesTokensSpec_def parseUSD_pos assms(2) split: option.splits)

lemma translateRule_fields [simp]:
  "rule_Name (translateRule r) = rr_Name r"
  "route_Backends (rule_Route (translateRule r)) = rrs_Backends (rr_Route r)"
  "route_PoolActivation (rule_Route (translateRule r)) = rrs_PoolActivation (rr_Route r)"
  "rule_FailClosed (translateRule r) = rr_FailClosed r"
  "DataClassification (rule_Match (translateRule r)) =
     (case rr_Match r of None \<Rightarrow> [] | Some m \<Rightarrow> rms_DataClassification m)"
  by (simp_all add: translateRule_def split: option.splits)

lemma translatePolicy_budgets [simp]:
  "pol_Budgets (translatePolicy pf p) = map (translateBudget pf) (case p of None \<Rightarrow> [] | Some p \<Rightarrow> rp_Budgets p)"
  by (simp add: translatePolicy_def translateBudgets_def Let_def split: option.splits)

lemma SensitiveSet_wireConfig:
  "SensitiveSet (wireConfig co spec wires) = sensitiveClassificationSet (spec_Policy spec)"
  by (simp add: SensitiveSet_def wireConfig_def translatePolicy_def sensitiveClassificationSet_def Let_def
      split: option.splits)

lemma translateBudget_ok:
  assumes "budget_spec_ok names b" and "bsp_Name b \<noteq> ''''"
    and "bsp_Scope b \<in> {BudgetScopeRouter, BudgetScopeTeam, BudgetScopeRule}"
    and "\<forall>t. bsp_MaxTokens b = Some t \<longrightarrow> 1 \<le> t" and "bsp_MaxTokens b \<noteq> None \<or> 0 < parseUSD pf (bsp_MaxUSD b)"
    and "0 < parseUSD pf (bsp_MaxUSD b) \<longrightarrow> (\<forall>x \<in> set wires. pricesTokens x)"
  shows "budget_ok wires names (translateBudget pf b)"
  using assms
  by (auto simp: budget_ok_def translateBudget_def budget_spec_ok_def Let_def BudgetScopeRule_def)

definition lookups_succeed :: "Kube \<Rightarrow> bool" where
  "lookups_succeed k \<longleftrightarrow> (\<forall>ns name e. kube_InferenceService k ns name \<noteq> LookupFailed e)"

lemma keyedNames_succeeds: "lookups_succeed k \<Longrightarrow> \<exists>names. keyedNames k ns refs = Inr names"
  by (induction k ns refs rule: keyedNames.induct)
    (auto simp: lookups_succeed_def split: lookup.splits sum.splits)

lemma keyStatus_succeeds:
  assumes "lookups_succeed k"
  shows "\<exists>st pk. keyStatus k ns keyed b wire status = Inr (st, pk)"
proof -
  have "\<exists>names. keyedPoolMembers k ns self members = Inr names" for self members
    using keyedNames_succeeds [OF assms, of ns "map (\<lambda>m. (m, m)) (filter (\<lambda>m. m \<noteq> self) members)"]
    by (auto simp: keyedPoolMembers_def)
  then show ?thesis by (auto simp: keyStatus_def split: option.splits sum.splits) (metis Inr_not_Inl)
qed

lemma resolveBackend_succeeds:
  assumes "lookups_succeed k"
  shows "\<exists>w st ev. resolveBackend k url pf now ns b = Inr (w, st, ev)"
proof -
  have bal: "\<exists>bal m. compileBalancing k ns ref bl = Inr (bal, m)" for ref bl
    using assms by (auto simp: compileBalancing_def Let_def lookups_succeed_def split: option.splits lookup.splits)
  have "\<exists>w st ev. resolveLocal k ns b ref wire status = Inr (w, st, ev)" for ref wire status
  proof -
    obtain bl m where "compileBalancing k ns ref (rb_Balancing b) = Inr (bl, m)" using bal by blast
    then show ?thesis by (auto simp: resolveLocal_def Let_def split: prod.splits option.splits)
  qed
  then show ?thesis by (auto simp: resolveBackend_def split: option.splits prod.splits)
qed

lemma compileBackends_succeeds:
  assumes "lookups_succeed k"
  shows "\<exists>rs'. compileBackends k co ns keyed bs rs = Inr rs'"
proof (induction bs arbitrary: rs)
  case (Cons b bs)
  obtain w st ev where w: "resolveBackend k (co_LiteLLMURL co) (co_parseFloat co) (co_now co) ns b = Inr (w, st, ev)"
    using resolveBackend_succeeds [OF assms] by blast
  obtain st' pk where "keyStatus k ns keyed b w st = Inr (st', pk)" using keyStatus_succeeds [OF assms] by blast
  with w Cons.IH show ?case by simp
qed simp

lemma wireConfig_ok:
  assumes spec: "router_spec_ok (co_parseFloat co) spec" and sch: "schema_ok (co_validName co) spec"
    and wires: "list_all2 (resolvesTo k co ns) (spec_Backends spec) wires"
    and reach: "\<forall>b \<in> set (spec_Backends spec). backend_reachable k co ns b"
    and empty: "co_parseFloat co '''' = None" and dist: "distinct (map bsp_Name (specBudgets spec))"
    and caps: "\<forall>b \<in> set (specBudgets spec). bsp_MaxTokens b \<noteq> None \<or> 0 < parseUSD (co_parseFloat co) (bsp_MaxUSD b)"
  shows "config_ok (co_validName co) (wireConfig co spec wires)"
proof -
  let ?pf = "co_parseFloat co"
  have names: "map be_Name wires = map rb_Name (spec_Backends spec)" using wires by (rule list_all2_names)
  then have nameset: "be_Name ` set wires = rb_Name ` set (spec_Backends spec)" by (metis image_set)
  have each: "\<exists>b \<in> set (spec_Backends spec). resolvesTo k co ns b w" if "w \<in> set wires" for w
    using wires that by (rule list_all2_right)
  have backs: "backend_ok (co_validName co) w" if "w \<in> set wires" for w
    using each [OF that] spec sch reach by (auto simp: router_spec_ok_def schema_ok_def intro: resolvesTo_backend_ok)
  have priced: "pricesTokens w" if "w \<in> set wires" "b \<in> set (specBudgets spec)" "0 < parseUSD ?pf (bsp_MaxUSD b)" for w b
  proof -
    have "trimSpace (bsp_MaxUSD b) \<noteq> ''''" using that(3) by (auto simp: parseUSD_def)
    with each [OF that(1)] spec that(2) show ?thesis
      by (auto simp: router_spec_ok_def pricesTokens_translate [OF _ empty])
  qed
  have buds: "budget_ok wires (rr_Name ` set (spec_Rules spec)) (translateBudget ?pf b)"
    if "b \<in> set (specBudgets spec)" for b
    using that spec sch caps priced by (intro translateBudget_ok) (auto simp: router_spec_ok_def schema_ok_def)
  have rules: "rule_ok (be_Name ` set wires) (translateRule r)" if "r \<in> set (spec_Rules spec)" for r
    using that spec sch by (auto simp: rule_ok_def router_spec_ok_def rule_spec_ok_def schema_ok_def nameset)
  have fields: "cfg_Backends (wireConfig co spec wires) = wires"
    "cfg_Rules (wireConfig co spec wires) = map translateRule (spec_Rules spec)"
    "cfg_DefaultRoute (wireConfig co spec wires) = spec_DefaultRoute spec"
    "cfg_DefaultRouteStrategy (wireConfig co spec wires) = spec_DefaultRouteStrategy spec"
    "pol_Budgets (cfg_Policy (wireConfig co spec wires)) = map (translateBudget ?pf) (specBudgets spec)"
    by (simp_all add: wireConfig_def specBudgets_def)
  have "wires \<noteq> []" using wires sch by (auto simp: schema_ok_def)
  moreover have "rule_Name ` translateRule ` set (spec_Rules spec) = rr_Name ` set (spec_Rules spec)"
    by (simp add: image_image)
  moreover have "bud_Name \<circ> translateBudget ?pf = bsp_Name" by (auto simp: translateBudget_def Let_def)
  ultimately show ?thesis
    unfolding config_ok_def fields set_map map_map
    using backs buds rules names nameset spec sch dist by (auto simp: router_spec_ok_def schema_ok_def)
qed

lemma compileRouterConfig_cases:
  assumes "compileRouterConfig k co mr = Inr (cc, ev)"
  obtains wires where "list_all2 (resolvesTo k co (meta_Namespace mr)) (spec_Backends (mr_Spec mr)) wires"
    and "config_ok (co_validName co) (wireConfig co (mr_Spec mr) wires)"
    and "co_marshal co (wireConfig co (mr_Spec mr) wires) = Some (cc_JSON cc)"
    and "cc_HasPools cc \<longleftrightarrow> (\<exists>b \<in> set wires. be_Pool b \<noteq> None)"
proof -
  from assms obtain keyed rs where rs: "compileBackends k co (meta_Namespace mr) keyed (spec_Backends (mr_Spec mr)) noneResolved = Inr rs"
    and "Validate (co_validName co) (wireConfig co (mr_Spec mr) (rs_wires rs)) = None"
    and "co_marshal co (wireConfig co (mr_Spec mr) (rs_wires rs)) = Some (cc_JSON cc)"
    and "cc_HasPools cc \<longleftrightarrow> (\<exists>b \<in> set (rs_wires rs). be_Pool b \<noteq> None)"
    by (auto simp: compileRouterConfig_def Let_def split: sum.splits option.splits)
  moreover from compileBackends_wires [OF rs]
  have "list_all2 (resolvesTo k co (meta_Namespace mr)) (spec_Backends (mr_Spec mr)) (rs_wires rs)"
    by (simp add: noneResolved_def)
  ultimately show thesis by (intro that [of "rs_wires rs"]) (simp_all add: Validate_None_iff)
qed

lemma compile_accepted:
  assumes "validateModelRouter (co_parseFloat co) mr = []" and "schema_ok (co_validName co) (mr_Spec mr)"
    and "\<forall>b \<in> set (spec_Backends (mr_Spec mr)). backend_reachable k co (meta_Namespace mr) b"
    and "lookups_succeed k" and "co_parseFloat co '''' = None"
    and "distinct (map bsp_Name (specBudgets (mr_Spec mr)))"
    and "\<forall>b \<in> set (specBudgets (mr_Spec mr)). bsp_MaxTokens b \<noteq> None \<or> 0 < parseUSD (co_parseFloat co) (bsp_MaxUSD b)"
    and "\<And>wires. list_all2 (resolvesTo k co (meta_Namespace mr)) (spec_Backends (mr_Spec mr)) wires \<Longrightarrow>
      co_marshal co (wireConfig co (mr_Spec mr) wires) \<noteq> None"
  shows "\<exists>cc events cfg. compileRouterConfig k co mr = Inr (cc, events) \<and>
    co_marshal co cfg = Some (cc_JSON cc) \<and> Validate (co_validName co) cfg = None \<and>
    map be_Name (cfg_Backends cfg) = map rb_Name (spec_Backends (mr_Spec mr))"
proof -
  let ?ns = "meta_Namespace mr"
  have spec: "router_spec_ok (co_parseFloat co) (mr_Spec mr)"
    using assms(1) by (rule validateModelRouter_iff [THEN iffD1])
  obtain keyed where keyed: "keyedBackends k mr = Inr keyed"
    using keyedNames_succeeds [OF assms(4), of ?ns "localRefs (spec_Backends (mr_Spec mr))"]
    by (auto simp: keyedBackends_def)
  obtain rs where rs: "compileBackends k co ?ns keyed (spec_Backends (mr_Spec mr)) noneResolved = Inr rs"
    using compileBackends_succeeds [OF assms(4)] by blast
  from compileBackends_wires [OF rs]
  have wires: "list_all2 (resolvesTo k co ?ns) (spec_Backends (mr_Spec mr)) (rs_wires rs)"
    by (simp add: noneResolved_def)
  have ok: "Validate (co_validName co) (wireConfig co (mr_Spec mr) (rs_wires rs)) = None"
    using wireConfig_ok [OF spec assms(2) wires assms(3,5,6,7)] by (simp add: Validate_None_iff)
  obtain s where s: "co_marshal co (wireConfig co (mr_Spec mr) (rs_wires rs)) = Some s" using assms(8) [OF wires] by blast
  have "map be_Name (rs_wires rs) = map rb_Name (spec_Backends (mr_Spec mr))" using wires by (rule list_all2_names)
  with keyed rs ok s show ?thesis
    by (auto simp: compileRouterConfig_def wireConfig_def Let_def
        intro!: exI [of _ "wireConfig co (mr_Spec mr) (rs_wires rs)"])
qed

section \<open>An example router\<close>

definition ex_specBackend :: "gostring \<Rightarrow> gostring option \<Rightarrow> ExternalProvider option \<Rightarrow> gostring \<Rightarrow> RouterBackend" where
  "ex_specBackend name ref external tier =
     \<lparr>rb_Name = name, rb_DisplayName = '''', rb_InferenceServiceRef = ref, rb_External = external, rb_Tier = tier,
      rb_Resolution = '''', rb_Balancing = None, rb_Capabilities = [], rb_Weight = None,
      rb_CostPerMillionTokens = None, rb_Timeout = None\<rparr>"

definition ex_provider :: ExternalProvider where
  "ex_provider = \<lparr>ext_Provider = ''anthropic'', ext_URL = '''', ext_Model = ''claude'', ext_CredentialsSecretRef = Some ''keys''\<rparr>"

definition ex_pii_rule :: "gostring \<Rightarrow> RouterRule" where
  "ex_pii_rule backend =
     \<lparr>rr_Name = ''pii-rule'',
      rr_Match = Some \<lparr>rms_DataClassification = [''pii''], rms_TaskComplexity = '''', rms_RequiredCapabilities = [],
                       rms_Headers = [], rms_Models = []\<rparr>,
      rr_Route = \<lparr>rrs_Backends = [backend], rrs_Strategy = '''', rrs_PoolActivation = ''''\<rparr>,
      rr_FailClosed = True, rr_Timeout = None\<rparr>"

definition ex_router :: "RouterBackend list \<Rightarrow> RouterRule list \<Rightarrow> ModelRouter" where
  "ex_router backends rules =
     \<lparr>meta_Name = ''edge'', meta_Namespace = ''ml'', meta_UID = ''uid-1'',
      mr_Spec = \<lparr>spec_DataPlane = ModelRouterDataPlaneProxy, spec_Backends = backends, spec_Rules = rules,
        spec_DefaultRoute = '''', spec_DefaultRouteStrategy = '''', spec_Policy = None, spec_Endpoint = None,
        spec_Proxy = None\<rparr>\<rparr>"

definition ex_mixed :: ModelRouter where
  "ex_mixed = ex_router [ex_specBackend ''gpu'' (Some ''llama'') None '''', ex_specBackend ''api'' None (Some ex_provider) ''cloud'']
     [ex_pii_rule ''gpu'']"

definition ex_isvc :: isvc where
  "ex_isvc = \<lparr>isvc_Name = ''llama'', isvc_Namespace = ''ml'', isvc_Runtime = '''', isvc_ModelRef = ''m'',
     isvc_EndpointPort = None, isvc_APIKeySecretRef = False, isvc_ExtraArgs = [], isvc_Command = [], isvc_Args = [],
     isvc_Env = []\<rparr>"

definition ex_kube :: "gostring list \<Rightarrow> Kube" where
  "ex_kube services =
     \<lparr>kube_InferenceService = (\<lambda>_ name. if name \<in> set services then Found ex_isvc else NotFound),
      kube_Model = (\<lambda>_ _. NotFound), kube_Secret = (\<lambda>_ _. Found [''ANTHROPIC_API_KEY'']),
      kube_EndpointSlices = (\<lambda>_ _. Some []), kube_ModelPools = (\<lambda>_. Some [])\<rparr>"

definition ex_compiler :: Compiler where
  "ex_compiler = \<lparr>co_LiteLLMURL = '''', co_parseFloat = (\<lambda>_. None), co_validName = (\<lambda>_. True),
     co_marshal = (\<lambda>_. Some ''{}''), co_hash = (\<lambda>s. s), co_now = 0\<rparr>"

lemmas ex_defs = ex_specBackend_def ex_provider_def ex_pii_rule_def ex_router_def ex_mixed_def ex_isvc_def ex_kube_def ex_compiler_def

lemma ex_mixed_accepted: "validateModelRouter pf ex_mixed = []"
  unfolding validateModelRouter_iff
  by (simp add: router_spec_ok_def backend_spec_ok_def rule_spec_ok_def timeout_ok_def ex_defs specBudgets_def
      backendTierCloud_def matchedSensitive_def)

lemma ex_mixed_ok:
  "schema_ok (co_validName ex_compiler) (mr_Spec ex_mixed)"
  "\<forall>b \<in> set (spec_Backends (mr_Spec ex_mixed)). backend_reachable (ex_kube [''llama'']) ex_compiler (meta_Namespace ex_mixed) b"
  "lookups_succeed (ex_kube services)" "co_parseFloat ex_compiler '''' = None"
  "distinct (map bsp_Name (specBudgets (mr_Spec ex_mixed)))"
  "\<forall>b \<in> set (specBudgets (mr_Spec ex_mixed)). bsp_MaxTokens b \<noteq> None \<or> 0 < parseUSD (co_parseFloat ex_compiler) (bsp_MaxUSD b)"
  "\<forall>c. co_marshal ex_compiler c \<noteq> None"
  by (simp_all add: schema_ok_def backend_schema_ok_def ex_defs specBudgets_def backendTierCloud_def backend_reachable_def
      resolveExternalURL_def defaultAnthropicURL_def lookups_succeed_def)

lemma ex_compiled: "\<exists>cc ev. compileRouterConfig (ex_kube [''llama'']) ex_compiler ex_mixed = Inr (cc, ev) \<and> \<not> cc_HasPools cc"
proof -
  obtain cc ev where cc: "compileRouterConfig (ex_kube [''llama'']) ex_compiler ex_mixed = Inr (cc, ev)"
    using compile_accepted [OF ex_mixed_accepted ex_mixed_ok(1-6)] ex_mixed_ok(7) by blast
  then obtain wires where wires: "list_all2 (resolvesTo (ex_kube [''llama'']) ex_compiler (meta_Namespace ex_mixed))
      (spec_Backends (mr_Spec ex_mixed)) wires" and pools: "cc_HasPools cc \<longleftrightarrow> (\<exists>b \<in> set wires. be_Pool b \<noteq> None)"
    by (rule compileRouterConfig_cases)
  have "be_Pool w = None" if w: "w \<in> set wires" for w
  proof -
    from wires w obtain b where "resolvesTo (ex_kube [''llama'']) ex_compiler (meta_Namespace ex_mixed) b w"
      by (blast dest: list_all2_right)
    from resolvesTo_pool [OF this] show ?thesis by (simp add: resolveBackendPool_def ex_kube_def split: option.splits)
  qed
  with cc pools show ?thesis by auto
qed



text \<open>C38. One backend that cannot be resolved fails the whole compilation: when a referenced
  InferenceService does not exist, the compiled backend has no address, the final validation rejects the
  configuration, and no configuration is produced for the other backends either.\<close>
theorem missing_service_fails_compile:
  assumes "b \<in> set (spec_Backends (mr_Spec mr))" and "rb_InferenceServiceRef b = Some ref"
    and "kube_InferenceService k (meta_Namespace mr) ref = NotFound"
  shows "\<exists>e. compileRouterConfig k co mr = Inl e"
proof (rule ccontr)
  assume "\<not> ?thesis"
  then obtain cc ev where "compileRouterConfig k co mr = Inr (cc, ev)"
    by (cases "compileRouterConfig k co mr") auto
  then obtain wires where wires: "list_all2 (resolvesTo k co (meta_Namespace mr)) (spec_Backends (mr_Spec mr)) wires"
    and ok: "config_ok (co_validName co) (wireConfig co (mr_Spec mr) wires)"
    by (rule compileRouterConfig_cases)
  from wires assms(1) obtain w where w: "w \<in> set wires" "resolvesTo k co (meta_Namespace mr) b w"
    by (blast dest: list_all2_left)
  have "be_Address w = ''''" "be_Endpoints w = []"
    using resolvesTo_address [OF w(2)] resolvesTo_fields(3) [OF w(2)] assms(2,3)
    by (simp_all add: resolveInferenceServiceAddress_def)
  with ok w(1) show False by (auto simp: config_ok_def backend_ok_def wireConfig_def)
qed

theorem missing_service_fails_compile_witness:
  "validateModelRouter (co_parseFloat ex_compiler) ex_mixed = [] \<and>
   (\<exists>e. compileRouterConfig (ex_kube []) ex_compiler ex_mixed = Inl e)"
  by (rule conjI, rule ex_mixed_accepted)
    (rule missing_service_fails_compile [of "ex_specBackend ''gpu'' (Some ''llama'') None ''''" _ "''llama''"], simp_all add: ex_defs)

end
