(* ===== verification/Router_Reconcile.thy ===== *)
theory Router_Reconcile
  imports Router_Compile
begin

text \<open>
  The ModelRouter controller (\<open>internal/controller/modelrouter_controller.go\<close>,
  \<open>router_common.go\<close>, \<open>router_config_builder.go\<close>, \<open>router_deployment_builder.go\<close>,
  \<open>router_service_builder.go\<close>, \<open>router_activation_rbac.go\<close>): the objects it generates for a router,
  the ownership gate in front of every write, and \<open>Reconcile\<close> with its status on every branch.

  The namespace of the router is a map from kind and name to objects. Which API calls succeed is the
  parameter \<open>Api\<close>, with controller-runtime's \<open>SetControllerReference\<close>; a write that succeeds applies to
  the object that was read, which is what the API server's optimistic concurrency guarantees. Of an
  object's owner references only the controller one is kept. Settings of \<open>spec.proxy\<close> that are copied
  through to the pod unread (resources, tolerations, pull secrets) are left out, and so are the texts of
  condition messages.
\<close>

section \<open>Objects\<close>

datatype obj_kind = ConfigMap | Deployment | Service | ServiceAccount | Role | RoleBinding

record ControllerRef =
  cr_Kind :: gostring
  cr_Group :: gostring
  cr_UID :: gostring

datatype arg_value = NoValue | Text gostring | Span duration

record DeploymentSpec =
  dp_Replicas :: int
  dp_NoSurge :: bool
  dp_Selector :: "gostring \<rightharpoonup> gostring"
  dp_PodLabels :: "gostring \<rightharpoonup> gostring"
  dp_PodAnnotations :: "gostring \<rightharpoonup> gostring"
  dp_ServiceAccountName :: gostring
  dp_Image :: gostring
  dp_Args :: "(gostring \<times> arg_value) list"
  dp_ContainerPorts :: "(gostring \<times> int) list"
  dp_Env :: "(gostring \<times> gostring) list"
  dp_EnvFrom :: "gostring list"
  dp_ConfigVolume :: gostring
  dp_ReadyReplicas :: int

record ServicePort =
  sp_Name :: gostring
  sp_Port :: int
  sp_NodePort :: int
  sp_TargetPort :: int

record ServiceSpec =
  svc_Type :: gostring
  svc_Selector :: "gostring \<rightharpoonup> gostring"
  svc_Ports :: "ServicePort list"
  svc_ExternalTrafficPolicy :: gostring

record PolicyRule =
  pr_APIGroups :: "gostring list"
  pr_Resources :: "gostring list"
  pr_Verbs :: "gostring list"

datatype obj_body =
    ConfigMapBody "gostring \<rightharpoonup> gostring" "gostring \<rightharpoonup> gostring"
  | DeploymentBody DeploymentSpec
  | ServiceBody ServiceSpec
  | ServiceAccountBody
  | RoleBody "PolicyRule list"
  | RoleBindingBody gostring "gostring list"

record kube_object =
  ob_Controller :: "ControllerRef option"
  ob_Labels :: "gostring \<rightharpoonup> gostring"
  ob_Body :: obj_body

type_synonym obj_key = "obj_kind \<times> gostring"
type_synonym objects = "obj_key \<Rightarrow> kube_object option"

section \<open>Names, labels and blueprints\<close>

definition routerProxyPort :: int where "routerProxyPort = 8080"

definition routerProxyMetricsPort :: int where "routerProxyMetricsPort = 9090"

definition routerProxyConfigKey :: gostring where "routerProxyConfigKey = ''config.json''"

definition routerProxyConfigMountPath :: gostring where "routerProxyConfigMountPath = ''/etc/llmkube/router''"

definition routerProxyConfigHashAnnotation :: gostring where
  "routerProxyConfigHashAnnotation = ''inference.llmkube.dev/router-config-hash''"

definition defaultRouterProxyImage :: gostring where
  "defaultRouterProxyImage = ''ghcr.io/defilantech/llmkube-router-proxy:dev''"

definition routerProxyResourceName :: "gostring \<Rightarrow> gostring" where
  "routerProxyResourceName n = sanitizeDNSName n @ ''-router-proxy''"

definition routerProxyAdminResourceName :: "gostring \<Rightarrow> gostring" where
  "routerProxyAdminResourceName n = routerProxyResourceName n @ ''-admin''"

definition routerProxySelectorLabels :: "ModelRouter \<Rightarrow> gostring \<rightharpoonup> gostring" where
  "routerProxySelectorLabels mr =
     [''app'' \<mapsto> routerProxyResourceName (meta_Name mr), ''inference.llmkube.dev/model-router'' \<mapsto> meta_Name mr]"

definition routerProxyLabels :: "ModelRouter \<Rightarrow> gostring \<rightharpoonup> gostring" where
  "routerProxyLabels mr =
     (routerProxySelectorLabels mr)(''app.kubernetes.io/name'' \<mapsto> ''llmkube'',
       ''app.kubernetes.io/component'' \<mapsto> ''router-proxy'', ''app.kubernetes.io/managed-by'' \<mapsto> ''llmkube-controller'')"

definition blueprint :: "ModelRouter \<Rightarrow> obj_body \<Rightarrow> kube_object" where
  "blueprint mr body = \<lparr>ob_Controller = None, ob_Labels = routerProxyLabels mr, ob_Body = body\<rparr>"

definition newRouterConfigMap :: "ModelRouter \<Rightarrow> compiledConfig \<Rightarrow> kube_object" where
  "newRouterConfigMap mr compiled =
     blueprint mr (ConfigMapBody [routerProxyConfigKey \<mapsto> cc_JSON compiled]
       [routerProxyConfigHashAnnotation \<mapsto> cc_Hash compiled])"

definition routerNeedsEndpointWatch :: "ModelRouter \<Rightarrow> bool" where
  "routerNeedsEndpointWatch mr \<longleftrightarrow>
     (\<exists>b \<in> set (spec_Backends (mr_Spec mr)).
        rb_InferenceServiceRef b \<noteq> None \<and> rb_Resolution b = RouterBackendResolutionEndpoint)"

fun envFromSecrets :: "gostring list \<Rightarrow> RouterBackend list \<Rightarrow> gostring list" where
  "envFromSecrets seen [] = []"
| "envFromSecrets seen (b # bs) =
     (case rb_External b of
        None \<Rightarrow> envFromSecrets seen bs
      | Some p \<Rightarrow>
          (case ext_CredentialsSecretRef p of
             None \<Rightarrow> envFromSecrets seen bs
           | Some name \<Rightarrow>
               if name \<in> set seen then envFromSecrets seen bs
               else name # envFromSecrets (name # seen) bs))"

definition credentialsEnvFrom :: "ModelRouter \<Rightarrow> gostring list" where
  "credentialsEnvFrom mr = envFromSecrets [] (spec_Backends (mr_Spec mr))"

definition routerProxyArgs :: "ModelRouter \<Rightarrow> bool \<Rightarrow> (gostring \<times> arg_value) list" where
  "routerProxyArgs mr hasPools =
     [(''--config'', Text (routerProxyConfigMountPath @ ''/'' @ routerProxyConfigKey)),
      (''--listen'', Text ('':'' @ itoaInt routerProxyPort)),
      (''--metrics-bind-address'', Text ('':'' @ itoaInt routerProxyMetricsPort)),
      (''--log-format'', Text ''json'')] @
     (case spec_Proxy (mr_Spec mr) of
        None \<Rightarrow> []
      | Some p \<Rightarrow>
          (case rps_QuarantineDuration p of None \<Rightarrow> [] | Some d \<Rightarrow> [(''--quarantine-duration'', Span d)]) @
          (case rps_ResponseHeaderTimeout p of None \<Rightarrow> [] | Some d \<Rightarrow> [(''--response-header-timeout'', Span d)]) @
          (case rps_StreamIdleTimeout p of None \<Rightarrow> [] | Some d \<Rightarrow> [(''--stream-idle-timeout'', Span d)])) @
     (if hasPools then [(''--enable-activation'', NoValue)] else [])"

definition hardProxyPlacement :: "RouterProxySpec \<Rightarrow> bool" where
  "hardProxyPlacement p \<longleftrightarrow>
     ''DoNotSchedule'' \<in> set (rps_TopologySpreadConstraints p) \<or>
     (case rps_PodAntiAffinity p of None \<Rightarrow> False | Some required \<Rightarrow> required \<noteq> [])"

definition routerProxyStrategy :: "int \<Rightarrow> RouterProxySpec option \<Rightarrow> bool" where
  "routerProxyStrategy replicas p \<longleftrightarrow>
     \<not> (replicas \<le> 1 \<or> \<not> (case p of None \<Rightarrow> False | Some p \<Rightarrow> hardProxyPlacement p))"

definition newRouterDeployment :: "gostring \<Rightarrow> ModelRouter \<Rightarrow> gostring \<Rightarrow> bool \<Rightarrow> kube_object" where
  "newRouterDeployment img mr configHash hasPools =
     (let proxy = spec_Proxy (mr_Spec mr);
          replicas = (if hasPools then 1
            else (case proxy of None \<Rightarrow> 1 | Some p \<Rightarrow> (case rps_Replicas p of None \<Rightarrow> 1 | Some n \<Rightarrow> n)));
          img = (case proxy of None \<Rightarrow> img | Some p \<Rightarrow> if rps_Image p \<noteq> '''' then rps_Image p else img);
          calls = hasPools \<or> routerNeedsEndpointWatch mr in
      blueprint mr (DeploymentBody
        \<lparr>dp_Replicas = replicas, dp_NoSurge = routerProxyStrategy replicas proxy,
         dp_Selector = routerProxySelectorLabels mr, dp_PodLabels = routerProxySelectorLabels mr,
         dp_PodAnnotations = [routerProxyConfigHashAnnotation \<mapsto> configHash],
         dp_ServiceAccountName = (if calls then routerProxyResourceName (meta_Name mr) else ''''),
         dp_Image = img, dp_Args = routerProxyArgs mr hasPools,
         dp_ContainerPorts = [(''http'', routerProxyPort), (''metrics'', routerProxyMetricsPort)],
         dp_Env = (if calls then [(''ROUTER_NAME'', meta_Name mr)] else []),
         dp_EnvFrom = credentialsEnvFrom mr,
         dp_ConfigVolume = routerProxyResourceName (meta_Name mr), dp_ReadyReplicas = 0\<rparr>))"

definition newRouterService :: "ModelRouter \<Rightarrow> kube_object" where
  "newRouterService mr =
     (let endpoint = spec_Endpoint (mr_Spec mr);
          port = (case endpoint of None \<Rightarrow> routerProxyPort
                  | Some e \<Rightarrow> if ep_Port e > 0 then ep_Port e else routerProxyPort);
          serviceType = (case endpoint of None \<Rightarrow> ''ClusterIP''
                  | Some e \<Rightarrow> if ep_Type e = ''NodePort'' \<or> ep_Type e = ''LoadBalancer'' then ep_Type e else ''ClusterIP'');
          nodePort = (case endpoint of None \<Rightarrow> 0
                  | Some e \<Rightarrow> if serviceType = ''NodePort''
                      then (case ep_NodePort e of None \<Rightarrow> 0 | Some p \<Rightarrow> p) else 0);
          etp = (case endpoint of None \<Rightarrow> ''''
                  | Some e \<Rightarrow> if serviceType \<noteq> ''ClusterIP'' then ep_ExternalTrafficPolicy e else '''') in
      blueprint mr (ServiceBody
        \<lparr>svc_Type = serviceType, svc_Selector = routerProxySelectorLabels mr,
         svc_Ports = [\<lparr>sp_Name = ''http'', sp_Port = port, sp_NodePort = nodePort, sp_TargetPort = port\<rparr>],
         svc_ExternalTrafficPolicy = etp\<rparr>))"

definition newRouterAdminService :: "ModelRouter \<Rightarrow> kube_object" where
  "newRouterAdminService mr =
     blueprint mr (ServiceBody
       \<lparr>svc_Type = ''ClusterIP'', svc_Selector = routerProxySelectorLabels mr,
        svc_Ports = [\<lparr>sp_Name = ''admin'', sp_Port = routerProxyMetricsPort, sp_NodePort = 0,
                      sp_TargetPort = routerProxyMetricsPort\<rparr>],
        svc_ExternalTrafficPolicy = ''''\<rparr>)"

definition routerProxyEndpoint :: "ModelRouter \<Rightarrow> gostring" where
  "routerProxyEndpoint mr =
     (let endpoint = spec_Endpoint (mr_Spec mr);
          port = (case endpoint of None \<Rightarrow> routerProxyPort
                  | Some e \<Rightarrow> if ep_Port e > 0 then ep_Port e else routerProxyPort);
          path = (case endpoint of None \<Rightarrow> ''/v1/chat/completions''
                  | Some e \<Rightarrow> if ep_Path e \<noteq> '''' then ep_Path e else ''/v1/chat/completions'') in
      ''http://'' @ routerProxyResourceName (meta_Name mr) @ ''.'' @ meta_Namespace mr @
      ''.svc.cluster.local:'' @ itoaInt port @ path)"

definition routerProxyBudgetEndpoint :: "ModelRouter \<Rightarrow> gostring" where
  "routerProxyBudgetEndpoint mr =
     ''http://'' @ routerProxyAdminResourceName (meta_Name mr) @ ''.'' @ meta_Namespace mr @
     ''.svc.cluster.local:'' @ itoaInt routerProxyMetricsPort @ ''/admin/budgets''"

definition mergePreservingExternal :: "(gostring \<rightharpoonup> gostring) \<Rightarrow> (gostring \<rightharpoonup> gostring) \<Rightarrow> gostring \<rightharpoonup> gostring" where
  "mergePreservingExternal existing desired = existing ++ desired"

definition mergeServicePorts :: "ServicePort list \<Rightarrow> ServicePort list \<Rightarrow> gostring \<Rightarrow> ServicePort list" where
  "mergeServicePorts existing desired svcType =
     (if svcType = ''ClusterIP'' \<or> svcType = '''' then desired
      else map (\<lambda>p. if sp_NodePort p \<noteq> 0 then p
        else foldl (\<lambda>p e. if sp_Name e = sp_Name p then p\<lparr>sp_NodePort := sp_NodePort e\<rparr> else p) p existing) desired)"

definition activationRules :: "bool \<Rightarrow> bool \<Rightarrow> PolicyRule list" where
  "activationRules hasPools watch =
     (if hasPools then
        [\<lparr>pr_APIGroups = [''inference.llmkube.dev''], pr_Resources = [''inferenceservices''],
          pr_Verbs = [''get'', ''list'', ''watch'', ''update'', ''patch'']\<rparr>,
         \<lparr>pr_APIGroups = [''inference.llmkube.dev''], pr_Resources = [''inferenceservices/status''], pr_Verbs = [''get'']\<rparr>]
      else []) @
     (if watch then
        [\<lparr>pr_APIGroups = [''discovery.k8s.io''], pr_Resources = [''endpointslices''],
          pr_Verbs = [''get'', ''list'', ''watch'']\<rparr>]
      else [])"

section \<open>Writing objects behind the ownership gate\<close>

record budgetUsageWire =
  bu_Name :: gostring
  bu_UsedTokens :: int
  bu_UsedUSD :: float64
  bu_MaxTokens :: int
  bu_MaxUSD :: float64

record Api =
  api_getOK :: "obj_kind \<Rightarrow> gostring \<Rightarrow> bool"
  api_writeOK :: "obj_kind \<Rightarrow> gostring \<Rightarrow> bool"
  api_setRef :: "ModelRouter \<Rightarrow> kube_object \<Rightarrow> kube_object option"
  api_observed :: "kube_object lookup"
  api_patchOK :: bool
  api_probe :: "gostring \<Rightarrow> budgetUsageWire list option"
  api_format :: "float64 \<Rightarrow> gostring"

datatype reconcile_error =
    SetRefFailed obj_kind
  | GetFailed obj_kind
  | WriteFailed obj_kind
  | NameTaken obj_kind gostring gostring
  | ReadinessFailed

definition IsControlledBy :: "kube_object \<Rightarrow> ModelRouter \<Rightarrow> bool" where
  "IsControlledBy obj mr = (case ob_Controller obj of None \<Rightarrow> False | Some ref \<Rightarrow> cr_UID ref = meta_UID mr)"

definition ensureRouterProxyOwned :: "ModelRouter \<Rightarrow> kube_object \<Rightarrow> obj_kind \<Rightarrow> gostring \<Rightarrow> reconcile_error option" where
  "ensureRouterProxyOwned mr existing kind name =
     (if IsControlledBy existing mr then None
      else Some (NameTaken kind name
        (case ob_Controller existing of
           None \<Rightarrow> ''''
         | Some ref \<Rightarrow> if cr_Kind ref = ''ModelRouter'' \<and> cr_Group ref = ''inference.llmkube.dev'' then cr_UID ref else '''')))"

text \<open>The shape every upsert of the controller has: own the desired object, create it when it is absent,
  refuse a foreign one, and otherwise write what \<open>sync\<close> makes of the existing one (nothing for \<open>None\<close>).\<close>

definition upsert ::
    "Api \<Rightarrow> ModelRouter \<Rightarrow> obj_kind \<Rightarrow> gostring \<Rightarrow> kube_object \<Rightarrow> (kube_object \<Rightarrow> kube_object option)
     \<Rightarrow> objects \<Rightarrow> objects \<times> reconcile_error option" where
  "upsert api mr kind name desired sync st =
     (case api_setRef api mr desired of
        None \<Rightarrow> (st, Some (SetRefFailed kind))
      | Some desired \<Rightarrow>
          if \<not> api_getOK api kind name then (st, Some (GetFailed kind))
          else (case st (kind, name) of
              None \<Rightarrow> if api_writeOK api kind name then (st((kind, name) \<mapsto> desired), None) else (st, Some (WriteFailed kind))
            | Some existing \<Rightarrow>
                (case ensureRouterProxyOwned mr existing kind name of
                   Some e \<Rightarrow> (st, Some e)
                 | None \<Rightarrow>
                     (case sync existing of
                        None \<Rightarrow> (st, None)
                      | Some updated \<Rightarrow>
                          (case api_setRef api mr updated of
                             None \<Rightarrow> (st, Some (SetRefFailed kind))
                           | Some updated \<Rightarrow>
                               if api_writeOK api kind name then (st((kind, name) \<mapsto> updated), None)
                               else (st, Some (WriteFailed kind)))))))"

definition syncConfigMap :: "kube_object \<Rightarrow> gostring \<Rightarrow> kube_object \<Rightarrow> kube_object option" where
  "syncConfigMap desired hash existing =
     (case (ob_Body existing, ob_Body desired) of
        (ConfigMapBody data ann, ConfigMapBody data' ann') \<Rightarrow>
          if data routerProxyConfigKey = data' routerProxyConfigKey \<and> ann routerProxyConfigHashAnnotation = Some hash
          then None
          else Some (existing\<lparr>ob_Body := ConfigMapBody data' (ann(routerProxyConfigHashAnnotation \<mapsto> hash)),
                             ob_Labels := ob_Labels desired\<rparr>)
      | _ \<Rightarrow> None)"

definition reconcileRouterConfigMap :: "Api \<Rightarrow> ModelRouter \<Rightarrow> compiledConfig \<Rightarrow> objects \<Rightarrow> objects \<times> reconcile_error option" where
  "reconcileRouterConfigMap api mr compiled =
     (let desired = newRouterConfigMap mr compiled in
      upsert api mr ConfigMap (routerProxyResourceName (meta_Name mr)) desired (syncConfigMap desired (cc_Hash compiled)))"

definition syncDeployment :: "kube_object \<Rightarrow> kube_object \<Rightarrow> kube_object option" where
  "syncDeployment desired existing =
     (case (ob_Body existing, ob_Body desired) of
        (DeploymentBody d, DeploymentBody d') \<Rightarrow>
          Some (existing\<lparr>ob_Body := DeploymentBody (d'\<lparr>
              dp_Selector := dp_Selector d,
              dp_PodLabels := mergePreservingExternal (dp_PodLabels d) (dp_PodLabels d'),
              dp_PodAnnotations := mergePreservingExternal (dp_PodAnnotations d) (dp_PodAnnotations d'),
              dp_ReadyReplicas := dp_ReadyReplicas d\<rparr>),
            ob_Labels := mergePreservingExternal (ob_Labels existing) (ob_Labels desired)\<rparr>)
      | _ \<Rightarrow> None)"

definition reconcileRouterDeployment ::
    "Api \<Rightarrow> gostring \<Rightarrow> ModelRouter \<Rightarrow> gostring \<Rightarrow> bool \<Rightarrow> objects \<Rightarrow> objects \<times> reconcile_error option" where
  "reconcileRouterDeployment api img mr configHash hasPools =
     (let desired = newRouterDeployment img mr configHash hasPools in
      upsert api mr Deployment (routerProxyResourceName (meta_Name mr)) desired (syncDeployment desired))"

definition syncService :: "kube_object \<Rightarrow> kube_object \<Rightarrow> kube_object option" where
  "syncService desired existing =
     (case (ob_Body existing, ob_Body desired) of
        (ServiceBody s, ServiceBody s') \<Rightarrow>
          Some (existing\<lparr>ob_Body := ServiceBody (s\<lparr>
              svc_Type := svc_Type s',
              svc_Ports := mergeServicePorts (svc_Ports s) (svc_Ports s') (svc_Type s'),
              svc_ExternalTrafficPolicy := svc_ExternalTrafficPolicy s'\<rparr>),
            ob_Labels := ob_Labels desired\<rparr>)
      | _ \<Rightarrow> None)"

definition andThen ::
    "objects \<times> reconcile_error option \<Rightarrow> (objects \<Rightarrow> objects \<times> reconcile_error option)
     \<Rightarrow> objects \<times> reconcile_error option" where
  "andThen r f = (case r of (st, None) \<Rightarrow> f st | (st, Some e) \<Rightarrow> (st, Some e))"

definition reconcileServiceObject ::
    "Api \<Rightarrow> ModelRouter \<Rightarrow> gostring \<Rightarrow> kube_object \<Rightarrow> objects \<Rightarrow> objects \<times> reconcile_error option" where
  "reconcileServiceObject api mr name desired = upsert api mr Service name desired (syncService desired)"

definition reconcileRouterService :: "Api \<Rightarrow> ModelRouter \<Rightarrow> objects \<Rightarrow> objects \<times> reconcile_error option" where
  "reconcileRouterService api mr st =
     andThen (reconcileServiceObject api mr (routerProxyResourceName (meta_Name mr)) (newRouterService mr) st)
       (reconcileServiceObject api mr (routerProxyAdminResourceName (meta_Name mr)) (newRouterAdminService mr))"

definition upsertActivationObject :: "Api \<Rightarrow> ModelRouter \<Rightarrow> objects \<Rightarrow> objects \<times> reconcile_error option" where
  "upsertActivationObject api mr =
     upsert api mr ServiceAccount (routerProxyResourceName (meta_Name mr)) (blueprint mr ServiceAccountBody) (\<lambda>_. None)"

definition upsertActivationRole :: "Api \<Rightarrow> ModelRouter \<Rightarrow> PolicyRule list \<Rightarrow> objects \<Rightarrow> objects \<times> reconcile_error option" where
  "upsertActivationRole api mr rules =
     upsert api mr Role (routerProxyResourceName (meta_Name mr)) (blueprint mr (RoleBody rules))
       (\<lambda>existing. Some (existing\<lparr>ob_Body := RoleBody rules\<rparr>))"

definition upsertActivationBinding :: "Api \<Rightarrow> ModelRouter \<Rightarrow> objects \<Rightarrow> objects \<times> reconcile_error option" where
  "upsertActivationBinding api mr =
     (let name = routerProxyResourceName (meta_Name mr) in
      upsert api mr RoleBinding name (blueprint mr (RoleBindingBody name [name]))
        (\<lambda>existing. case ob_Body existing of
           RoleBindingBody role _ \<Rightarrow> Some (existing\<lparr>ob_Body := RoleBindingBody role [name]\<rparr>)
         | _ \<Rightarrow> None))"

definition reconcileRouterActivationRBAC :: "Api \<Rightarrow> ModelRouter \<Rightarrow> bool \<Rightarrow> objects \<Rightarrow> objects \<times> reconcile_error option" where
  "reconcileRouterActivationRBAC api mr hasPools st =
     (let watch = routerNeedsEndpointWatch mr in
      if \<not> hasPools \<and> \<not> watch then (st, None)
      else andThen (andThen (upsertActivationObject api mr st)
             (upsertActivationRole api mr (activationRules hasPools watch)))
           (upsertActivationBinding api mr))"

definition deleteIfControlled :: "Api \<Rightarrow> ModelRouter \<Rightarrow> obj_key \<Rightarrow> objects \<Rightarrow> objects \<times> reconcile_error option" where
  "deleteIfControlled api mr key st =
     (if \<not> api_getOK api (fst key) (snd key) then (st, Some (GetFailed (fst key)))
      else (case st key of
          None \<Rightarrow> (st, None)
        | Some obj \<Rightarrow>
            if \<not> IsControlledBy obj mr then (st, None)
            else if api_writeOK api (fst key) (snd key) then (st(key := None), None)
            else (st, Some (WriteFailed (fst key)))))"

definition routerProxyObjects :: "ModelRouter \<Rightarrow> obj_key list" where
  "routerProxyObjects mr =
     (let name = routerProxyResourceName (meta_Name mr) in
      [(ConfigMap, name), (Deployment, name), (Service, name),
       (Service, routerProxyAdminResourceName (meta_Name mr)), (ServiceAccount, name), (Role, name), (RoleBinding, name)])"

definition removeRouterProxyObjects :: "Api \<Rightarrow> ModelRouter \<Rightarrow> objects \<Rightarrow> objects \<times> reconcile_error option" where
  "removeRouterProxyObjects api mr st =
     foldl (\<lambda>r key. andThen r (deleteIfControlled api mr key)) (st, None) (routerProxyObjects mr)"

section \<open>Status\<close>

record BudgetStatus =
  bst_Name :: gostring
  bst_TokensUsed :: int
  bst_USDUsed :: gostring
  bst_Utilization :: gostring

record RouterStatus =
  rst_Phase :: gostring
  rst_Conditions :: "gostring \<rightharpoonup> bool \<times> gostring"
  rst_ActiveRules :: int
  rst_Backends :: "BackendStatus list"
  rst_Endpoint :: gostring
  rst_BudgetUtilization :: "BudgetStatus list"

definition routerHasBudgets :: "ModelRouter \<Rightarrow> bool" where
  "routerHasBudgets mr \<longleftrightarrow> (case spec_Policy (mr_Spec mr) of None \<Rightarrow> False | Some p \<Rightarrow> rp_Budgets p \<noteq> [])"

definition budgetUtilization :: "int \<Rightarrow> float64 \<Rightarrow> int \<Rightarrow> float64 \<Rightarrow> float64" where
  "budgetUtilization tokens usd maxTokens maxUSD =
     (let util = (if maxTokens > 0 then of_int tokens / of_int maxTokens else 0) in
      if maxUSD > 0 \<and> usd / maxUSD > util then usd / maxUSD else util)"

definition addUsage :: "(gostring \<times> budgetUsageWire) list \<Rightarrow> budgetUsageWire \<Rightarrow> (gostring \<times> budgetUsageWire) list" where
  "addUsage byName u =
     (let agg = (case alist_get byName (bu_Name u) of
                   None \<Rightarrow> \<lparr>bu_Name = bu_Name u, bu_UsedTokens = 0, bu_UsedUSD = 0, bu_MaxTokens = 0, bu_MaxUSD = 0\<rparr>
                 | Some a \<Rightarrow> a) in
      alist_set (bu_Name u)
        (agg\<lparr>bu_UsedTokens := wrap64 (bu_UsedTokens agg + bu_UsedTokens u), bu_UsedUSD := bu_UsedUSD agg + bu_UsedUSD u,
             bu_MaxTokens := wrap64 (bu_MaxTokens agg + bu_MaxTokens u), bu_MaxUSD := bu_MaxUSD agg + bu_MaxUSD u\<rparr>) byName)"

definition budgetStatusFromUsage :: "(float64 \<Rightarrow> gostring) \<Rightarrow> budgetUsageWire list \<Rightarrow> BudgetStatus list" where
  "budgetStatusFromUsage format usage =
     (let byName = foldl addUsage [] usage in
      map (\<lambda>name. let agg = the (alist_get byName name) in
        \<lparr>bst_Name = name, bst_TokensUsed = bu_UsedTokens agg, bst_USDUsed = format (bu_UsedUSD agg),
         bst_Utilization = format (budgetUtilization (bu_UsedTokens agg) (bu_UsedUSD agg) (bu_MaxTokens agg) (bu_MaxUSD agg))\<rparr>)
        (sort (map fst byName)))"

definition summarizeBackends :: "BackendStatus list \<Rightarrow> bool" where
  "summarizeBackends backends \<longleftrightarrow>
     backends \<noteq> [] \<and> length (filter st_Healthy backends) = length backends"

definition conditionPick :: "bool \<Rightarrow> gostring \<Rightarrow> gostring \<Rightarrow> gostring" where
  "conditionPick ok whenTrue whenFalse = (if ok then whenTrue else whenFalse)"

definition backendsReadyCondition :: "compiledConfig \<Rightarrow> bool \<times> gostring" where
  "backendsReadyCondition compiled =
     (if cc_KeyedBackends compiled \<noteq> [] \<or> cc_KeyedPoolBackends compiled \<noteq> []
      then (False, ''BackendAPIKeyUnsupported'')
      else (let ready = summarizeBackends (cc_Backends compiled) in
            (ready, conditionPick ready ''BackendsResolved'' ''BackendsUnresolved'')))"

definition safeInt32 :: "int \<Rightarrow> int" where
  "safeInt32 n = (if n > 2 ^ 31 - 1 then 2 ^ 31 - 1 else wrap32 n)"

datatype reconcile_result = Settled | RequeueAfter duration | ReconcileFailed

definition routerProxyNameTakenRequeueAfter :: duration where "routerProxyNameTakenRequeueAfter = 2 * minute"

definition modelRouterBudgetPollInterval :: duration where "modelRouterBudgetPollInterval = 30 * second"

definition patchStatus :: "Api \<Rightarrow> RouterStatus \<Rightarrow> RouterStatus \<Rightarrow> RouterStatus \<times> bool" where
  "patchStatus api original desired = (if api_patchOK api then (desired, True) else (original, False))"

definition setCondition :: "gostring \<Rightarrow> bool \<Rightarrow> gostring \<Rightarrow> RouterStatus \<Rightarrow> RouterStatus" where
  "setCondition ctype ok reason s = s\<lparr>rst_Conditions := (rst_Conditions s)(ctype \<mapsto> (ok, reason))\<rparr>"

definition recordValidationFailure :: "Api \<Rightarrow> RouterStatus \<Rightarrow> RouterStatus \<times> reconcile_result" where
  "recordValidationFailure api s =
     (let (s', ok) = patchStatus api s
        ((setCondition ''Validated'' False ''SpecInvalid'' s)\<lparr>rst_Phase := ''Failed'', rst_ActiveRules := 0, rst_Backends := []\<rparr>) in
      (s', if ok then Settled else ReconcileFailed))"

definition recordCompileFailure :: "Api \<Rightarrow> RouterStatus \<Rightarrow> RouterStatus \<times> reconcile_result" where
  "recordCompileFailure api s =
     (let (s', ok) = patchStatus api s
        ((setCondition ''Available'' False ''CompileFailed'' (setCondition ''Validated'' True ''SpecValid'' s))\<lparr>rst_Phase := ''Failed''\<rparr>) in
      (s', if ok then Settled else ReconcileFailed))"

definition routerProxyNameTaken :: "reconcile_error \<Rightarrow> bool" where
  "routerProxyNameTaken err = (case err of NameTaken _ _ _ \<Rightarrow> True | _ \<Rightarrow> False)"

definition recordReconcileFailure ::
    "Api \<Rightarrow> compiledConfig \<Rightarrow> reconcile_error \<Rightarrow> RouterStatus \<Rightarrow> RouterStatus \<times> reconcile_result" where
  "recordReconcileFailure api compiled err s =
     (let reason = (if routerProxyNameTaken err then ''RouterProxyNameTaken'' else ''ReconcileFailed'');
          (s', ok) = patchStatus api s
            ((setCondition ''Available'' False reason (setCondition ''Validated'' True ''SpecValid'' s))
               \<lparr>rst_Backends := cc_Backends compiled, rst_Phase := ''Failed''\<rparr>) in
      (s', if \<not> ok then ReconcileFailed
           else if reason = ''RouterProxyNameTaken'' then RequeueAfter routerProxyNameTakenRequeueAfter else Settled))"

definition recordSuccess ::
    "Api \<Rightarrow> ModelRouter \<Rightarrow> compiledConfig \<Rightarrow> bool \<Rightarrow> RouterStatus \<Rightarrow> RouterStatus \<times> bool" where
  "recordSuccess api mr compiled deployReady s =
     (let d = s\<lparr>rst_Endpoint := routerProxyEndpoint mr,
               rst_ActiveRules := safeInt32 (int (length (spec_Rules (mr_Spec mr)))),
               rst_Backends := cc_Backends compiled\<rparr>;
          d = (if routerHasBudgets mr then
                 (case api_probe api (routerProxyBudgetEndpoint mr) of
                    None \<Rightarrow> setCondition ''BudgetReporting'' False ''BudgetUnreachable'' d
                  | Some usage \<Rightarrow>
                      setCondition ''BudgetReporting'' True ''BudgetReported''
                        (d\<lparr>rst_BudgetUtilization := budgetStatusFromUsage (api_format api) usage\<rparr>))
               else d);
          (ready, reason) = backendsReadyCondition compiled;
          d = setCondition ''Available'' deployReady (conditionPick deployReady ''DeploymentReady'' ''DeploymentNotReady'')
                (setCondition ''BackendsReady'' ready reason (setCondition ''Validated'' True ''SpecValid'' d)) in
      patchStatus api s
        (d\<lparr>rst_Phase := (if deployReady \<and> ready then ''Ready'' else if deployReady then ''Degraded'' else ''Provisioning'')\<rparr>))"

definition fetchDeploymentReadiness :: "Api \<Rightarrow> bool option" where
  "fetchDeploymentReadiness api =
     (case api_observed api of
        NotFound \<Rightarrow> Some False
      | LookupFailed _ \<Rightarrow> None
      | Found dep \<Rightarrow>
          (case ob_Body dep of
             DeploymentBody d \<Rightarrow> Some (dp_ReadyReplicas d \<ge> dp_Replicas d \<and> dp_Replicas d > 0)
           | _ \<Rightarrow> Some False))"

section \<open>Reconcile\<close>

record Outcome =
  oc_objects :: objects
  oc_status :: RouterStatus
  oc_result :: reconcile_result

definition provision :: "Api \<Rightarrow> gostring \<Rightarrow> ModelRouter \<Rightarrow> compiledConfig \<Rightarrow> objects \<Rightarrow> objects \<times> reconcile_error option" where
  "provision api img mr compiled st =
     andThen (andThen (andThen (reconcileRouterConfigMap api mr compiled st)
         (reconcileRouterActivationRBAC api mr (cc_HasPools compiled)))
         (reconcileRouterDeployment api img mr (cc_Hash compiled) (cc_HasPools compiled)))
       (reconcileRouterService api mr)"

definition Reconcile ::
    "Api \<Rightarrow> Kube \<Rightarrow> Compiler \<Rightarrow> gostring \<Rightarrow> ModelRouter lookup \<Rightarrow> objects \<Rightarrow> RouterStatus \<Rightarrow> Outcome" where
  "Reconcile api k co img got st s =
     (case got of
        NotFound \<Rightarrow> \<lparr>oc_objects = st, oc_status = s, oc_result = Settled\<rparr>
      | LookupFailed _ \<Rightarrow> \<lparr>oc_objects = st, oc_status = s, oc_result = ReconcileFailed\<rparr>
      | Found mr \<Rightarrow>
          if validateModelRouter (co_parseFloat co) mr \<noteq> [] then
            (let (s', r) = recordValidationFailure api s in \<lparr>oc_objects = st, oc_status = s', oc_result = r\<rparr>)
          else if spec_DataPlane (mr_Spec mr) \<noteq> ModelRouterDataPlaneProxy then
            (let (st', e) = removeRouterProxyObjects api mr st in
             \<lparr>oc_objects = st', oc_status = s, oc_result = (if e = None then Settled else ReconcileFailed)\<rparr>)
          else
            (case compileRouterConfig k co mr of
               Inl e \<Rightarrow> (let (s', r) = recordCompileFailure api s in \<lparr>oc_objects = st, oc_status = s', oc_result = r\<rparr>)
             | Inr (compiled, events) \<Rightarrow>
                 (case provision api img mr compiled st of
                    (st', Some e) \<Rightarrow>
                      (let (s', r) = recordReconcileFailure api compiled e s in
                       \<lparr>oc_objects = st', oc_status = s', oc_result = r\<rparr>)
                  | (st', None) \<Rightarrow>
                      (case fetchDeploymentReadiness api of
                         None \<Rightarrow>
                           (let (s', r) = recordReconcileFailure api compiled ReadinessFailed s in
                            \<lparr>oc_objects = st', oc_status = s', oc_result = r\<rparr>)
                       | Some deployReady \<Rightarrow>
                           (let (s', ok) = recordSuccess api mr compiled deployReady s in
                            \<lparr>oc_objects = st', oc_status = s',
                             oc_result = (if \<not> ok then ReconcileFailed
                               else if routerHasBudgets mr then RequeueAfter modelRouterBudgetPollInterval
                               else Settled)\<rparr>)))))"

section \<open>Only owned objects change\<close>

text \<open>What controller-runtime documents of \<open>SetControllerReference\<close>: it only sets the controller
  reference, and an object the router already controls keeps it.\<close>

definition set_ref_ok :: "Api \<Rightarrow> ModelRouter \<Rightarrow> bool" where
  "set_ref_ok api mr \<longleftrightarrow>
     (\<forall>obj obj'. api_setRef api mr obj = Some obj' \<longrightarrow>
        IsControlledBy obj' mr \<and> ob_Body obj' = ob_Body obj \<and> ob_Labels obj' = ob_Labels obj) \<and>
     (\<forall>obj. IsControlledBy obj mr \<longrightarrow> api_setRef api mr obj = Some obj)"

definition owned_change :: "ModelRouter \<Rightarrow> objects \<Rightarrow> objects \<Rightarrow> bool" where
  "owned_change mr st st' \<longleftrightarrow>
     (\<forall>key. st' key \<noteq> st key \<longrightarrow> key \<in> set (routerProxyObjects mr) \<and>
        (\<forall>obj. st key = Some obj \<longrightarrow> IsControlledBy obj mr) \<and> (\<forall>obj. st' key = Some obj \<longrightarrow> IsControlledBy obj mr))"

lemma owned_change_refl [simp]: "owned_change mr st st"
  by (simp add: owned_change_def)

lemma owned_change_trans: "owned_change mr st st' \<Longrightarrow> owned_change mr st' st'' \<Longrightarrow> owned_change mr st st''"
  unfolding owned_change_def by metis

lemma owned_change_foreign: "owned_change mr st st' \<Longrightarrow> st key = Some obj \<Longrightarrow> \<not> IsControlledBy obj mr \<Longrightarrow> st' key = Some obj"
  unfolding owned_change_def by metis

lemma upsert_owned:
  assumes "set_ref_ok api mr" and "(kind, name) \<in> set (routerProxyObjects mr)"
  shows "owned_change mr st (fst (upsert api mr kind name desired sync st))"
proof -
  have upd: "owned_change mr st (st((kind, name) \<mapsto> obj))"
    if "IsControlledBy obj mr" "\<forall>old. st (kind, name) = Some old \<longrightarrow> IsControlledBy old mr" for obj
    using that assms(2) by (auto simp: owned_change_def)
  have ref: "IsControlledBy obj' mr" if "api_setRef api mr obj = Some obj'" for obj obj'
    using assms(1) that by (auto simp: set_ref_ok_def)
  show ?thesis
    by (auto simp: upsert_def ensureRouterProxyOwned_def split: option.splits if_splits intro!: upd dest: ref)
qed

lemma andThen_owned:
  assumes "owned_change mr st (fst r)" and "\<And>st'. owned_change mr st' (fst (f st'))"
  shows "owned_change mr st (fst (andThen r f))"
  using assms by (cases r) (auto simp: andThen_def split: option.splits intro: owned_change_trans)

lemmas upsert_defs = reconcileRouterConfigMap_def reconcileRouterDeployment_def reconcileServiceObject_def
  upsertActivationObject_def upsertActivationRole_def upsertActivationBinding_def Let_def

lemma objects_listed [simp]:
  "(ConfigMap, routerProxyResourceName (meta_Name mr)) \<in> set (routerProxyObjects mr)"
  "(Deployment, routerProxyResourceName (meta_Name mr)) \<in> set (routerProxyObjects mr)"
  "(Service, routerProxyResourceName (meta_Name mr)) \<in> set (routerProxyObjects mr)"
  "(Service, routerProxyAdminResourceName (meta_Name mr)) \<in> set (routerProxyObjects mr)"
  "(ServiceAccount, routerProxyResourceName (meta_Name mr)) \<in> set (routerProxyObjects mr)"
  "(Role, routerProxyResourceName (meta_Name mr)) \<in> set (routerProxyObjects mr)"
  "(RoleBinding, routerProxyResourceName (meta_Name mr)) \<in> set (routerProxyObjects mr)"
  by (simp_all add: routerProxyObjects_def Let_def)

lemma RBAC_owned:
  assumes "set_ref_ok api mr"
  shows "owned_change mr st (fst (reconcileRouterActivationRBAC api mr pools st))"
  using assms
  by (auto simp: reconcileRouterActivationRBAC_def upsert_defs intro!: andThen_owned upsert_owned)

lemma provision_owned:
  assumes "set_ref_ok api mr"
  shows "owned_change mr st (fst (provision api img mr cc st))"
  unfolding provision_def reconcileRouterService_def
  using assms by (intro andThen_owned RBAC_owned) (auto simp: upsert_defs intro!: upsert_owned)

lemma deleteIfControlled_owned:
  assumes "key \<in> set (routerProxyObjects mr)"
  shows "owned_change mr st (fst (deleteIfControlled api mr key st))"
  using assms by (auto simp: deleteIfControlled_def owned_change_def split: option.splits)

lemma remove_owned: "owned_change mr st (fst (removeRouterProxyObjects api mr st))"
proof -
  have "owned_change mr st (fst r) \<Longrightarrow> set keys \<subseteq> set (routerProxyObjects mr) \<Longrightarrow>
      owned_change mr st (fst (foldl (\<lambda>r key. andThen r (deleteIfControlled api mr key)) r keys))" for r keys
  proof (induction keys arbitrary: r)
    case (Cons key keys)
    then have "owned_change mr st (fst (andThen r (deleteIfControlled api mr key)))"
      by (intro andThen_owned deleteIfControlled_owned) auto
    with Cons show ?case by simp
  qed simp
  from this [of "(st, None)" "routerProxyObjects mr"] show ?thesis
    by (simp add: removeRouterProxyObjects_def)
qed

lemma Reconcile_objects:
  "oc_objects (Reconcile api k co img (Found mr) st s) =
     (if validateModelRouter (co_parseFloat co) mr \<noteq> [] then st
      else if spec_DataPlane (mr_Spec mr) \<noteq> ModelRouterDataPlaneProxy then fst (removeRouterProxyObjects api mr st)
      else (case compileRouterConfig k co mr of Inl e \<Rightarrow> st | Inr (cc, ev) \<Rightarrow> fst (provision api img mr cc st)))"
  by (simp add: Reconcile_def Let_def split: prod.splits sum.splits option.splits)

section \<open>An example cluster\<close>

definition ex_api :: Api where
  "ex_api = \<lparr>api_getOK = (\<lambda>_ _. True), api_writeOK = (\<lambda>_ _. True),
     api_setRef = (\<lambda>mr obj.
       if IsControlledBy obj mr then Some obj
       else if ob_Controller obj \<noteq> None then None
       else Some (obj\<lparr>ob_Controller := Some \<lparr>cr_Kind = ''ModelRouter'', cr_Group = ''inference.llmkube.dev'', cr_UID = meta_UID mr\<rparr>\<rparr>)),
     api_observed = NotFound, api_patchOK = True, api_probe = (\<lambda>_. None), api_format = (\<lambda>_. '''')\<rparr>"

definition ex_foreign :: kube_object where
  "ex_foreign = \<lparr>ob_Controller = None, ob_Labels = Map.empty, ob_Body = ServiceAccountBody\<rparr>"

definition ex_status :: RouterStatus where
  "ex_status = \<lparr>rst_Phase = '''', rst_Conditions = Map.empty, rst_ActiveRules = 0, rst_Backends = [], rst_Endpoint = '''',
     rst_BudgetUtilization = []\<rparr>"

definition ex_objects :: objects where
  "ex_objects = [(ServiceAccount, ''edge-router-proxy'') \<mapsto> ex_foreign]"

lemma ex_api_ref: "set_ref_ok ex_api mr"
  by (simp add: set_ref_ok_def ex_api_def IsControlledBy_def)


text \<open>C10. A reconcile writes and deletes only what its router controls. Whatever objects hold the generated
  names, every object that differs afterwards has one of the seven generated names, was absent or controlled
  by this router before, and is absent or controlled by it after; foreign objects are never adopted,
  overwritten or deleted, and a specification that fails validation or compilation changes nothing.\<close>
theorem reconcile_only_owned:
  assumes "set_ref_ok api mr"
  shows "owned_change mr st (oc_objects (Reconcile api k co img (Found mr) st s)) \<and>
    (validateModelRouter (co_parseFloat co) mr \<noteq> [] \<or>
     spec_DataPlane (mr_Spec mr) = ModelRouterDataPlaneProxy \<and> (\<exists>e. compileRouterConfig k co mr = Inl e) \<longrightarrow>
     oc_objects (Reconcile api k co img (Found mr) st s) = st)"
  unfolding Reconcile_objects
  using remove_owned [of mr st api] provision_owned [OF assms] by (auto split: sum.splits)

theorem reconcile_only_owned_witness:
  "set_ref_ok ex_api ex_mixed \<and> ex_objects (ServiceAccount, ''edge-router-proxy'') = Some ex_foreign \<and>
   \<not> IsControlledBy ex_foreign ex_mixed \<and>
   oc_objects (Reconcile ex_api (ex_kube [''llama'']) ex_compiler ''img'' (Found ex_mixed) ex_objects ex_status)
     (ServiceAccount, ''edge-router-proxy'') = Some ex_foreign"
  using reconcile_only_owned [OF ex_api_ref, of ex_mixed ex_objects "ex_kube [''llama'']" ex_compiler "''img''" ex_status] ex_api_ref
    owned_change_foreign [of ex_mixed ex_objects _ "(ServiceAccount, ''edge-router-proxy'')" ex_foreign]
  by (simp add: ex_objects_def ex_foreign_def IsControlledBy_def)

section \<open>Kinds and bodies agree\<close>

fun kind_of :: "obj_body \<Rightarrow> obj_kind" where
  "kind_of (ConfigMapBody _ _) = ConfigMap"
| "kind_of (DeploymentBody _) = Deployment"
| "kind_of (ServiceBody _) = Service"
| "kind_of ServiceAccountBody = ServiceAccount"
| "kind_of (RoleBody _) = Role"
| "kind_of (RoleBindingBody _ _) = RoleBinding"

definition well_kinded :: "objects \<Rightarrow> bool" where
  "well_kinded st \<longleftrightarrow> (\<forall>kind name obj. st (kind, name) = Some obj \<longrightarrow> kind_of (ob_Body obj) = kind)"


lemma well_kinded_update [simp]:
  "well_kinded st \<Longrightarrow> kind_of (ob_Body obj) = kind \<Longrightarrow> well_kinded (st((kind, name) \<mapsto> obj))"
  by (auto simp: well_kinded_def)


lemma blueprint_fields [simp]:
  "ob_Body (blueprint mr b) = b" "ob_Labels (blueprint mr b) = routerProxyLabels mr"
  by (simp_all add: blueprint_def)

lemma new_bodies [simp]:
  "kind_of (ob_Body (newRouterConfigMap mr cc)) = ConfigMap"
  "kind_of (ob_Body (newRouterDeployment img mr h pools)) = Deployment"
  "kind_of (ob_Body (newRouterService mr)) = Service"
  "kind_of (ob_Body (newRouterAdminService mr)) = Service"
  by (simp_all add: newRouterConfigMap_def newRouterDeployment_def newRouterService_def newRouterAdminService_def Let_def)

definition sync_kinded :: "obj_kind \<Rightarrow> (kube_object \<Rightarrow> kube_object option) \<Rightarrow> bool" where
  "sync_kinded kind sync \<longleftrightarrow>
     (\<forall>obj obj'. kind_of (ob_Body obj) = kind \<longrightarrow> sync obj = Some obj' \<longrightarrow> kind_of (ob_Body obj') = kind)"


lemma syncs_kinded [simp]:
  "sync_kinded ConfigMap (syncConfigMap desired h)" "sync_kinded Deployment (syncDeployment desired)"
  "sync_kinded Service (syncService desired)" "sync_kinded ServiceAccount (\<lambda>_. None)"
  "sync_kinded Role (\<lambda>obj. Some (obj\<lparr>ob_Body := RoleBody rules\<rparr>))"
  "sync_kinded RoleBinding (\<lambda>obj. case ob_Body obj of
     RoleBindingBody role _ \<Rightarrow> Some (obj\<lparr>ob_Body := RoleBindingBody role subjects\<rparr>) | _ \<Rightarrow> None)"
  by (auto simp: sync_kinded_def syncConfigMap_def syncDeployment_def syncService_def split: obj_body.splits if_splits)









section \<open>What a successful pass leaves\<close>

lemma andThen_None: "andThen r f = (st', None) \<longleftrightarrow> (\<exists>st1. r = (st1, None) \<and> f st1 = (st', None))"
  by (cases r) (auto simp: andThen_def split: option.splits)

lemma upsert_frame: "key \<noteq> (kind, name) \<Longrightarrow> fst (upsert api mr kind name desired sync st) key = st key"
  by (auto simp: upsert_def split: option.splits)

lemma upsert_only: "upsert api mr kind name desired sync st = (st1, e) \<Longrightarrow> key \<noteq> (kind, name) \<Longrightarrow> st1 key = st key"
  using upsert_frame [of key kind name api mr desired sync st] by simp

lemma upsert_done:
  assumes "set_ref_ok api mr" and "upsert api mr kind name desired sync st = (st', None)"
  obtains (Created) obj where "st' = st((kind, name) \<mapsto> obj)" "st (kind, name) = None"
      "ob_Body obj = ob_Body desired" "ob_Labels obj = ob_Labels desired" "IsControlledBy obj mr" "api_writeOK api kind name"
  | (Kept) obj where "st' = st" "st (kind, name) = Some obj" "sync obj = None" "IsControlledBy obj mr"
  | (Updated) old u obj where "st' = st((kind, name) \<mapsto> obj)" "st (kind, name) = Some old" "sync old = Some u"
      "ob_Body obj = ob_Body u" "ob_Labels obj = ob_Labels u" "IsControlledBy obj mr" "api_writeOK api kind name"
  using assms
  by (auto simp: upsert_def ensureRouterProxyOwned_def set_ref_ok_def split: option.splits if_splits)

lemma upsert_setRef:
  assumes "upsert api mr kind name desired sync st = (st', None)"
  shows "\<exists>d. api_setRef api mr desired = Some d" and "api_getOK api kind name"
  using assms by (auto simp: upsert_def split: option.splits if_splits)

definition sync_stable :: "kube_object \<Rightarrow> (kube_object \<Rightarrow> kube_object option) \<Rightarrow> bool" where
  "sync_stable desired sync \<longleftrightarrow>
     (\<forall>obj. ob_Body obj = ob_Body desired \<and> ob_Labels obj = ob_Labels desired \<longrightarrow> sync obj \<in> {None, Some obj}) \<and>
     (\<forall>old u obj. sync old = Some u \<and> ob_Body obj = ob_Body u \<and> ob_Labels obj = ob_Labels u \<longrightarrow> sync obj \<in> {None, Some obj})"

lemma upsert_again:
  assumes ref: "set_ref_ok api mr" and stable: "sync_stable desired sync"
    and up: "upsert api mr kind name desired sync st = (st1, None)" and same: "st2 (kind, name) = st1 (kind, name)"
  shows "upsert api mr kind name desired sync st2 = (st2, None)"
proof -
  obtain d where d: "api_setRef api mr desired = Some d" "api_getOK api kind name" using upsert_setRef [OF up] by blast
  have again: ?thesis if "st2 (kind, name) = Some obj" "IsControlledBy obj mr"
      "sync obj = None \<or> sync obj = Some obj \<and> api_writeOK api kind name" for obj
    using that d ref by (auto simp: upsert_def ensureRouterProxyOwned_def set_ref_ok_def fun_upd_idem)
  from ref up show ?thesis
  proof (cases rule: upsert_done)
    case (Created obj)
    then show ?thesis using stable same by (intro again [of obj]) (auto simp: sync_stable_def)
  next
    case (Kept obj)
    then show ?thesis using same by (intro again [of obj]) auto
  next
    case (Updated old u obj)
    then have "sync obj \<in> {None, Some obj}" using stable unfolding sync_stable_def by blast
    with Updated show ?thesis using same by (intro again [of obj]) auto
  qed
qed

lemma object_eqI: "ob_Controller a = ob_Controller b \<Longrightarrow> ob_Labels a = ob_Labels b \<Longrightarrow> ob_Body a = ob_Body b \<Longrightarrow> a = (b :: kube_object)"
  by simp

lemma merge_again [simp]: "mergePreservingExternal (mergePreservingExternal m n) n = mergePreservingExternal m n"
  "mergePreservingExternal n n = n"
  by (auto simp: mergePreservingExternal_def map_add_def fun_eq_iff split: option.splits)

lemma mergeServicePorts_again:
  assumes "merged = mergeServicePorts existing [p] t"
  shows "mergeServicePorts merged [p] t = merged" and "mergeServicePorts [p] [p] t = [p]"
proof -
  have "sp_Name (foldl (\<lambda>p e. if sp_Name e = sp_Name p then p\<lparr>sp_NodePort := sp_NodePort e\<rparr> else p) p es) = sp_Name p \<and>
      (\<exists>n. foldl (\<lambda>p e. if sp_Name e = sp_Name p then p\<lparr>sp_NodePort := sp_NodePort e\<rparr> else p) p es = p\<lparr>sp_NodePort := n\<rparr>)"
    for es p
  proof (induction es arbitrary: p)
    case Nil
    show ?case by (auto intro: exI [of _ "sp_NodePort p"])
  next
    case (Cons e es)
    from Cons [of "if sp_Name e = sp_Name p then p\<lparr>sp_NodePort := sp_NodePort e\<rparr> else p"] show ?case
      by (auto split: if_splits)
  qed
  then obtain n where "foldl (\<lambda>p e. if sp_Name e = sp_Name p then p\<lparr>sp_NodePort := sp_NodePort e\<rparr> else p) p existing = p\<lparr>sp_NodePort := n\<rparr>"
    by blast
  with assms show "mergeServicePorts merged [p] t = merged" by (auto simp: mergeServicePorts_def)
  show "mergeServicePorts [p] [p] t = [p]" by (auto simp: mergeServicePorts_def)
qed

lemma syncService_stable:
  assumes "ob_Body desired = ServiceBody s'" and "svc_Ports s' = [p]"
  shows "sync_stable desired (syncService desired)"
proof -
  have "syncService desired obj \<in> {None, Some obj}"
    if "ob_Body obj = ServiceBody (s\<lparr>svc_Type := svc_Type s', svc_Ports := mergeServicePorts ports [p] (svc_Type s'),
        svc_ExternalTrafficPolicy := svc_ExternalTrafficPolicy s'\<rparr>)" "ob_Labels obj = ob_Labels desired" for obj s ports
    using that assms mergeServicePorts_again(1) [OF refl, of ports p "svc_Type s'"]
    by (simp add: syncService_def)
  moreover have "syncService desired obj \<in> {None, Some obj}"
    if "ob_Body obj = ServiceBody s'" "ob_Labels obj = ob_Labels desired" for obj
    using that assms mergeServicePorts_again(2) [OF refl, where p = p and t = "svc_Type s'"]
    by (simp add: syncService_def)
  ultimately show ?thesis
    using assms by (auto simp: sync_stable_def syncService_def split: obj_body.splits)
qed

lemma syncConfigMap_stable: "ob_Body desired = ConfigMapBody d a \<Longrightarrow> a routerProxyConfigHashAnnotation = Some h \<Longrightarrow>
    sync_stable desired (syncConfigMap desired h)"
  by (auto simp: sync_stable_def syncConfigMap_def split: obj_body.splits if_splits)

lemma syncDeployment_stable:
  assumes "ob_Body desired = DeploymentBody d'" and "dp_ReadyReplicas d' = 0"
  shows "sync_stable desired (syncDeployment desired)"
proof -
  have "syncDeployment desired obj \<in> {None, Some obj}"
    if "ob_Body obj = DeploymentBody (d'\<lparr>dp_Selector := sel, dp_PodLabels := mergePreservingExternal l (dp_PodLabels d'),
        dp_PodAnnotations := mergePreservingExternal a (dp_PodAnnotations d'), dp_ReadyReplicas := n\<rparr>)"
      "ob_Labels obj = mergePreservingExternal ls (ob_Labels desired)" for obj sel l a n ls
    using that assms by (simp add: syncDeployment_def)
  moreover have "syncDeployment desired obj \<in> {None, Some obj}"
    if "ob_Body obj = DeploymentBody d'" "ob_Labels obj = ob_Labels desired" for obj
    using that assms by (simp add: syncDeployment_def)
  ultimately show ?thesis
    using assms by (auto simp: sync_stable_def syncDeployment_def split: obj_body.splits)
qed

lemma syncRBAC_stable:
  "sync_stable desired (\<lambda>_. None)"
  "sync_stable (blueprint mr (RoleBody rules)) (\<lambda>obj. Some (obj\<lparr>ob_Body := RoleBody rules\<rparr>))"
  "sync_stable (blueprint mr (RoleBindingBody name subjects)) (\<lambda>obj. case ob_Body obj of
     RoleBindingBody role _ \<Rightarrow> Some (obj\<lparr>ob_Body := RoleBindingBody role subjects\<rparr>) | _ \<Rightarrow> None)"
  by (auto simp: sync_stable_def split: obj_body.splits intro: object_eqI)

lemma provision_None:
  "provision api img mr cc st = (st', None) \<longleftrightarrow>
     (\<exists>s1 s2 s3. reconcileRouterConfigMap api mr cc st = (s1, None) \<and>
        reconcileRouterActivationRBAC api mr (cc_HasPools cc) s1 = (s2, None) \<and>
        reconcileRouterDeployment api img mr (cc_Hash cc) (cc_HasPools cc) s2 = (s3, None) \<and>
        reconcileRouterService api mr s3 = (st', None))"
  by (auto simp: provision_def andThen_None)

lemma andThen_frame: "fst r key = st key \<Longrightarrow> (\<And>st1. fst (f st1) key = st1 key) \<Longrightarrow> fst (andThen r f) key = st key"
  by (auto simp: andThen_def split: option.splits prod.splits)

lemma rbac_frame: "fst key \<notin> {ServiceAccount, Role, RoleBinding} \<Longrightarrow>
    fst (reconcileRouterActivationRBAC api mr hp st) key = st key"
  by (cases key) (auto simp: reconcileRouterActivationRBAC_def upsert_defs Let_def intro!: andThen_frame upsert_frame)

lemma service_frame: "fst key \<noteq> Service \<Longrightarrow> fst (reconcileRouterService api mr st) key = st key"
  by (cases key) (auto simp: reconcileRouterService_def upsert_defs intro!: andThen_frame upsert_frame)

lemma deployment_frame: "fst key \<noteq> Deployment \<Longrightarrow> fst (reconcileRouterDeployment api img mr h hp st) key = st key"
  by (cases key) (auto simp: upsert_defs Let_def intro!: upsert_frame)

lemma newRouter_bodies:
  "ob_Body (newRouterConfigMap mr cc) = ConfigMapBody [routerProxyConfigKey \<mapsto> cc_JSON cc] [routerProxyConfigHashAnnotation \<mapsto> cc_Hash cc]"
  "\<exists>d. ob_Body (newRouterDeployment img mr h hp) = DeploymentBody d \<and> dp_ReadyReplicas d = 0"
  "\<exists>s p. ob_Body (newRouterService mr) = ServiceBody s \<and> svc_Ports s = [p]"
  "\<exists>s p. ob_Body (newRouterAdminService mr) = ServiceBody s \<and> svc_Ports s = [p]"
  by (simp_all add: newRouterConfigMap_def newRouterDeployment_def newRouterService_def newRouterAdminService_def
      blueprint_def Let_def)

lemma configmap_again: "set_ref_ok api mr \<Longrightarrow> reconcileRouterConfigMap api mr cc st = (s1, None) \<Longrightarrow>
    s2 (ConfigMap, routerProxyResourceName (meta_Name mr)) = s1 (ConfigMap, routerProxyResourceName (meta_Name mr)) \<Longrightarrow>
    reconcileRouterConfigMap api mr cc s2 = (s2, None)"
  unfolding reconcileRouterConfigMap_def Let_def
  by (rule upsert_again [OF _ syncConfigMap_stable [OF newRouter_bodies(1)]]) auto

lemma deployment_again: "set_ref_ok api mr \<Longrightarrow> reconcileRouterDeployment api img mr h hp st = (s1, None) \<Longrightarrow>
    s2 (Deployment, routerProxyResourceName (meta_Name mr)) = s1 (Deployment, routerProxyResourceName (meta_Name mr)) \<Longrightarrow>
    reconcileRouterDeployment api img mr h hp s2 = (s2, None)"
  using newRouter_bodies(2) [of img mr h hp] unfolding reconcileRouterDeployment_def Let_def
  by (auto intro: upsert_again [OF _ syncDeployment_stable])

lemma service_again:
  assumes ref: "set_ref_ok api mr" and run: "reconcileRouterService api mr st = (s1, None)"
    and same: "\<And>name. s2 (Service, name) = s1 (Service, name)"
  shows "reconcileRouterService api mr s2 = (s2, None)"
proof -
  let ?main = "routerProxyResourceName (meta_Name mr)" and ?admin = "routerProxyAdminResourceName (meta_Name mr)"
  from run obtain s where main: "reconcileServiceObject api mr ?main (newRouterService mr) st = (s, None)"
    and admin: "reconcileServiceObject api mr ?admin (newRouterAdminService mr) s = (s1, None)"
    by (auto simp: reconcileRouterService_def andThen_None)
  have "?main \<noteq> ?admin" by (simp add: routerProxyResourceName_def routerProxyAdminResourceName_def)
  then have "s1 (Service, ?main) = s (Service, ?main)"
    using upsert_only [OF admin [unfolded reconcileServiceObject_def], of "(Service, ?main)"] by simp
  moreover obtain m mp a ap where bodies: "ob_Body (newRouterService mr) = ServiceBody m" "svc_Ports m = [mp]"
    "ob_Body (newRouterAdminService mr) = ServiceBody a" "svc_Ports a = [ap]"
    using newRouter_bodies(3,4) by metis
  ultimately have "reconcileServiceObject api mr ?main (newRouterService mr) s2 = (s2, None)"
    using main same upsert_again [OF ref syncService_stable [OF bodies(1,2)]] by (simp add: reconcileServiceObject_def)
  moreover have "reconcileServiceObject api mr ?admin (newRouterAdminService mr) s2 = (s2, None)"
    using admin same upsert_again [OF ref syncService_stable [OF bodies(3,4)]] by (simp add: reconcileServiceObject_def)
  ultimately show ?thesis by (auto simp: reconcileRouterService_def andThen_None)
qed

lemma rbac_again:
  assumes ref: "set_ref_ok api mr" and run: "reconcileRouterActivationRBAC api mr hp st = (s1, None)"
    and same: "\<And>kind name. kind \<in> {ServiceAccount, Role, RoleBinding} \<Longrightarrow> s2 (kind, name) = s1 (kind, name)"
  shows "reconcileRouterActivationRBAC api mr hp s2 = (s2, None)"
proof (cases "\<not> hp \<and> \<not> routerNeedsEndpointWatch mr")
  case False
  let ?name = "routerProxyResourceName (meta_Name mr)"
  from run False obtain a b where acct: "upsertActivationObject api mr st = (a, None)"
    and role: "upsertActivationRole api mr (activationRules hp (routerNeedsEndpointWatch mr)) a = (b, None)"
    and binding: "upsertActivationBinding api mr b = (s1, None)"
    by (auto simp: reconcileRouterActivationRBAC_def Let_def andThen_None)
  have s1: "s1 (Role, ?name) = b (Role, ?name)" "s1 (ServiceAccount, ?name) = b (ServiceAccount, ?name)"
    using upsert_only [OF binding [unfolded upsertActivationBinding_def Let_def]] by simp_all
  have b: "b (ServiceAccount, ?name) = a (ServiceAccount, ?name)"
    using upsert_only [OF role [unfolded upsertActivationRole_def], of "(ServiceAccount, ?name)"] by simp
  have "upsertActivationObject api mr s2 = (s2, None)"
    using acct same s1 b upsert_again [OF ref syncRBAC_stable(1)] by (simp add: upsertActivationObject_def)
  moreover have "upsertActivationRole api mr (activationRules hp (routerNeedsEndpointWatch mr)) s2 = (s2, None)"
    using role same s1 upsert_again [OF ref syncRBAC_stable(2)] by (simp add: upsertActivationRole_def)
  moreover have "upsertActivationBinding api mr s2 = (s2, None)"
    using binding same upsert_again [OF ref syncRBAC_stable(3)] by (simp add: upsertActivationBinding_def Let_def)
  ultimately show ?thesis using False by (auto simp: reconcileRouterActivationRBAC_def Let_def andThen_None)
qed (simp add: reconcileRouterActivationRBAC_def)

lemma provision_again:
  assumes ref: "set_ref_ok api mr" and run: "provision api img mr cc st = (st', None)"
  shows "provision api img mr cc st' = (st', None)"
proof -
  from run obtain s1 s2 s3 where cm: "reconcileRouterConfigMap api mr cc st = (s1, None)"
    and rbac: "reconcileRouterActivationRBAC api mr (cc_HasPools cc) s1 = (s2, None)"
    and dep: "reconcileRouterDeployment api img mr (cc_Hash cc) (cc_HasPools cc) s2 = (s3, None)"
    and svc: "reconcileRouterService api mr s3 = (st', None)"
    by (auto simp: provision_None)
  have f3: "fst key \<noteq> Service \<Longrightarrow> st' key = s3 key" for key using service_frame [of key api mr s3] svc by simp
  have f2: "fst key \<noteq> Deployment \<Longrightarrow> s3 key = s2 key" for key
    using deployment_frame [of key api img mr "cc_Hash cc" "cc_HasPools cc" s2] dep by simp
  have f1: "fst key \<notin> {ServiceAccount, Role, RoleBinding} \<Longrightarrow> s2 key = s1 key" for key
    using rbac_frame [of key api mr "cc_HasPools cc" s1] rbac by simp
  have "reconcileRouterConfigMap api mr cc st' = (st', None)"
    by (rule configmap_again [OF ref cm]) (simp add: f1 f2 f3)
  moreover have "reconcileRouterActivationRBAC api mr (cc_HasPools cc) st' = (st', None)"
    by (rule rbac_again [OF ref rbac]) (auto simp: f2 f3)
  moreover have "reconcileRouterDeployment api img mr (cc_Hash cc) (cc_HasPools cc) st' = (st', None)"
    by (rule deployment_again [OF ref dep]) (simp add: f3)
  moreover have "reconcileRouterService api mr st' = (st', None)"
    by (rule service_again [OF ref svc]) simp
  ultimately show ?thesis by (auto simp: provision_None)
qed










lemma Reconcile_provisioned:
  assumes "api_patchOK api" and "spec_DataPlane (mr_Spec mr) = ModelRouterDataPlaneProxy"
    and "rst_Phase (oc_status (Reconcile api k co img (Found mr) st s)) \<noteq> ''Failed''"
  obtains cc ev where "validateModelRouter (co_parseFloat co) mr = []" and "compileRouterConfig k co mr = Inr (cc, ev)"
    and "provision api img mr cc st = (oc_objects (Reconcile api k co img (Found mr) st s), None)"
  using assms
  by (auto simp: Reconcile_def recordValidationFailure_def recordCompileFailure_def recordReconcileFailure_def
      patchStatus_def Let_def split: if_splits sum.splits prod.splits option.splits)

lemma ex_api_simps [simp]:
  "api_getOK ex_api kind name" "api_writeOK ex_api kind name" "api_patchOK ex_api" "api_observed ex_api = NotFound"
  by (simp_all add: ex_api_def)

lemma ex_upsert: "ob_Controller desired = None \<Longrightarrow> st (kind, name) = None \<Longrightarrow>
    \<exists>obj. upsert ex_api mr kind name desired sync st = (st((kind, name) \<mapsto> obj), None)"
  by (simp add: upsert_def) (auto simp: ex_api_def IsControlledBy_def)

lemma ex_provisioned:
  assumes "\<not> cc_HasPools cc"
  shows "\<exists>st. provision ex_api img ex_mixed cc Map.empty = (st, None)"
proof -
  let ?name = "routerProxyResourceName (meta_Name ex_mixed)"
  have free: "ob_Controller (newRouterConfigMap ex_mixed cc) = None" "ob_Controller (newRouterDeployment img ex_mixed h hp) = None"
    "ob_Controller (newRouterService ex_mixed) = None" "ob_Controller (newRouterAdminService ex_mixed) = None" for h hp
    by (simp_all add: newRouterConfigMap_def newRouterDeployment_def newRouterService_def newRouterAdminService_def
        blueprint_def Let_def)
  obtain a where a: "reconcileRouterConfigMap ex_api ex_mixed cc Map.empty = ([(ConfigMap, ?name) \<mapsto> a], None)"
    using ex_upsert [OF free(1), of Map.empty ConfigMap ?name] unfolding reconcileRouterConfigMap_def Let_def by blast
  have rbac: "reconcileRouterActivationRBAC ex_api ex_mixed (cc_HasPools cc) st = (st, None)" for st
    using assms by (simp add: reconcileRouterActivationRBAC_def routerNeedsEndpointWatch_def ex_defs RouterBackendResolutionEndpoint_def)
  obtain b where b: "reconcileRouterDeployment ex_api img ex_mixed (cc_Hash cc) (cc_HasPools cc) [(ConfigMap, ?name) \<mapsto> a] =
      ([(ConfigMap, ?name) \<mapsto> a, (Deployment, ?name) \<mapsto> b], None)"
    using ex_upsert [OF free(2), of "[(ConfigMap, ?name) \<mapsto> a]" Deployment ?name]
    unfolding reconcileRouterDeployment_def Let_def by fastforce
  obtain c where c: "reconcileServiceObject ex_api ex_mixed ?name (newRouterService ex_mixed) [(ConfigMap, ?name) \<mapsto> a, (Deployment, ?name) \<mapsto> b] =
      ([(ConfigMap, ?name) \<mapsto> a, (Deployment, ?name) \<mapsto> b, (Service, ?name) \<mapsto> c], None)"
    using ex_upsert [OF free(3), of "[(ConfigMap, ?name) \<mapsto> a, (Deployment, ?name) \<mapsto> b]" Service ?name]
    unfolding reconcileServiceObject_def by fastforce
  have "\<exists>d. reconcileServiceObject ex_api ex_mixed (routerProxyAdminResourceName (meta_Name ex_mixed)) (newRouterAdminService ex_mixed)
      [(ConfigMap, ?name) \<mapsto> a, (Deployment, ?name) \<mapsto> b, (Service, ?name) \<mapsto> c] =
      (([(ConfigMap, ?name) \<mapsto> a, (Deployment, ?name) \<mapsto> b, (Service, ?name) \<mapsto> c])
        ((Service, routerProxyAdminResourceName (meta_Name ex_mixed)) \<mapsto> d), None)"
    unfolding reconcileServiceObject_def
    by (rule ex_upsert [OF free(4)]) (simp add: routerProxyAdminResourceName_def)
  then show ?thesis using a rbac b c by (auto simp: provision_None reconcileRouterService_def andThen_None)
qed

lemma ex_phase:
  "rst_Phase (oc_status (Reconcile ex_api (ex_kube [''llama'']) ex_compiler ''img'' (Found ex_mixed) Map.empty s)) = ''Provisioning''"
proof -
  obtain cc ev where cc: "compileRouterConfig (ex_kube [''llama'']) ex_compiler ex_mixed = Inr (cc, ev)" "\<not> cc_HasPools cc"
    using ex_compiled by blast
  obtain st where st: "provision ex_api ''img'' ex_mixed cc Map.empty = (st, None)" using ex_provisioned [OF cc(2)] by blast
  have "spec_DataPlane (mr_Spec ex_mixed) = ModelRouterDataPlaneProxy" by (simp add: ex_mixed_def ex_router_def)
  then show ?thesis
    by (simp add: Reconcile_def ex_mixed_accepted cc st fetchDeploymentReadiness_def recordSuccess_def patchStatus_def
        Let_def setCondition_def split: prod.splits)
qed



text \<open>C16. A pass is idempotent: reconciling again what a pass in any phase but Failed left, whatever status
  is recorded then, changes no object.\<close>
theorem reconcile_idempotent:
  assumes "set_ref_ok api mr" and "api_patchOK api" and "spec_DataPlane (mr_Spec mr) = ModelRouterDataPlaneProxy"
    and "rst_Phase (oc_status (Reconcile api k co img (Found mr) st s)) \<noteq> ''Failed''"
  shows "oc_objects (Reconcile api k co img (Found mr) (oc_objects (Reconcile api k co img (Found mr) st s)) s') =
    oc_objects (Reconcile api k co img (Found mr) st s)"
proof -
  from assms(2,3,4) obtain cc ev where ok: "validateModelRouter (co_parseFloat co) mr = []"
    and cc: "compileRouterConfig k co mr = Inr (cc, ev)"
    and run: "provision api img mr cc st = (oc_objects (Reconcile api k co img (Found mr) st s), None)"
    by (rule Reconcile_provisioned)
  show ?thesis
    using provision_again [OF assms(1) run] ok cc assms(3)
    by (subst Reconcile_objects) simp
qed

theorem reconcile_idempotent_witness:
  "(let pass = (\<lambda>st. oc_objects (Reconcile ex_api (ex_kube [''llama'']) ex_compiler ''img'' (Found ex_mixed) st ex_status)) in
    pass (pass Map.empty) = pass Map.empty)"
  unfolding Let_def
  by (rule reconcile_idempotent [OF ex_api_ref])
    (simp_all add: ex_phase, simp_all add: ex_api_def ex_mixed_def ex_router_def)

text \<open>C39. A router with a port of its own is not reachable on it: the Service sends the traffic to that port
  of the pods, while the container always declares 8080 and 9090 and is told to listen on 8080. The Service
  finds a declared port only when the chosen one happens to be one of these two.\<close>
theorem custom_port_not_served:
  assumes "spec_Endpoint (mr_Spec mr) = Some e" and "0 < ep_Port e"
  shows "\<exists>svc p d. ob_Body (newRouterService mr) = ServiceBody svc \<and> svc_Ports svc = [p] \<and> sp_Port p = ep_Port e \<and>
    ob_Body (newRouterDeployment img mr h hasPools) = DeploymentBody d \<and>
    (sp_TargetPort p \<in> snd ` set (dp_ContainerPorts d) \<longleftrightarrow> ep_Port e = 8080 \<or> ep_Port e = 9090) \<and>
    (''--listen'', Text ('':'' @ itoaInt 8080)) \<in> set (dp_Args d)"
  using assms
  by (simp add: newRouterService_def newRouterDeployment_def blueprint_def Let_def routerProxyArgs_def routerProxyPort_def
      routerProxyMetricsPort_def)

definition ex_port_router :: ModelRouter where
  "ex_port_router = ex_mixed\<lparr>mr_Spec := (mr_Spec ex_mixed)\<lparr>spec_Endpoint :=
     Some \<lparr>ep_Port = 80, ep_Path = '''', ep_Type = '''', ep_NodePort = None, ep_ExternalTrafficPolicy = ''''\<rparr>\<rparr>\<rparr>"

theorem custom_port_not_served_witness:
  "\<exists>svc p d. ob_Body (newRouterService ex_port_router) = ServiceBody svc \<and> svc_Ports svc = [p] \<and> sp_Port p = 80 \<and>
    ob_Body (newRouterDeployment ''img'' ex_port_router ''h'' False) = DeploymentBody d \<and>
    sp_TargetPort p \<notin> snd ` set (dp_ContainerPorts d)"
  using custom_port_not_served [of ex_port_router "\<lparr>ep_Port = 80, ep_Path = '''', ep_Type = '''', ep_NodePort = None, ep_ExternalTrafficPolicy = ''''\<rparr>"
      "''img''" "''h''" False]
  by (auto simp: ex_port_router_def)

end
