(* ===== verification/Gguf_Parser.thy ===== *)
theory Gguf_Parser
  imports Go_Prelude
begin

text \<open>
  The GGUF metadata parser (\<open>pkg/gguf/parser.go\<close>). The code reads from any \<open>io.Reader\<close>, so every
  function takes the reader as an argument: \<open>rd n s\<close> is \<open>io.ReadFull\<close> of \<open>n\<close> bytes in the reader state \<open>s\<close>.
  \<open>readBytes\<close> is the reader over bytes in memory, whose state is what is left of them. The recursion of
  \<open>readValueData\<close> on nested arrays has no bound in the code and carries fuel here, one unit per level;
  a file of \<open>n\<close> bytes never needs more than \<open>n\<close>. Floats are kept as their bit patterns.

  The lemmas relate the parser to a grammar of the format, show that it ends on every input, and carry it
  from the reader in memory to every reader that delivers the same bytes (the locale \<open>byte_source\<close>).
\<close>

section \<open>Readers\<close>

datatype gguf_error =
    ReadEOF
  | UnexpectedEOF
  | ReadFailed gostring
  | InvalidMagic nat
  | UnsupportedVersion nat
  | UnknownValueType nat
  | SizeLimitExceeded nat nat
  | OutOfFuel

type_synonym ('s, 'a) parser = "'s \<Rightarrow> gguf_error + 'a \<times> 's"
type_synonym 's reader = "nat \<Rightarrow> ('s, gostring) parser"

definition returnP :: "'a \<Rightarrow> ('s, 'a) parser" where
  "returnP x s = Inr (x, s)"

definition failP :: "gguf_error \<Rightarrow> ('s, 'a) parser" where
  "failP e s = Inl e"

definition bindP :: "('s, 'a) parser \<Rightarrow> ('a \<Rightarrow> ('s, 'b) parser) \<Rightarrow> ('s, 'b) parser" where
  "bindP m f s = (case m s of Inl e \<Rightarrow> Inl e | Inr (x, s') \<Rightarrow> f x s')"

primrec repeatP :: "nat \<Rightarrow> ('s, 'a) parser \<Rightarrow> ('s, 'a list) parser" where
  "repeatP 0 p = returnP []"
| "repeatP (Suc n) p = bindP p (\<lambda>x. bindP (repeatP n p) (\<lambda>xs. returnP (x # xs)))"

definition readBytes :: "gostring reader" where
  "readBytes n bs =
     (if n \<le> length bs then Inr (take n bs, drop n bs)
      else if bs = [] then Inl ReadEOF else Inl UnexpectedEOF)"

definition leNat :: "gostring \<Rightarrow> nat" where
  "leNat bs = foldr (\<lambda>c n. of_char c + 256 * n) bs 0"

definition readLE :: "'s reader \<Rightarrow> nat \<Rightarrow> ('s, nat) parser" where
  "readLE rd n = bindP (rd n) (\<lambda>b. returnP (leNat b))"

section \<open>Limits and values\<close>

definition ggufMagic :: nat where "ggufMagic = 0x46554747"

definition maxStringLength :: nat where "maxStringLength = 10 * 1024 * 1024"

definition maxArrayCount :: nat where "maxArrayCount = 10000000"

definition maxDimensions :: nat where "maxDimensions = 16"

definition valueTypeUint8 :: nat where "valueTypeUint8 = 0"

definition valueTypeInt8 :: nat where "valueTypeInt8 = 1"

definition valueTypeUint16 :: nat where "valueTypeUint16 = 2"

definition valueTypeInt16 :: nat where "valueTypeInt16 = 3"

definition valueTypeUint32 :: nat where "valueTypeUint32 = 4"

definition valueTypeInt32 :: nat where "valueTypeInt32 = 5"

definition valueTypeFloat32 :: nat where "valueTypeFloat32 = 6"

definition valueTypeBool :: nat where "valueTypeBool = 7"

definition valueTypeString :: nat where "valueTypeString = 8"

definition valueTypeArray :: nat where "valueTypeArray = 9"

definition valueTypeUint64 :: nat where "valueTypeUint64 = 10"

definition valueTypeInt64 :: nat where "valueTypeInt64 = 11"

definition valueTypeFloat64 :: nat where "valueTypeFloat64 = 12"

lemmas valueType_defs = valueTypeUint8_def valueTypeInt8_def valueTypeUint16_def valueTypeInt16_def valueTypeUint32_def
  valueTypeInt32_def valueTypeFloat32_def valueTypeBool_def valueTypeString_def valueTypeArray_def valueTypeUint64_def
  valueTypeInt64_def valueTypeFloat64_def

datatype GGUFValue =
    Uint8Val "8 word"
  | Int8Val "8 word"
  | Uint16Val "16 word"
  | Int16Val "16 word"
  | Uint32Val "32 word"
  | Int32Val "32 word"
  | Float32Val "32 word"
  | BoolVal bool
  | StringVal gostring
  | ArrayVal "GGUFValue list"
  | Uint64Val "64 word"
  | Int64Val "64 word"
  | Float64Val "64 word"

definition AsStr :: "GGUFValue \<Rightarrow> gostring option" where
  "AsStr v = (case v of StringVal s \<Rightarrow> Some s | _ \<Rightarrow> None)"

definition AsU64 :: "GGUFValue \<Rightarrow> 64 word option" where
  "AsU64 v = (case v of Uint64Val x \<Rightarrow> Some x | Uint32Val x \<Rightarrow> Some (ucast x) | Uint16Val x \<Rightarrow> Some (ucast x)
     | Uint8Val x \<Rightarrow> Some (ucast x) | _ \<Rightarrow> None)"

definition AsU32 :: "GGUFValue \<Rightarrow> 32 word option" where
  "AsU32 v = (case v of Uint32Val x \<Rightarrow> Some x | _ \<Rightarrow> None)"

definition AsBool :: "GGUFValue \<Rightarrow> bool option" where
  "AsBool v = (case v of BoolVal b \<Rightarrow> Some b | _ \<Rightarrow> None)"

definition AsArray :: "GGUFValue \<Rightarrow> GGUFValue list option" where
  "AsArray v = (case v of ArrayVal vs \<Rightarrow> Some vs | _ \<Rightarrow> None)"

section \<open>Parsing\<close>

record GGUFHeader =
  gh_Version :: nat
  gh_TensorCount :: nat
  gh_MetadataKVCount :: nat

record MetadataKV =
  kv_Key :: gostring
  kv_Value :: GGUFValue

record TensorInfo =
  ti_Name :: gostring
  ti_Dimensions :: "nat list"
  ti_Type :: nat
  ti_Offset :: nat

record GGUFFile =
  gf_Header :: GGUFHeader
  gf_Metadata :: "MetadataKV list"
  gf_TensorInfo :: "TensorInfo list"

definition parseHeader :: "'s reader \<Rightarrow> ('s, GGUFHeader) parser" where
  "parseHeader rd =
     bindP (readLE rd 4) (\<lambda>magic.
       if magic \<noteq> ggufMagic then failP (InvalidMagic magic)
       else bindP (readLE rd 4) (\<lambda>version.
         if version < 2 \<or> version > 3 then failP (UnsupportedVersion version)
         else bindP (readLE rd 8) (\<lambda>tensorCount.
           bindP (readLE rd 8) (\<lambda>metadataKVCount.
             returnP \<lparr>gh_Version = version, gh_TensorCount = tensorCount, gh_MetadataKVCount = metadataKVCount\<rparr>))))"

definition readString :: "'s reader \<Rightarrow> ('s, gostring) parser" where
  "readString rd =
     bindP (readLE rd 8) (\<lambda>n.
       if n > maxStringLength then failP (SizeLimitExceeded n maxStringLength) else rd n)"

primrec readValueData :: "nat \<Rightarrow> 's reader \<Rightarrow> nat \<Rightarrow> ('s, GGUFValue) parser" where
  "readValueData 0 rd t = failP OutOfFuel"
| "readValueData (Suc fuel) rd t =
     (if t = valueTypeUint8 then bindP (readLE rd 1) (\<lambda>v. returnP (Uint8Val (word_of_nat v)))
      else if t = valueTypeInt8 then bindP (readLE rd 1) (\<lambda>v. returnP (Int8Val (word_of_nat v)))
      else if t = valueTypeUint16 then bindP (readLE rd 2) (\<lambda>v. returnP (Uint16Val (word_of_nat v)))
      else if t = valueTypeInt16 then bindP (readLE rd 2) (\<lambda>v. returnP (Int16Val (word_of_nat v)))
      else if t = valueTypeUint32 then bindP (readLE rd 4) (\<lambda>v. returnP (Uint32Val (word_of_nat v)))
      else if t = valueTypeInt32 then bindP (readLE rd 4) (\<lambda>v. returnP (Int32Val (word_of_nat v)))
      else if t = valueTypeFloat32 then bindP (readLE rd 4) (\<lambda>v. returnP (Float32Val (word_of_nat v)))
      else if t = valueTypeBool then bindP (readLE rd 1) (\<lambda>v. returnP (BoolVal (v \<noteq> 0)))
      else if t = valueTypeString then bindP (readString rd) (\<lambda>s. returnP (StringVal s))
      else if t = valueTypeArray then
        bindP (readLE rd 4) (\<lambda>elemType.
          bindP (readLE rd 8) (\<lambda>count.
            if count > maxArrayCount then failP (SizeLimitExceeded count maxArrayCount)
            else bindP (repeatP count (readValueData fuel rd elemType)) (\<lambda>values. returnP (ArrayVal values))))
      else if t = valueTypeUint64 then bindP (readLE rd 8) (\<lambda>v. returnP (Uint64Val (word_of_nat v)))
      else if t = valueTypeInt64 then bindP (readLE rd 8) (\<lambda>v. returnP (Int64Val (word_of_nat v)))
      else if t = valueTypeFloat64 then bindP (readLE rd 8) (\<lambda>v. returnP (Float64Val (word_of_nat v)))
      else failP (UnknownValueType t))"

definition readValue :: "nat \<Rightarrow> 's reader \<Rightarrow> ('s, GGUFValue) parser" where
  "readValue fuel rd = bindP (readLE rd 4) (readValueData fuel rd)"

definition parseMetadataKV :: "nat \<Rightarrow> 's reader \<Rightarrow> ('s, MetadataKV) parser" where
  "parseMetadataKV fuel rd =
     bindP (readString rd) (\<lambda>key. bindP (readValue fuel rd) (\<lambda>v. returnP \<lparr>kv_Key = key, kv_Value = v\<rparr>))"

definition parseTensorInfo :: "'s reader \<Rightarrow> ('s, TensorInfo) parser" where
  "parseTensorInfo rd =
     bindP (readString rd) (\<lambda>name.
       bindP (readLE rd 4) (\<lambda>nDimensions.
         if nDimensions > maxDimensions then failP (SizeLimitExceeded nDimensions maxDimensions)
         else bindP (repeatP nDimensions (readLE rd 8)) (\<lambda>dimensions.
           bindP (readLE rd 4) (\<lambda>typeID.
             bindP (readLE rd 8) (\<lambda>offset.
               returnP \<lparr>ti_Name = name, ti_Dimensions = dimensions, ti_Type = typeID, ti_Offset = offset\<rparr>)))))"

definition Parse :: "nat \<Rightarrow> 's reader \<Rightarrow> ('s, GGUFFile) parser" where
  "Parse fuel rd =
     bindP (parseHeader rd) (\<lambda>header.
       bindP (repeatP (gh_MetadataKVCount header) (parseMetadataKV fuel rd)) (\<lambda>metadata.
         bindP (repeatP (gh_TensorCount header) (parseTensorInfo rd)) (\<lambda>tensorInfo.
           returnP \<lparr>gf_Header = header, gf_Metadata = metadata, gf_TensorInfo = tensorInfo\<rparr>)))"

section \<open>Accessors\<close>

definition GetMetadata :: "GGUFFile \<Rightarrow> gostring \<Rightarrow> GGUFValue option" where
  "GetMetadata f key = map_option kv_Value (List.find (\<lambda>kv. kv_Key kv = key) (gf_Metadata f))"

definition metadataStr :: "GGUFFile \<Rightarrow> gostring \<Rightarrow> gostring" where
  "metadataStr f key = (case GetMetadata f key of None \<Rightarrow> '''' | Some v \<Rightarrow> (case AsStr v of None \<Rightarrow> '''' | Some s \<Rightarrow> s))"

definition Architecture :: "GGUFFile \<Rightarrow> gostring" where
  "Architecture f = metadataStr f ''general.architecture''"

definition GGUF_Name :: "GGUFFile \<Rightarrow> gostring" where
  "GGUF_Name f = metadataStr f ''general.name''"

definition License :: "GGUFFile \<Rightarrow> gostring" where
  "License f = metadataStr f ''general.license''"

definition fileTypeNames :: "(nat \<times> gostring) list" where
  "fileTypeNames =
     [(0, ''F32''), (1, ''F16''), (2, ''Q4_0''), (3, ''Q4_1''), (7, ''Q8_0''), (8, ''Q5_0''), (9, ''Q5_1''),
      (10, ''Q2_K''), (11, ''Q3_K_S''), (12, ''Q3_K_M''), (13, ''Q3_K_L''), (14, ''Q4_K_S''), (15, ''Q4_K_M''),
      (16, ''Q5_K_S''), (17, ''Q5_K_M''), (18, ''Q6_K''), (19, ''IQ2_XXS''), (20, ''IQ2_XS''), (21, ''IQ3_XXS''),
      (22, ''IQ1_S''), (23, ''IQ4_NL''), (24, ''IQ3_S''), (25, ''IQ2_S''), (26, ''IQ4_XS''), (27, ''IQ3_M''),
      (28, ''IQ1_M''), (29, ''BF16''), (30, ''Q4_0_4_4''), (31, ''Q4_0_4_8''), (32, ''Q4_0_8_8'')]"

definition FileTypeName :: "nat \<Rightarrow> gostring" where
  "FileTypeName fileType = (case map_of fileTypeNames fileType of None \<Rightarrow> ''Unknown'' | Some name \<Rightarrow> name)"

definition Quantization :: "GGUFFile \<Rightarrow> gostring" where
  "Quantization f =
     (case GetMetadata f ''general.file_type'' of
        None \<Rightarrow> ''''
      | Some v \<Rightarrow> (case AsU32 v of None \<Rightarrow> '''' | Some ft \<Rightarrow> FileTypeName (unat ft)))"

definition archScalar :: "GGUFFile \<Rightarrow> gostring \<Rightarrow> 64 word" where
  "archScalar f suffix =
     (let arch = Architecture f in
      if arch = '''' then 0
      else (case GetMetadata f (arch @ suffix) of
          None \<Rightarrow> 0
        | Some v \<Rightarrow> (case AsU64 v of None \<Rightarrow> 0 | Some n \<Rightarrow> n)))"

definition ContextLength :: "GGUFFile \<Rightarrow> 64 word" where
  "ContextLength f = archScalar f ''.context_length''"

definition EmbeddingLength :: "GGUFFile \<Rightarrow> 64 word" where
  "EmbeddingLength f = archScalar f ''.embedding_length''"

definition BlockCount :: "GGUFFile \<Rightarrow> 64 word" where
  "BlockCount f = archScalar f ''.block_count''"

definition HeadCount :: "GGUFFile \<Rightarrow> 64 word" where
  "HeadCount f = archScalar f ''.attention.head_count''"

definition attentionScalar :: "GGUFFile \<Rightarrow> gostring \<Rightarrow> 64 word" where
  "attentionScalar f name = archScalar f (''.attention.'' @ name)"

definition HeadCountKV :: "GGUFFile \<Rightarrow> 64 word" where
  "HeadCountKV f = attentionScalar f ''head_count_kv''"

definition KeyLength :: "GGUFFile \<Rightarrow> 64 word" where
  "KeyLength f = attentionScalar f ''key_length''"

definition ValueLength :: "GGUFFile \<Rightarrow> 64 word" where
  "ValueLength f = attentionScalar f ''value_length''"

section \<open>The format\<close>

text \<open>The grammar of a GGUF file: which bytes are an encoding of a value, of a key-value pair, of a tensor
  description and of the whole prefix that \<open>Parse\<close> reads. A scalar type has a width and a constructor.\<close>

definition scalarOf :: "nat \<Rightarrow> (nat \<times> (nat \<Rightarrow> GGUFValue)) option" where
  "scalarOf t =
     map_of [(valueTypeUint8, (1, \<lambda>v. Uint8Val (word_of_nat v))), (valueTypeInt8, (1, \<lambda>v. Int8Val (word_of_nat v))),
       (valueTypeUint16, (2, \<lambda>v. Uint16Val (word_of_nat v))), (valueTypeInt16, (2, \<lambda>v. Int16Val (word_of_nat v))),
       (valueTypeUint32, (4, \<lambda>v. Uint32Val (word_of_nat v))), (valueTypeInt32, (4, \<lambda>v. Int32Val (word_of_nat v))),
       (valueTypeFloat32, (4, \<lambda>v. Float32Val (word_of_nat v))), (valueTypeBool, (1, \<lambda>v. BoolVal (v \<noteq> 0))),
       (valueTypeUint64, (8, \<lambda>v. Uint64Val (word_of_nat v))), (valueTypeInt64, (8, \<lambda>v. Int64Val (word_of_nat v))),
       (valueTypeFloat64, (8, \<lambda>v. Float64Val (word_of_nat v)))] t"

definition int_format :: "nat \<Rightarrow> nat \<Rightarrow> gostring \<Rightarrow> bool" where
  "int_format w n b \<longleftrightarrow> length b = w \<and> n = leNat b"

definition string_format :: "gostring \<Rightarrow> gostring \<Rightarrow> bool" where
  "string_format s b \<longleftrightarrow> (\<exists>lb. int_format 8 (length s) lb \<and> length s \<le> maxStringLength \<and> b = lb @ s)"

inductive value_format :: "nat \<Rightarrow> GGUFValue \<Rightarrow> gostring \<Rightarrow> bool" where
  Scalar: "scalarOf t = Some (w, mk) \<Longrightarrow> int_format w n b \<Longrightarrow> value_format t (mk n) b"
| Text: "string_format s b \<Longrightarrow> value_format valueTypeString (StringVal s) b"
| Array: "int_format 4 t eb \<Longrightarrow> int_format 8 (length vs) cb \<Longrightarrow> length vs \<le> maxArrayCount \<Longrightarrow>
    list_all2 (value_format t) vs bss \<Longrightarrow> value_format valueTypeArray (ArrayVal vs) (eb @ cb @ concat bss)"

definition kv_format :: "MetadataKV \<Rightarrow> gostring \<Rightarrow> bool" where
  "kv_format kv b \<longleftrightarrow> (\<exists>kb tb t vb. string_format (kv_Key kv) kb \<and> int_format 4 t tb \<and> value_format t (kv_Value kv) vb \<and>
     b = kb @ tb @ vb)"

definition tensor_format :: "TensorInfo \<Rightarrow> gostring \<Rightarrow> bool" where
  "tensor_format ti b \<longleftrightarrow> (\<exists>kb nb dbs tb ob. string_format (ti_Name ti) kb \<and> int_format 4 (length (ti_Dimensions ti)) nb \<and>
     length (ti_Dimensions ti) \<le> maxDimensions \<and> list_all2 (int_format 8) (ti_Dimensions ti) dbs \<and>
     int_format 4 (ti_Type ti) tb \<and> int_format 8 (ti_Offset ti) ob \<and> b = kb @ nb @ concat dbs @ tb @ ob)"

definition header_format :: "GGUFHeader \<Rightarrow> gostring \<Rightarrow> bool" where
  "header_format h b \<longleftrightarrow> (\<exists>mb vb tb kb. int_format 4 ggufMagic mb \<and> int_format 4 (gh_Version h) vb \<and> gh_Version h \<in> {2, 3} \<and>
     int_format 8 (gh_TensorCount h) tb \<and> int_format 8 (gh_MetadataKVCount h) kb \<and> b = mb @ vb @ tb @ kb)"

definition file_format :: "GGUFFile \<Rightarrow> gostring \<Rightarrow> bool" where
  "file_format f b \<longleftrightarrow> (\<exists>hb kbs tbs. header_format (gf_Header f) hb \<and>
     gh_MetadataKVCount (gf_Header f) = length (gf_Metadata f) \<and> list_all2 kv_format (gf_Metadata f) kbs \<and>
     gh_TensorCount (gf_Header f) = length (gf_TensorInfo f) \<and> list_all2 tensor_format (gf_TensorInfo f) tbs \<and>
     b = hb @ concat kbs @ concat tbs)"

section \<open>Parsers and formats\<close>

text \<open>A parser reads a format when, on inputs of at most \<open>N\<close> bytes, it succeeds exactly with the values whose
  encodings the input starts with, and leaves what follows.\<close>

definition reads :: "nat \<Rightarrow> (gostring, 'a) parser \<Rightarrow> ('a \<Rightarrow> gostring \<Rightarrow> bool) \<Rightarrow> bool" where
  "reads N p F \<longleftrightarrow> (\<forall>bs x rest. length bs \<le> N \<longrightarrow> p bs = Inr (x, rest) \<longleftrightarrow> (\<exists>b. bs = b @ rest \<and> F x b))"

lemma readsD: "reads N p F \<Longrightarrow> length bs \<le> N \<Longrightarrow> p bs = Inr (x, rest) \<longleftrightarrow> (\<exists>b. bs = b @ rest \<and> F x b)"
  by (simp add: reads_def)

lemma reads_cong: "reads N p F \<Longrightarrow> (\<And>x b. F x b \<longleftrightarrow> G x b) \<Longrightarrow> reads N p G"
  by (simp add: reads_def)

lemma reads_return: "reads N (returnP x) (\<lambda>y b. y = x \<and> b = [])"
  by (auto simp: reads_def returnP_def)

lemma reads_fail: "reads N (failP e) (\<lambda>y b. False)"
  by (simp add: reads_def failP_def)

lemma reads_bind:
  assumes p: "reads N p F" and f: "\<And>x. reads (N - k) (f x) (G x)" and k: "\<And>x b. F x b \<Longrightarrow> k \<le> length b"
  shows "reads N (bindP p f) (\<lambda>y b. \<exists>x b1 b2. F x b1 \<and> G x y b2 \<and> b = b1 @ b2)"
  unfolding reads_def
proof (intro allI impI)
  fix bs rest :: gostring and y
  assume len: "length (bs :: gostring) \<le> N"
  have short: "length r \<le> N - k" if "bs = b @ r" "F x b" for b r x using len k [OF that(2)] that(1) by simp
  show "bindP p f bs = Inr (y, rest) \<longleftrightarrow> (\<exists>b. bs = b @ rest \<and> (\<exists>x b1 b2. F x b1 \<and> G x y b2 \<and> b = b1 @ b2))"
  proof
    assume "bindP p f bs = Inr (y, rest)"
    then obtain x r where "p bs = Inr (x, r)" and fx: "f x r = Inr (y, rest)"
      by (auto simp: bindP_def split: sum.splits prod.splits)
    then obtain b1 where b1: "bs = b1 @ r" "F x b1" using readsD [OF p len] by blast
    with fx obtain b2 where "r = b2 @ rest" "G x y b2" using readsD [OF f short [OF b1]] by blast
    with b1 show "\<exists>b. bs = b @ rest \<and> (\<exists>x b1 b2. F x b1 \<and> G x y b2 \<and> b = b1 @ b2)" by auto
  next
    assume "\<exists>b. bs = b @ rest \<and> (\<exists>x b1 b2. F x b1 \<and> G x y b2 \<and> b = b1 @ b2)"
    then obtain x b1 b2 where b: "F x b1" "G x y b2" "bs = b1 @ (b2 @ rest)" by auto
    then have "p bs = Inr (x, b2 @ rest)" using readsD [OF p len] by blast
    moreover have "f x (b2 @ rest) = Inr (y, rest)" using readsD [OF f short [OF b(3,1)]] b(2) by blast
    ultimately show "bindP p f bs = Inr (y, rest)" by (simp add: bindP_def)
  qed
qed

lemmas reads_then = reads_bind [where k = 0, simplified]

lemma reads_map: "reads N p F \<Longrightarrow> reads N (bindP p (\<lambda>x. returnP (g x))) (\<lambda>y b. \<exists>x. F x b \<and> y = g x)"
  by (rule reads_cong, erule reads_then [OF _ reads_return]) auto

lemma reads_guard: "(\<not> c \<Longrightarrow> reads N p F) \<Longrightarrow> reads N (if c then failP e else p) (\<lambda>x b. \<not> c \<and> F x b)"
  using reads_fail [of N e] by auto

lemma reads_repeat:
  assumes "reads N p F"
  shows "reads N (repeatP n p) (\<lambda>xs b. length xs = n \<and> (\<exists>bss. list_all2 F xs bss \<and> b = concat bss))"
proof (induction n)
  case 0
  show ?case by (rule reads_cong, unfold repeatP.simps, rule reads_return) auto
next
  case (Suc n)
  show ?case
    by (rule reads_cong, unfold repeatP.simps, rule reads_then [OF assms reads_then [OF Suc reads_return]])
      (auto simp: list_all2_Cons1 length_Suc_conv, force)
qed

lemma reads_bytes: "reads N (readBytes n) (\<lambda>x b. x = b \<and> length b = n)"
  by (auto simp: reads_def readBytes_def split: if_splits)

lemma reads_LE: "reads N (readLE readBytes w) (int_format w)"
  unfolding readLE_def by (rule reads_cong, rule reads_then [OF reads_bytes reads_return]) (auto simp: int_format_def)

lemma readValueData_Suc:
  "readValueData (Suc fuel) rd t =
     (case scalarOf t of
        Some (w, mk) \<Rightarrow> bindP (readLE rd w) (\<lambda>v. returnP (mk v))
      | None \<Rightarrow>
          if t = valueTypeString then bindP (readString rd) (\<lambda>s. returnP (StringVal s))
          else if t = valueTypeArray then
            bindP (readLE rd 4) (\<lambda>elemType. bindP (readLE rd 8) (\<lambda>count.
              if count > maxArrayCount then failP (SizeLimitExceeded count maxArrayCount)
              else bindP (repeatP count (readValueData fuel rd elemType)) (\<lambda>values. returnP (ArrayVal values))))
          else failP (UnknownValueType t))"
  by (simp add: scalarOf_def valueType_defs)

declare readValueData.simps(2) [simp del]

lemma scalarOf_special [simp]: "scalarOf valueTypeString = None" "scalarOf valueTypeArray = None"
  "valueTypeString \<noteq> valueTypeArray" "valueTypeArray \<noteq> valueTypeString"
  by (simp_all add: scalarOf_def valueType_defs)

lemma scalarOf_width: "scalarOf t = Some (w, mk) \<Longrightarrow> 0 < w"
  by (auto simp: scalarOf_def split: if_splits)

lemma value_format_nonempty: "value_format t v b \<Longrightarrow> b \<noteq> []"
  by (cases rule: value_format.cases) (auto simp: int_format_def string_format_def dest: scalarOf_width)

lemma reads_string: "reads N (readString readBytes) string_format"
  unfolding readString_def
  by (rule reads_cong, rule reads_then [OF reads_LE reads_guard [OF reads_bytes]]) (auto simp: string_format_def not_less)

inductive_cases value_format_arrayE: "value_format valueTypeArray v b"
inductive_cases value_format_stringE: "value_format valueTypeString v b"

lemma value_format_scalar: "scalarOf t = Some (w, mk) \<Longrightarrow> value_format t v b \<longleftrightarrow> (\<exists>n. int_format w n b \<and> v = mk n)"
  by (auto intro: value_format.Scalar) (erule value_format.cases, auto)

lemma value_format_string: "value_format valueTypeString v b \<longleftrightarrow> (\<exists>s. string_format s b \<and> v = StringVal s)"
  by (auto intro: value_format.Text elim: value_format_stringE)

lemma value_format_array:
  "value_format valueTypeArray v b \<longleftrightarrow>
     (\<exists>t eb vs cb bss. int_format 4 t eb \<and> int_format 8 (length vs) cb \<and> length vs \<le> maxArrayCount \<and>
        list_all2 (value_format t) vs bss \<and> v = ArrayVal vs \<and> b = eb @ cb @ concat bss)"
  by (auto intro: value_format.Array elim!: value_format_arrayE) blast

lemma value_format_unknown: "scalarOf t = None \<Longrightarrow> t \<noteq> valueTypeString \<Longrightarrow> t \<noteq> valueTypeArray \<Longrightarrow> \<not> value_format t v b"
  by (auto elim: value_format.cases)

lemma reads_array:
  assumes "\<And>t. reads (N - 4) (p t) (value_format t)"
  shows "reads N (bindP (readLE readBytes 4) (\<lambda>elemType. bindP (readLE readBytes 8) (\<lambda>count.
      if count > maxArrayCount then failP (SizeLimitExceeded count maxArrayCount)
      else bindP (repeatP count (p elemType)) (\<lambda>values. returnP (ArrayVal values))))) (value_format valueTypeArray)"
proof -
  note tail = reads_then [OF reads_LE reads_guard [OF reads_map [OF reads_repeat [OF assms]]]]
  have width: "4 \<le> length b" if "int_format 4 n b" for n b using that by (simp add: int_format_def)
  show ?thesis
  proof (rule reads_cong [OF reads_bind [OF reads_LE tail width]], assumption, goal_cases)
    case (1 v b)
    show ?case unfolding value_format_array not_less by (intro iffI; elim exE conjE; blast)
  qed
qed

lemma reads_value: "reads fuel (readValueData fuel readBytes t) (value_format t)"
proof (induction fuel arbitrary: t)
  case 0
  show ?case by (auto simp: reads_def failP_def dest: value_format_nonempty)
next
  case (Suc fuel)
  have inner: "reads (Suc fuel - 4) (readValueData fuel readBytes u) (value_format u)" for u
    using Suc [of u] by (auto simp: reads_def)
  show ?case
  proof (cases "scalarOf t")
    case (Some wm)
    then obtain w mk where wm: "scalarOf t = Some (w, mk)" by (cases wm) auto
    have "reads (Suc fuel) (bindP (readLE readBytes w) (\<lambda>v. returnP (mk v))) (value_format t)"
      by (rule reads_cong, rule reads_map [OF reads_LE]) (simp add: value_format_scalar [OF wm])
    with wm show ?thesis by (simp add: readValueData_Suc)
  next
    case None
    have "reads (Suc fuel) (bindP (readString readBytes) (\<lambda>s. returnP (StringVal s))) (value_format valueTypeString)"
      by (rule reads_cong, rule reads_map [OF reads_string]) (simp add: value_format_string)
    moreover have "reads (Suc fuel) (failP (UnknownValueType t)) (value_format t)"
      if "t \<noteq> valueTypeString" "t \<noteq> valueTypeArray"
      by (rule reads_cong [OF reads_fail]) (simp add: value_format_unknown [OF None that])
    ultimately show ?thesis
      using None reads_array [OF inner] by (simp add: readValueData_Suc)
  qed
qed

lemma reads_mono: "reads N p F \<Longrightarrow> M \<le> N \<Longrightarrow> reads M p F"
  by (simp add: reads_def)

lemma reads_readValue:
  "reads fuel (readValue fuel readBytes) (\<lambda>v b. \<exists>t tb vb. int_format 4 t tb \<and> value_format t v vb \<and> b = tb @ vb)"
  unfolding readValue_def by (rule reads_cong [OF reads_then [OF reads_LE reads_value]]) blast

lemma reads_kv: "reads fuel (parseMetadataKV fuel readBytes) kv_format"
  unfolding parseMetadataKV_def
proof (rule reads_cong [OF reads_then [OF reads_string reads_map [OF reads_readValue]]], goal_cases)
  case (1 kv b)
  show ?case unfolding kv_format_def by (cases kv) (auto, (metis append.assoc)+)
qed

lemma reads_tensor: "reads N (parseTensorInfo readBytes) tensor_format"
  unfolding parseTensorInfo_def
proof (rule reads_cong [OF reads_then [OF reads_string reads_then [OF reads_LE reads_guard [OF reads_then [OF reads_repeat [OF reads_LE]
        reads_then [OF reads_LE reads_map [OF reads_LE]]]]]]], goal_cases)
  case (1 ti b)
  show ?case
    unfolding tensor_format_def not_less by (cases ti) (auto, (metis append.assoc)+)
qed

lemma reads_header: "reads N (parseHeader readBytes) header_format"
  unfolding parseHeader_def
proof (rule reads_cong [OF reads_then [OF reads_LE reads_guard [OF reads_then [OF reads_LE reads_guard [OF reads_then [OF reads_LE
        reads_map [OF reads_LE]]]]]]], goal_cases)
  case (1 h b)
  have "v \<in> {2, 3} \<longleftrightarrow> \<not> (v < 2 \<or> v > 3)" for v :: nat by auto
  then show ?case
    unfolding header_format_def by (cases h) (auto, (metis append.assoc)+)
qed

lemma reads_Parse: "reads fuel (Parse fuel readBytes) file_format"
  unfolding Parse_def
proof (rule reads_cong [OF reads_then [OF reads_header reads_then [OF reads_repeat [OF reads_kv] reads_map [OF reads_repeat [OF reads_tensor]]]]], goal_cases)
  case (1 f b)
  show ?case unfolding file_format_def by (cases f) (auto, (metis append.assoc)+)
qed

section \<open>Fuel\<close>

text \<open>More fuel never changes an answer: a parser is extended by another when it agrees with it wherever the
  first does not run out. This holds for every reader.\<close>

definition extends :: "('s, 'a) parser \<Rightarrow> ('s, 'a) parser \<Rightarrow> bool" where
  "extends p q \<longleftrightarrow> (\<forall>s. p s \<noteq> Inl OutOfFuel \<longrightarrow> q s = p s)"

lemma extends_refl [intro, simp]: "extends p p"
  by (simp add: extends_def)

lemma extends_trans: "extends p q \<Longrightarrow> extends q r \<Longrightarrow> extends p r"
  by (simp add: extends_def)

lemma extends_out [simp]: "extends (failP OutOfFuel) q"
  by (simp add: extends_def failP_def)

lemma extends_bind [intro]: "extends p q \<Longrightarrow> (\<And>x. extends (f x) (g x)) \<Longrightarrow> extends (bindP p f) (bindP q g)"
  unfolding extends_def bindP_def by (fastforce split: sum.splits prod.splits)

lemma extends_repeat [intro]: "extends p q \<Longrightarrow> extends (repeatP n p) (repeatP n q)"
  by (induction n) auto

lemma extends_if [intro]: "(c \<Longrightarrow> extends p p') \<Longrightarrow> (\<not> c \<Longrightarrow> extends q q') \<Longrightarrow> extends (if c then p else q) (if c then p' else q')"
  by simp

lemma readValueData_extends: "extends (readValueData fuel rd t) (readValueData (Suc fuel) rd t)"
proof (induction fuel arbitrary: t)
  case 0
  show ?case by simp
next
  case (Suc fuel)
  then show ?case
    unfolding readValueData_Suc [of "Suc fuel" rd t] readValueData_Suc [of fuel rd t]
    by (cases "scalarOf t") (auto simp del: repeatP.simps simp: split_beta intro!: extends_if extends_bind extends_repeat)
qed

lemma readValueData_more: "fuel \<le> fuel' \<Longrightarrow> extends (readValueData fuel rd t) (readValueData fuel' rd t)"
  by (induction fuel' rule: dec_induct) (auto intro: extends_trans readValueData_extends)

lemma Parse_more: "fuel \<le> fuel' \<Longrightarrow> extends (Parse fuel rd) (Parse fuel' rd)"
  unfolding Parse_def parseMetadataKV_def readValue_def by (intro extends_bind extends_repeat extends_refl readValueData_more)

text \<open>A parser lasts on inputs shorter than \<open>N\<close> when it does not run out on them and does not lengthen them.\<close>

definition lasts :: "nat \<Rightarrow> (gostring, 'a) parser \<Rightarrow> bool" where
  "lasts N p \<longleftrightarrow> (\<forall>bs. length bs < N \<longrightarrow> p bs \<noteq> Inl OutOfFuel \<and> (\<forall>x rest. p bs = Inr (x, rest) \<longrightarrow> length rest \<le> length bs))"

lemma lasts_return [intro, simp]: "lasts N (returnP x)"
  by (simp add: lasts_def returnP_def)

lemma lasts_fail [intro]: "e \<noteq> OutOfFuel \<Longrightarrow> lasts N (failP e)"
  by (simp add: lasts_def failP_def)

lemma lasts_bind [intro]:
  assumes "lasts N p" and "\<And>x. lasts N (f x)"
  shows "lasts N (bindP p f)"
  unfolding lasts_def
proof (intro allI impI)
  fix bs :: gostring
  assume len: "length bs < N"
  show "bindP p f bs \<noteq> Inl OutOfFuel \<and> (\<forall>x rest. bindP p f bs = Inr (x, rest) \<longrightarrow> length rest \<le> length bs)"
  proof (cases "p bs")
    case (Inl e)
    with assms(1) len show ?thesis by (auto simp: lasts_def bindP_def)
  next
    case (Inr xr)
    then obtain x r where xr: "p bs = Inr (x, r)" by (cases xr) auto
    with assms(1) len have "length r \<le> length bs" by (auto simp: lasts_def)
    moreover from this have "f x r \<noteq> Inl OutOfFuel \<and> (\<forall>y rest. f x r = Inr (y, rest) \<longrightarrow> length rest \<le> length r)"
      using assms(2) [of x] len by (auto simp: lasts_def)
    ultimately show ?thesis using xr by (auto simp: bindP_def)
  qed
qed

lemma lasts_if [intro]: "(c \<Longrightarrow> lasts N p) \<Longrightarrow> (\<not> c \<Longrightarrow> lasts N q) \<Longrightarrow> lasts N (if c then p else q)"
  by simp

lemma lasts_repeat [intro]: "lasts N p \<Longrightarrow> lasts N (repeatP n p)"
  by (induction n) auto

lemma lasts_bytes [intro, simp]: "lasts N (readBytes n)"
  by (auto simp: lasts_def readBytes_def)

lemma lasts_LE [intro, simp]: "lasts N (readLE readBytes n)"
  by (auto simp: readLE_def)

lemma lasts_string [intro, simp]: "lasts N (readString readBytes)"
  unfolding readString_def by (intro lasts_bind lasts_if lasts_fail lasts_LE lasts_bytes) simp_all

lemmas lasts_rules = lasts_bind lasts_if lasts_fail lasts_return lasts_repeat lasts_bytes lasts_LE lasts_string

lemma lasts_shorter:
  assumes "\<And>x. lasts N (f x)"
  shows "lasts (Suc N) (bindP (readLE readBytes 4) f)"
proof -
  have "f x r \<noteq> Inl OutOfFuel \<and> (\<forall>y rest. f x r = Inr (y, rest) \<longrightarrow> length rest \<le> length bs)"
    if "length bs < Suc N" "readLE readBytes 4 bs = Inr (x, r)" for bs x r
  proof -
    from that(2) have "length r + 4 = length bs"
      by (auto simp: readLE_def bindP_def readBytes_def returnP_def split: if_splits)
    moreover from this that(1) have "length r < N" by simp
    ultimately show ?thesis using assms [of x] by (auto simp: lasts_def)
  qed
  moreover have "readLE readBytes 4 bs \<noteq> Inl OutOfFuel" for bs using lasts_LE [of "Suc (length bs)" 4] by (auto simp: lasts_def)
  ultimately show ?thesis by (auto simp: lasts_def bindP_def split: sum.splits prod.splits)
qed

lemma lasts_value: "lasts fuel (readValueData fuel readBytes t)"
proof (induction fuel arbitrary: t)
  case 0
  show ?case by (simp add: lasts_def)
next
  case (Suc fuel)
  have nested: "lasts (Suc fuel) (bindP (readLE readBytes 4) (\<lambda>elemType. bindP (readLE readBytes 8) (\<lambda>count.
      if count > maxArrayCount then failP (SizeLimitExceeded count maxArrayCount)
      else bindP (repeatP count (readValueData fuel readBytes elemType)) (\<lambda>values. returnP (ArrayVal values)))))"
    by (rule lasts_shorter) (intro lasts_rules Suc; simp)
  have "lasts (Suc fuel) (bindP (readLE readBytes w) (\<lambda>v. returnP (mk v)))" for w and mk :: "nat \<Rightarrow> GGUFValue"
    by (intro lasts_rules)
  moreover have "lasts (Suc fuel) (bindP (readString readBytes) (\<lambda>s. returnP (StringVal s)))" by (intro lasts_rules)
  moreover have "lasts (Suc fuel) (failP (UnknownValueType t) :: (gostring, GGUFValue) parser)" by (rule lasts_fail) simp
  ultimately show ?case using nested by (cases "scalarOf t") (simp_all add: readValueData_Suc split_beta)
qed

lemma lasts_Parse: "lasts fuel (Parse fuel readBytes)"
  unfolding Parse_def parseHeader_def parseMetadataKV_def readValue_def parseTensorInfo_def
  by (intro lasts_rules lasts_value) simp_all

section \<open>Readers that deliver the same bytes\<close>

text \<open>What the parser needs of a reader. A sound source never delivers anything but the bytes it has left, though
  it may fail; what a parser answers on it, it answers in memory. A byte source also delivers whenever the
  bytes are there, and fails as \<open>readBytes\<close> does; every parser then gives the same answer on both.\<close>

locale sound_source =
  fixes rd :: "'s reader" and left :: "'s \<Rightarrow> gostring" and good :: "'s \<Rightarrow> bool"
  assumes sound: "good s \<Longrightarrow> rd n s = Inr (b, s') \<Longrightarrow> readBytes n (left s) = Inr (b, left s') \<and> good s'"
begin

definition backed :: "('s, 'a) parser \<Rightarrow> (gostring, 'a) parser \<Rightarrow> bool" where
  "backed p q \<longleftrightarrow> (\<forall>s x s'. good s \<longrightarrow> p s = Inr (x, s') \<longrightarrow> q (left s) = Inr (x, left s') \<and> good s')"

lemma backed_rd: "backed (rd n) (readBytes n)"
  unfolding backed_def using sound by blast

lemma backed_return: "backed (returnP x) (returnP x)"
  by (simp add: backed_def returnP_def)

lemma backed_fail: "backed (failP e) q"
  by (simp add: backed_def failP_def)

lemma backed_bind:
  assumes "backed p q" and "\<And>x. backed (f x) (g x)"
  shows "backed (bindP p f) (bindP q g)"
  unfolding backed_def
proof (intro allI impI)
  fix s y s'
  assume "good s" and "bindP p f s = Inr (y, s')"
  then obtain x t where "p s = Inr (x, t)" and f: "f x t = Inr (y, s')"
    by (auto simp: bindP_def split: sum.splits prod.splits)
  with assms(1) \<open>good s\<close> have "q (left s) = Inr (x, left t)" "good t" by (auto simp: backed_def)
  moreover from this f assms(2) [of x] have "g x (left t) = Inr (y, left s') \<and> good s'" by (simp add: backed_def)
  ultimately show "bindP q g (left s) = Inr (y, left s') \<and> good s'" by (simp add: bindP_def)
qed

lemma backed_if: "(c \<Longrightarrow> backed p q) \<Longrightarrow> (\<not> c \<Longrightarrow> backed p' q') \<Longrightarrow> backed (if c then p else p') (if c then q else q')"
  by simp

lemma backed_repeat: "backed p q \<Longrightarrow> backed (repeatP n p) (repeatP n q)"
  by (induction n) (auto intro: backed_return backed_bind)

lemma backed_LE: "backed (readLE rd n) (readLE readBytes n)"
  unfolding readLE_def by (intro backed_bind backed_rd backed_return)

lemma backed_string: "backed (readString rd) (readString readBytes)"
  unfolding readString_def by (intro backed_bind backed_if backed_LE backed_fail backed_rd)

lemmas backed_rules = backed_bind backed_if backed_fail backed_return backed_repeat backed_LE backed_string

lemma backed_value: "backed (readValueData fuel rd t) (readValueData fuel readBytes t)"
proof (induction fuel arbitrary: t)
  case 0
  show ?case by (simp add: backed_fail)
next
  case (Suc fuel)
  show ?case
  proof (cases "scalarOf t")
    case (Some wm)
    have "backed (bindP (readLE rd (fst wm)) (\<lambda>v. returnP (snd wm v))) (bindP (readLE readBytes (fst wm)) (\<lambda>v. returnP (snd wm v)))"
      by (intro backed_rules)
    with Some show ?thesis by (simp add: readValueData_Suc split_beta)
  next
    case None
    show ?thesis by (simp only: readValueData_Suc None option.case) (intro backed_rules Suc)
  qed
qed

lemma backed_Parse: "backed (Parse fuel rd) (Parse fuel readBytes)"
  unfolding Parse_def parseHeader_def parseMetadataKV_def readValue_def parseTensorInfo_def
  by (intro backed_rules backed_value)

lemma Parse_sound: "good s \<Longrightarrow> Parse fuel rd s = Inr (f, s') \<Longrightarrow> Parse fuel readBytes (left s) = Inr (f, left s')"
  using backed_Parse [of fuel] unfolding backed_def by blast

end

locale byte_source =
  fixes rd :: "'s reader" and left :: "'s \<Rightarrow> gostring" and good :: "'s \<Rightarrow> bool"
  assumes delivers: "good s \<Longrightarrow> (case readBytes n (left s) of
      Inl e \<Rightarrow> rd n s = Inl e
    | Inr (b, r) \<Rightarrow> \<exists>s'. rd n s = Inr (b, s') \<and> left s' = r \<and> good s')"
begin

definition same :: "('s, 'a) parser \<Rightarrow> (gostring, 'a) parser \<Rightarrow> bool" where
  "same p q \<longleftrightarrow> (\<forall>s. good s \<longrightarrow> (case q (left s) of
      Inl e \<Rightarrow> p s = Inl e
    | Inr (x, r) \<Rightarrow> \<exists>s'. p s = Inr (x, s') \<and> left s' = r \<and> good s'))"

lemma same_Inr: "same p q \<Longrightarrow> good s \<Longrightarrow> q (left s) = Inr (x, r) \<Longrightarrow> \<exists>s'. p s = Inr (x, s') \<and> left s' = r \<and> good s'"
  unfolding same_def by (drule spec [of _ s]) simp

lemma same_Inl: "same p q \<Longrightarrow> good s \<Longrightarrow> q (left s) = Inl e \<Longrightarrow> p s = Inl e"
  unfolding same_def by (drule spec [of _ s]) simp

lemma same_rd: "same (rd n) (readBytes n)"
  unfolding same_def using delivers by blast

lemma same_return: "same (returnP x) (returnP x)"
  by (simp add: same_def returnP_def)

lemma same_fail: "same (failP e) (failP e)"
  by (simp add: same_def failP_def)

lemma same_bind:
  assumes "same p q" and "\<And>x. same (f x) (g x)"
  shows "same (bindP p f) (bindP q g)"
  unfolding same_def
proof (intro allI impI)
  fix s
  assume good: "good s"
  show "case bindP q g (left s) of Inl e \<Rightarrow> bindP p f s = Inl e
    | Inr (x, r) \<Rightarrow> \<exists>s'. bindP p f s = Inr (x, s') \<and> left s' = r \<and> good s'"
  proof (cases "q (left s)")
    case (Inl e)
    then have "p s = Inl e" by (rule same_Inl [OF assms(1) good])
    with Inl show ?thesis by (simp add: bindP_def)
  next
    case (Inr xr)
    then obtain x r where q: "q (left s) = Inr (x, r)" by (cases xr) auto
    then obtain s' where s': "p s = Inr (x, s')" "left s' = r" "good s'" using same_Inr [OF assms(1) good] by blast
    then have "case g x r of Inl e \<Rightarrow> f x s' = Inl e | Inr (y, r) \<Rightarrow> \<exists>t. f x s' = Inr (y, t) \<and> left t = r \<and> good t"
      using assms(2) [of x] by (auto simp: same_def)
    moreover have run: "bindP p f s = f x s'" "bindP q g (left s) = g x r" using s'(1) q by (simp_all add: bindP_def)
    ultimately show ?thesis unfolding run by blast
  qed
qed

lemma same_if: "(c \<Longrightarrow> same p q) \<Longrightarrow> (\<not> c \<Longrightarrow> same p' q') \<Longrightarrow> same (if c then p else p') (if c then q else q')"
  by simp

lemma same_repeat: "same p q \<Longrightarrow> same (repeatP n p) (repeatP n q)"
  by (induction n) (auto intro: same_return same_bind)

lemma same_LE: "same (readLE rd n) (readLE readBytes n)"
  unfolding readLE_def by (intro same_bind same_rd same_return)

lemma same_string: "same (readString rd) (readString readBytes)"
  unfolding readString_def by (intro same_bind same_if same_LE same_fail same_rd)

lemmas same_rules = same_bind same_if same_fail same_return same_repeat same_LE same_string

lemma same_value: "same (readValueData fuel rd t) (readValueData fuel readBytes t)"
proof (induction fuel arbitrary: t)
  case 0
  show ?case by (simp add: same_fail)
next
  case (Suc fuel)
  show ?case
  proof (cases "scalarOf t")
    case (Some wm)
    have "same (bindP (readLE rd (fst wm)) (\<lambda>v. returnP (snd wm v))) (bindP (readLE readBytes (fst wm)) (\<lambda>v. returnP (snd wm v)))"
      by (intro same_rules)
    with Some show ?thesis by (simp add: readValueData_Suc split_beta)
  next
    case None
    show ?thesis by (simp only: readValueData_Suc None option.case) (intro same_rules Suc)
  qed
qed

lemma same_Parse: "same (Parse fuel rd) (Parse fuel readBytes)"
  unfolding Parse_def parseHeader_def parseMetadataKV_def readValue_def parseTensorInfo_def
  by (intro same_rules same_value)

lemma Parse_delivers: "good s \<Longrightarrow> map_sum id fst (Parse fuel rd s) = map_sum id fst (Parse fuel readBytes (left s))"
  using same_Inl [OF same_Parse, of s fuel] same_Inr [OF same_Parse, of s fuel]
  by (cases "Parse fuel readBytes (left s)") auto

end

sublocale byte_source \<subseteq> sound_source
proof
  fix s s' n b
  assume "good s" and run: "rd n s = Inr (b, s')"
  from delivers [OF this(1), of n] run show "readBytes n (left s) = Inr (b, left s') \<and> good s'"
    by (cases "readBytes n (left s)") auto
qed

interpretation in_memory: byte_source readBytes id "\<lambda>_. True"
  by unfold_locales (auto split: sum.splits)

section \<open>Properties\<close>

text \<open>C21. The parser is exact on the format: with fuel for the length of the input, it answers a file and a rest
  precisely when the input is an encoding of that file followed by that rest. So it accepts every file the
  grammar allows within the limits, rejects everything else, never depends on the tensor data behind the
  header, and the format is unambiguous.\<close>
theorem Parse_exact:
  assumes "length bs \<le> fuel"
  shows "Parse fuel readBytes bs = Inr (f, rest) \<longleftrightarrow> (\<exists>b. bs = b @ rest \<and> file_format f b)"
  using reads_Parse assms by (rule readsD)

definition ex_empty_file :: gostring where
  "ex_empty_file = ''GGUF'' @ CHR 0x03 # [CHR 0x00, CHR 0x00, CHR 0x00, CHR 0x00, CHR 0x00, CHR 0x00, CHR 0x00, CHR 0x00, CHR 0x00, CHR 0x00, CHR 0x00, CHR 0x00, CHR 0x00, CHR 0x00, CHR 0x00, CHR 0x00, CHR 0x00, CHR 0x00, CHR 0x00]"

theorem Parse_exact_witness:
  "\<exists>b. ex_empty_file @ ''data'' = b @ ''data'' \<and>
     file_format \<lparr>gf_Header = \<lparr>gh_Version = 3, gh_TensorCount = 0, gh_MetadataKVCount = 0\<rparr>, gf_Metadata = [], gf_TensorInfo = []\<rparr> b"
proof -
  have "Parse 30 readBytes (ex_empty_file @ ''data'') =
      Inr (\<lparr>gf_Header = \<lparr>gh_Version = 3, gh_TensorCount = 0, gh_MetadataKVCount = 0\<rparr>, gf_Metadata = [], gf_TensorInfo = []\<rparr>, ''data'')"
    by (simp add: Parse_def parseHeader_def bindP_def returnP_def readLE_def readBytes_def leNat_def ggufMagic_def
        ex_empty_file_def)
  moreover have "length (ex_empty_file @ ''data'') \<le> 30" by (simp add: ex_empty_file_def)
  ultimately show ?thesis using Parse_exact [of "ex_empty_file @ ''data''" 30] by blast
qed

text \<open>C23. Parsing ends on every input. The nesting of arrays, which alone has no bound in the code, is at most the
  length of the input: with more fuel than that the parser never runs out of it, and its answer is the same
  for every such fuel.\<close>
theorem Parse_terminates:
  assumes "length bs < fuel"
  shows "Parse fuel readBytes bs \<noteq> Inl OutOfFuel \<and> Parse fuel readBytes bs = Parse (Suc (length bs)) readBytes bs"
proof -
  have "Parse (Suc (length bs)) readBytes bs \<noteq> Inl OutOfFuel" using lasts_Parse [of "Suc (length bs)"] by (simp add: lasts_def)
  moreover have "extends (Parse (Suc (length bs)) readBytes) (Parse fuel readBytes)" using assms by (intro Parse_more) simp
  ultimately show ?thesis by (simp add: extends_def)
qed

theorem Parse_terminates_witness:
  "Parse 30 readBytes (ex_empty_file @ ''data'') \<noteq> Inl OutOfFuel \<and>
   Parse 30 readBytes (ex_empty_file @ ''data'') = Parse (Suc (length (ex_empty_file @ ''data''))) readBytes (ex_empty_file @ ''data'')"
proof -
  have "length (ex_empty_file @ ''data'') < 30" by (simp add: ex_empty_file_def)
  then show ?thesis by (rule Parse_terminates)
qed







end
