(* ===== verification/Gguf_Remote.thy ===== *)
theory Gguf_Remote
  imports Gguf_Parser
begin

text \<open>
  Reading the metadata of a remote GGUF file (\<open>pkg/gguf/remote.go\<close>): the lazy \<open>io.ReaderAt\<close> over HTTP range
  requests with its one-chunk cache, the probe, and the fallback to streaming. The HTTP client is the
  parameter \<open>Server\<close>: the answer to a HEAD, to a range GET and to a plain GET, and whether the context is done
  when an offset is read. The standard library is modelled as the code uses it: \<open>io.SectionReader\<close> clips a read
  to the section, and \<open>io.ReadFull\<close> reads until the buffer is full or an error occurs.

  The range reader is shown to deliver the bytes of the file whatever the sizes of the chunks the server
  chooses to answer with, as an interpretation of \<open>byte_source\<close>; from this and the grammar of the format the
  remote parse of an honest server is the local one, whatever length the server claims.
\<close>

section \<open>The range reader\<close>

datatype http_reply = TransportError gostring | Reply int gostring "gostring option"

record Server =
  sv_head :: "(int \<times> gostring \<times> int option) option"
  sv_range :: "nat \<Rightarrow> nat \<Rightarrow> http_reply"
  sv_get :: http_reply
  sv_ctxErr :: "nat \<Rightarrow> gostring option"

record rangeReaderAt =
  ra_size :: nat
  ra_chunk :: gostring
  ra_chunkOff :: nat
  ra_haveData :: bool

definition rangeChunkSize :: nat where "rangeChunkSize = 1048576"

definition cacheCovers :: "rangeReaderAt \<Rightarrow> nat \<Rightarrow> bool" where
  "cacheCovers r off \<longleftrightarrow> ra_haveData r \<and> off \<ge> ra_chunkOff r \<and> off < ra_chunkOff r + length (ra_chunk r)"

definition fetchChunk :: "Server \<Rightarrow> rangeReaderAt \<Rightarrow> nat \<Rightarrow> gostring + rangeReaderAt" where
  "fetchChunk sv r off =
     (let end1 = off + rangeChunkSize - 1; end1 = (if end1 \<ge> ra_size r then ra_size r - 1 else end1) in
      case sv_range sv off end1 of
        TransportError e \<Rightarrow> Inl e
      | Reply status body readErr \<Rightarrow>
          if status \<noteq> 206 then Inl ''server did not honor Range''
          else (let buf = take (end1 - off + 1) body in
                case (if length body < end1 - off + 1 then readErr else None) of
                  Some e \<Rightarrow> Inl e
                | None \<Rightarrow>
                    if buf = [] then Inl ''server returned no bytes''
                    else Inr (r\<lparr>ra_chunk := buf, ra_chunkOff := off, ra_haveData := True\<rparr>)))"

text \<open>What the copy loop of \<open>ReadAt\<close> returns: the bytes copied so far, the error if there is one, and the reader.\<close>

function readLoop :: "Server \<Rightarrow> nat \<Rightarrow> nat \<Rightarrow> gostring \<Rightarrow> rangeReaderAt \<Rightarrow> gostring \<times> gguf_error option \<times> rangeReaderAt" where
  "readLoop sv want off got r =
     (if length got \<ge> want then (got, None, r)
      else case sv_ctxErr sv (off + length got) of
        Some e \<Rightarrow> (got, Some (ReadFailed e), r)
      | None \<Rightarrow>
          (let cur = off + length got in
           if cur \<ge> ra_size r then (got, Some ReadEOF, r)
           else (case (if cacheCovers r cur then Inr r else fetchChunk sv r cur) of
               Inl e \<Rightarrow> (got, Some (ReadFailed e), r)
             | Inr r' \<Rightarrow> readLoop sv want off (got @ take (want - length got) (drop (cur - ra_chunkOff r') (ra_chunk r'))) r')))"
  by pat_completeness auto

lemma fetchChunk_covers: "fetchChunk sv r off = Inr r' \<Longrightarrow> cacheCovers r' off"
  by (auto simp: fetchChunk_def cacheCovers_def Let_def split: http_reply.splits if_splits option.splits)

lemma cacheCovers_copies: "cacheCovers r cur \<Longrightarrow> 0 < n \<Longrightarrow> take n (drop (cur - ra_chunkOff r) (ra_chunk r)) \<noteq> []"
  by (auto simp: cacheCovers_def)

lemma chunk_covers: "(if cacheCovers r cur then Inr r else fetchChunk sv r cur) = Inr r' \<Longrightarrow> cacheCovers r' cur"
  by (auto split: if_splits dest: fetchChunk_covers)

termination readLoop
proof (relation "measure (\<lambda>(sv, want, off, got, r). want - length got)", goal_cases)
  case (2 sv want off got r cur r')
  then have "cacheCovers r' (off + length got)" "length got < want" by (auto dest: chunk_covers)
  then have "0 < length (take (want - length got) (drop (off + length got - ra_chunkOff r') (ra_chunk r')))"
    using cacheCovers_copies [of r' "off + length got" "want - length got"] by simp
  with 2 show ?case by simp
qed simp

declare readLoop.simps [simp del]

lemma readLoop_None: "readLoop sv want off got r = (b, None, r') \<Longrightarrow> want \<le> length b"
proof (induction sv want off got r rule: readLoop.induct)
  case (1 sv want off got r)
  show ?case
  proof (cases "want \<le> length got")
    case False
    let ?cur = "off + length got"
    from False 1(2) obtain r1 where ctx: "sv_ctxErr sv ?cur = None" and cur: "\<not> ra_size r \<le> ?cur"
      and r1: "(if cacheCovers r ?cur then Inr r else fetchChunk sv r ?cur) = Inr r1"
      and rec: "readLoop sv want off (got @ take (want - length got) (drop (?cur - ra_chunkOff r1) (ra_chunk r1))) r1 = (b, None, r')"
      by (subst (asm) readLoop.simps) (simp add: Let_def split: option.splits sum.splits if_splits)
    show ?thesis by (rule 1(1) [OF False ctx refl cur r1 rec])
  qed (use 1(2) in \<open>simp add: readLoop.simps\<close>)
qed

definition ReadAt :: "Server \<Rightarrow> rangeReaderAt \<Rightarrow> nat \<Rightarrow> nat \<Rightarrow> gostring \<times> gguf_error option \<times> rangeReaderAt" where
  "ReadAt sv r want off = (if off \<ge> ra_size r then ([], Some ReadEOF, r) else readLoop sv want off [] r)"

section \<open>Reading through the section\<close>

type_synonym SectionReader = "nat \<times> rangeReaderAt"

definition sectionRead :: "Server \<Rightarrow> nat \<Rightarrow> SectionReader \<Rightarrow> gostring \<times> gguf_error option \<times> SectionReader" where
  "sectionRead sv want s =
     (case s of (off, r) \<Rightarrow>
        if off \<ge> ra_size r then ([], Some ReadEOF, s)
        else (case ReadAt sv r (min want (ra_size r - off)) off of
            (b, e, r') \<Rightarrow> (b, e, (off + length b, r'))))"

lemma sectionRead_None: "sectionRead sv want s = (b, None, s') \<Longrightarrow> 0 < want \<Longrightarrow> b \<noteq> []"
  by (auto simp: sectionRead_def ReadAt_def split: prod.splits if_splits dest!: readLoop_None)

function readFullLoop :: "Server \<Rightarrow> nat \<Rightarrow> gostring \<Rightarrow> SectionReader \<Rightarrow> gguf_error + gostring \<times> SectionReader" where
  "readFullLoop sv want got s =
     (if length got \<ge> want then Inr (got, s)
      else (case sectionRead sv (want - length got) s of
          (b, None, s') \<Rightarrow> readFullLoop sv want (got @ b) s'
        | (b, Some e, s') \<Rightarrow>
            if length (got @ b) \<ge> want then Inr (got @ b, s')
            else if e = ReadEOF \<and> got @ b \<noteq> [] then Inl UnexpectedEOF else Inl e))"
  by pat_completeness auto

termination readFullLoop
proof (relation "measure (\<lambda>(sv, want, got, s). want - length got)", goal_cases)
  case (2 sv want got s b x e s')
  then show ?case using sectionRead_None [of sv "want - length got" s b s'] by (cases b) auto
qed simp

declare readFullLoop.simps [simp del]

definition rangeRead :: "Server \<Rightarrow> SectionReader reader" where
  "rangeRead sv want s = readFullLoop sv want [] s"

definition ParseReaderAt :: "nat \<Rightarrow> Server \<Rightarrow> rangeReaderAt \<Rightarrow> gguf_error + GGUFFile" where
  "ParseReaderAt fuel sv r = map_sum id fst (Parse fuel (rangeRead sv) (0, r))"

section \<open>From a URL\<close>

datatype url_error = HeadFailed | GetFailed gostring | UnexpectedStatus int | ParseFailed gguf_error

fun containsStr :: "gostring \<Rightarrow> gostring \<Rightarrow> bool" where
  "containsStr sub [] = (sub = [])"
| "containsStr sub (c # s) = (has_prefix sub (c # s) \<or> containsStr sub s)"

definition probeURL :: "Server \<Rightarrow> (int \<times> bool) option" where
  "probeURL sv =
     (case sv_head sv of
        None \<Rightarrow> None
      | Some (status, acceptRanges, contentLength) \<Rightarrow>
          if status \<noteq> 200 then Some (0, False)
          else Some (case contentLength of None \<Rightarrow> 0 | Some n \<Rightarrow> n, containsStr ''bytes'' (toLower acceptRanges)))"

definition bodyRead :: "gostring option \<Rightarrow> gostring reader" where
  "bodyRead readErr n bs =
     (if n \<le> length bs then Inr (take n bs, drop n bs)
      else (case readErr of
          Some e \<Rightarrow> Inl (ReadFailed e)
        | None \<Rightarrow> if bs = [] then Inl ReadEOF else Inl UnexpectedEOF))"

definition parseFromURLStreaming :: "nat \<Rightarrow> Server \<Rightarrow> url_error + GGUFFile" where
  "parseFromURLStreaming fuel sv =
     (case sv_get sv of
        TransportError e \<Rightarrow> Inl (GetFailed e)
      | Reply status body readErr \<Rightarrow>
          if status \<noteq> 200 \<and> status \<noteq> 206 then Inl (UnexpectedStatus status)
          else map_sum ParseFailed fst (Parse fuel (bodyRead readErr) body))"

definition parseFromURL :: "nat \<Rightarrow> Server \<Rightarrow> url_error + GGUFFile" where
  "parseFromURL fuel sv =
     (case probeURL sv of
        None \<Rightarrow> Inl HeadFailed
      | Some (len, rangeOK) \<Rightarrow>
          (case (if rangeOK \<and> len > 0
                 then ParseReaderAt fuel sv \<lparr>ra_size = nat len, ra_chunk = [], ra_chunkOff = 0, ra_haveData = False\<rparr>
                 else Inl ReadEOF) of
             Inr f \<Rightarrow> Inr f
           | Inl _ \<Rightarrow> parseFromURLStreaming fuel sv))"

section \<open>Truthful servers\<close>

text \<open>A server tells the truth about a file when every partial content it answers with is what the file has at
  the offset asked for. It may answer with fewer bytes than asked for, or fail.\<close>

definition truthful :: "Server \<Rightarrow> gostring \<Rightarrow> bool" where
  "truthful sv file \<longleftrightarrow> (\<forall>off end1 body e. sv_range sv off end1 = Reply 206 body e \<longrightarrow> (\<exists>rest. drop off file = body @ rest))"

definition cache_ok :: "gostring \<Rightarrow> rangeReaderAt \<Rightarrow> bool" where
  "cache_ok file r \<longleftrightarrow> (ra_haveData r \<longrightarrow> (\<exists>rest. drop (ra_chunkOff r) file = ra_chunk r @ rest))"

lemma fetchChunk_ok:
  assumes "truthful sv file" and "fetchChunk sv r off = Inr r'"
  shows "cache_ok file r' \<and> ra_size r' = ra_size r"
proof -
  from assms(2) obtain end1 body e where body: "sv_range sv off end1 = Reply 206 body e"
    and r': "r' = r\<lparr>ra_chunk := take (end1 - off + 1) body, ra_chunkOff := off, ra_haveData := True\<rparr>"
    by (auto simp: fetchChunk_def Let_def split: http_reply.splits if_splits option.splits)
  from assms(1) body obtain rest where "drop off file = body @ rest" unfolding truthful_def by blast
  then have "drop off file = take (end1 - off + 1) body @ (drop (end1 - off + 1) body @ rest)" by simp
  then show ?thesis unfolding r' cache_ok_def by auto
qed

lemma chunk_ok: "truthful sv file \<Longrightarrow> cache_ok file r \<Longrightarrow>
    (if cacheCovers r cur then Inr r else fetchChunk sv r cur) = Inr r' \<Longrightarrow> cache_ok file r' \<and> ra_size r' = ra_size r"
  by (auto split: if_splits dest: fetchChunk_ok)

lemma copied_prefix:
  assumes "cache_ok file r" and "cacheCovers r (off + length got)" and "drop off file = got @ rest"
  shows "\<exists>rest'. drop off file = (got @ take n (drop (off + length got - ra_chunkOff r) (ra_chunk r))) @ rest'"
proof -
  let ?cur = "off + length got"
  from assms(1,2) obtain tail where tail: "drop (ra_chunkOff r) file = ra_chunk r @ tail"
    and cur: "ra_chunkOff r \<le> ?cur" "?cur < ra_chunkOff r + length (ra_chunk r)"
    by (auto simp: cache_ok_def cacheCovers_def)
  have "drop ?cur file = drop (?cur - ra_chunkOff r) (drop (ra_chunkOff r) file)" using cur by simp
  also have "\<dots> = drop (?cur - ra_chunkOff r) (ra_chunk r) @ tail" using cur unfolding tail by simp
  finally have "drop ?cur file = drop (?cur - ra_chunkOff r) (ra_chunk r) @ tail" .
  moreover have "drop ?cur file = rest"
    using arg_cong [OF assms(3), of "drop (length got)"] by (simp add: add.commute)
  ultimately have "rest = take n (drop (?cur - ra_chunkOff r) (ra_chunk r)) @ (drop n (drop (?cur - ra_chunkOff r) (ra_chunk r)) @ tail)"
    by (metis append.assoc append_take_drop_id)
  with assms(3) show ?thesis by (metis append.assoc)
qed

lemma readLoop_sound:
  assumes "truthful sv file"
  shows "readLoop sv want off got r = (b, e, r') \<Longrightarrow> cache_ok file r \<Longrightarrow> (\<exists>rest. drop off file = got @ rest) \<Longrightarrow> length got \<le> want \<Longrightarrow>
    cache_ok file r' \<and> ra_size r' = ra_size r \<and> (\<exists>rest. drop off file = b @ rest) \<and> length b \<le> want \<and> (e = None \<longrightarrow> length b = want)"
  using assms
proof (induction sv want off got r rule: readLoop.induct)
  case (1 sv want off got r)
  let ?cur = "off + length got"
  show ?case
  proof (cases "want \<le> length got")
    case True
    with 1(2-5) show ?thesis by (simp add: readLoop.simps)
  next
    case False
    consider (stop) e' where "(b, e, r') = (got, Some e', r)"
      | (copy) r1 where "sv_ctxErr sv ?cur = None" "\<not> ra_size r \<le> ?cur"
          "(if cacheCovers r ?cur then Inr r else fetchChunk sv r ?cur) = Inr r1"
          "readLoop sv want off (got @ take (want - length got) (drop (?cur - ra_chunkOff r1) (ra_chunk r1))) r1 = (b, e, r')"
      using 1(2) False
      by (subst (asm) readLoop.simps) (auto simp: Let_def split: option.splits sum.splits if_splits)
    then show ?thesis
    proof cases
      case stop
      with 1(3-5) show ?thesis by auto
    next
      case copy
      note ok = chunk_ok [OF 1(6) 1(3) copy(3)]
      have "\<exists>rest. drop off file = (got @ take (want - length got) (drop (?cur - ra_chunkOff r1) (ra_chunk r1))) @ rest"
        using ok copied_prefix [OF _ chunk_covers [OF copy(3)]] 1(4) by blast
      then show ?thesis
        using 1(1) [OF False copy(1) refl copy(2,3,4)] ok 1(6) False by simp
    qed
  qed
qed

lemma ReadAt_sound:
  assumes "truthful sv file" and "cache_ok file r" and "ReadAt sv r want off = (b, e, r')"
  shows "cache_ok file r' \<and> ra_size r' = ra_size r \<and> (\<exists>rest. drop off file = b @ rest) \<and> length b \<le> want \<and> (e = None \<longrightarrow> length b = want)"
proof (cases "ra_size r \<le> off")
  case False
  with assms(3) have "readLoop sv want off [] r = (b, e, r')" by (simp add: ReadAt_def)
  from readLoop_sound [OF assms(1) this assms(2)] show ?thesis by simp
qed (use assms in \<open>auto simp: ReadAt_def\<close>)

definition unread :: "gostring \<Rightarrow> SectionReader \<Rightarrow> gostring" where
  "unread file s = drop (fst s) (take (ra_size (snd s)) file)"

definition section_ok :: "Server \<Rightarrow> gostring \<Rightarrow> SectionReader \<Rightarrow> bool" where
  "section_ok sv file s \<longleftrightarrow> truthful sv file \<and> cache_ok file (snd s)"

lemma sectionRead_sound:
  assumes "section_ok sv file s" and "sectionRead sv want s = (b, e, s')"
  shows "unread file s = b @ unread file s' \<and> section_ok sv file s' \<and> length b \<le> want"
proof -
  obtain off r where s: "s = (off, r)" by (cases s)
  show ?thesis
  proof (cases "ra_size r \<le> off")
    case True
    with assms s show ?thesis by (auto simp: sectionRead_def)
  next
    case False
    with assms(2) s obtain r' where r': "ReadAt sv r (min want (ra_size r - off)) off = (b, e, r')" "s' = (off + length b, r')"
      by (auto simp: sectionRead_def split: prod.splits)
    from assms(1) s have ok: "truthful sv file" "cache_ok file r" by (auto simp: section_ok_def)
    from ReadAt_sound [OF ok r'(1)] obtain rest where rest: "drop off file = b @ rest"
      and more: "cache_ok file r'" "ra_size r' = ra_size r" "length b \<le> want" "length b \<le> ra_size r - off" by auto
    have "unread file s = b @ take (ra_size r - off - length b) rest"
      using rest more(4) by (simp add: unread_def s drop_take)
    moreover have "unread file s' = drop (length b) (unread file s)"
      by (simp add: unread_def s r'(2) more(2) add.commute)
    ultimately show ?thesis using ok more by (simp add: section_ok_def r'(2))
  qed
qed

lemma readFullLoop_sound:
  "readFullLoop sv want got s = Inr (b, s') \<Longrightarrow> section_ok sv file s \<Longrightarrow> length got \<le> want \<Longrightarrow>
    got @ unread file s = b @ unread file s' \<and> section_ok sv file s' \<and> length b = want"
proof (induction sv want got s rule: readFullLoop.induct)
  case (1 sv want got s)
  show ?case
  proof (cases "want \<le> length got")
    case True
    with 1(2-4) show ?thesis by (simp add: readFullLoop.simps)
  next
    case False
    obtain b1 e s1 where step: "sectionRead sv (want - length got) s = (b1, e, s1)"
      by (cases "sectionRead sv (want - length got) s")
    from sectionRead_sound [OF 1(3) this] have s1: "unread file s = b1 @ unread file s1" "section_ok sv file s1"
      "length b1 \<le> want - length got" by auto
    show ?thesis
    proof (cases e)
      case None
      with 1(2) False step have "readFullLoop sv want (got @ b1) s1 = Inr (b, s')" by (simp add: readFullLoop.simps)
      from 1(1) [OF False step [symmetric, unfolded None] refl refl this s1(2)] show ?thesis using s1 False by simp
    next
      case (Some e')
      with 1(2) False step have "b = got @ b1" "s' = s1" "want \<le> length (got @ b1)"
        by (auto simp: readFullLoop.simps split: if_splits)
      with s1 False show ?thesis by simp
    qed
  qed
qed

lemma rangeRead_sound:
  assumes "section_ok sv file s" and "rangeRead sv n s = Inr (b, s')"
  shows "readBytes n (unread file s) = Inr (b, unread file s') \<and> section_ok sv file s'"
  using readFullLoop_sound [of sv n "[]" s b s' "file"] assms by (auto simp: rangeRead_def readBytes_def)

interpretation ranges: sound_source "rangeRead sv" "unread bs" "section_ok sv bs" for sv bs
  by unfold_locales (rule rangeRead_sound)

section \<open>Reliable servers\<close>

text \<open>A reliable server also answers every request for bytes the file has, with at least one byte, and the
  context is never done.\<close>

definition reliable :: "Server \<Rightarrow> gostring \<Rightarrow> bool" where
  "reliable sv file \<longleftrightarrow> truthful sv file \<and> (\<forall>off. sv_ctxErr sv off = None) \<and>
     (\<forall>off end1. off < length file \<and> off \<le> end1 \<longrightarrow> (\<exists>body. body \<noteq> [] \<and> sv_range sv off end1 = Reply 206 body None))"

lemma fetchChunk_reliable:
  assumes "reliable sv file" and "off < ra_size r" and "ra_size r \<le> length file"
  shows "\<exists>r'. fetchChunk sv r off = Inr r'"
proof -
  let ?fin = "if off + rangeChunkSize - 1 \<ge> ra_size r then ra_size r - 1 else off + rangeChunkSize - 1"
  have "off \<le> ?fin" using assms(2) by (auto simp: rangeChunkSize_def)
  moreover have "off < length file" using assms(2,3) by simp
  ultimately obtain body where "body \<noteq> []" "sv_range sv off ?fin = Reply 206 body None"
    using assms(1) unfolding reliable_def by blast
  then show ?thesis by (cases "off + rangeChunkSize - 1 \<ge> ra_size r") (simp_all add: fetchChunk_def Let_def)
qed

lemma readLoop_reliable:
  assumes "reliable sv file"
  shows "readLoop sv want off got r = (b, e, r') \<Longrightarrow> cache_ok file r \<Longrightarrow> off + want \<le> ra_size r \<Longrightarrow> ra_size r \<le> length file \<Longrightarrow> e = None"
  using assms
proof (induction sv want off got r rule: readLoop.induct)
  case (1 sv want off got r)
  let ?cur = "off + length got"
  show ?case
  proof (cases "want \<le> length got")
    case True
    with 1(2) show ?thesis by (simp add: readLoop.simps)
  next
    case False
    with 1(4) have cur: "\<not> ra_size r \<le> ?cur" by simp
    have ctx: "sv_ctxErr sv ?cur = None" and tr: "truthful sv file" using 1(6) by (auto simp: reliable_def)
    obtain r1 where r1: "(if cacheCovers r ?cur then Inr r else fetchChunk sv r ?cur) = Inr r1"
      using fetchChunk_reliable [OF 1(6) _ 1(5), of ?cur] cur by (cases "cacheCovers r ?cur") auto
    have "readLoop sv want off (got @ take (want - length got) (drop (?cur - ra_chunkOff r1) (ra_chunk r1))) r1 = (b, e, r')"
      using 1(2) False cur ctx r1 by (subst (asm) readLoop.simps) (simp add: Let_def)
    from 1(1) [OF False ctx refl cur r1 this] chunk_ok [OF tr 1(3) r1] 1(4-6) show ?thesis by simp
  qed
qed

definition section_reliable :: "Server \<Rightarrow> gostring \<Rightarrow> SectionReader \<Rightarrow> bool" where
  "section_reliable sv file s \<longleftrightarrow> reliable sv file \<and> cache_ok file (snd s) \<and> ra_size (snd s) \<le> length file"

lemma rangeRead_reliable:
  assumes "section_reliable sv file s"
  shows "case readBytes n (unread file s) of
      Inl e \<Rightarrow> rangeRead sv n s = Inl e
    | Inr (b, rest) \<Rightarrow> \<exists>s'. rangeRead sv n s = Inr (b, s') \<and> unread file s' = rest \<and> section_reliable sv file s'"
proof -
  obtain off r where s: "s = (off, r)" by (cases s)
  from assms have ok: "section_ok sv file s" and rel: "reliable sv file" and cache: "cache_ok file r" and len: "ra_size r \<le> length file"
    by (auto simp: section_reliable_def section_ok_def reliable_def s)
  have unread_len: "length (unread file s) = ra_size r - off" using len by (simp add: unread_def s)
  show ?thesis
  proof (cases "ra_size r \<le> off")
    case True
    then have none: "unread file s = []" using unread_len by simp
    have "rangeRead sv n s = (if n = 0 then Inr ([], s) else Inl ReadEOF)"
      using True by (simp add: rangeRead_def readFullLoop.simps sectionRead_def s)
    then show ?thesis using none assms by (cases "n = 0") (auto simp: readBytes_def simp del: split_paired_Ex)
  next
    case False
    obtain b e r' where read: "readLoop sv (min n (ra_size r - off)) off [] r = (b, e, r')"
      by (cases "readLoop sv (min n (ra_size r - off)) off [] r")
    have e: "e = None" using readLoop_reliable [OF rel read cache _ len] False by simp
    let ?s = "(off + length b, r')"
    have step: "sectionRead sv n s = (b, None, ?s)" using False read e by (simp add: sectionRead_def ReadAt_def s)
    have b: "length b = min n (ra_size r - off)" "ra_size r' = ra_size r"
      using readLoop_sound [OF _ read cache] rel e by (auto simp: reliable_def)
    note sound = sectionRead_sound [OF ok step]
    have next_ok: "section_reliable sv file ?s" using sound rel len b by (simp add: section_reliable_def section_ok_def)
    show ?thesis
    proof (cases "n \<le> ra_size r - off")
      case True
      then have "rangeRead sv n s = Inr (b, if n = 0 then s else ?s)"
        using step b by (auto simp: rangeRead_def readFullLoop.simps)
      then show ?thesis using True sound next_ok assms b unread_len by (auto simp: readBytes_def)
    next
      case False
      then have n: "n \<noteq> 0" "b \<noteq> []" "length b = ra_size r - off" "length b < n" "ra_size r' \<le> off + length b"
        using b \<open>\<not> ra_size r \<le> off\<close> by auto
      then have "readFullLoop sv n b ?s = Inl UnexpectedEOF"
        by (simp add: readFullLoop.simps sectionRead_def)
      then have "rangeRead sv n s = Inl UnexpectedEOF"
        using step n by (simp add: rangeRead_def readFullLoop.simps [of sv n "[]"])
      then show ?thesis using n unread_len False by (auto simp: readBytes_def)
    qed
  qed
qed

interpretation reliable_ranges: byte_source "rangeRead sv" "unread bs" "section_reliable sv bs" for sv bs
  by unfold_locales (rule rangeRead_reliable)

section \<open>Properties\<close>

lemma bodyRead_whole: "bodyRead None = readBytes"
  by (intro ext) (simp add: bodyRead_def readBytes_def)

lemma Parse_longer:
  assumes "Parse fuel readBytes (take n file) = Inr (f, rest)" and "length file \<le> fuel"
  shows "Parse fuel readBytes file = Inr (f, rest @ drop n file)"
proof -
  have "length (take n file) \<le> fuel" using assms(2) by simp
  from readsD [OF reads_Parse this] assms(1) obtain b where b: "take n file = b @ rest" "file_format f b" by blast
  have "file = b @ (rest @ drop n file)" using b(1) append_take_drop_id [of n "file"] by simp
  with b(2) readsD [OF reads_Parse assms(2)] show ?thesis by blast
qed

lemma fresh_section_ok: "truthful sv file \<Longrightarrow> section_ok sv file (0, \<lparr>ra_size = n, ra_chunk = [], ra_chunkOff = 0, ra_haveData = False\<rparr>)"
  by (simp add: section_ok_def cache_ok_def)

lemma ParseReaderAt_sound:
  assumes "truthful sv file" and "length file \<le> fuel"
    and "ParseReaderAt fuel sv \<lparr>ra_size = n, ra_chunk = [], ra_chunkOff = 0, ra_haveData = False\<rparr> = Inr f"
  shows "map_sum ParseFailed fst (Parse fuel readBytes file) = Inr f"
proof -
  let ?s = "(0, \<lparr>ra_size = n, ra_chunk = [], ra_chunkOff = 0, ra_haveData = False\<rparr>)"
  from assms(3) obtain s' where "Parse fuel (rangeRead sv) ?s = Inr (f, s')"
    by (cases "Parse fuel (rangeRead sv) ?s") (auto simp: ParseReaderAt_def)
  from ranges.Parse_sound [OF fresh_section_ok [OF assms(1)] this]
  have "Parse fuel readBytes (take n file) = Inr (f, unread file s')" by (simp add: unread_def)
  from Parse_longer [OF this assms(2)] show ?thesis by simp
qed

text \<open>C22. Parsing from a URL answers what parsing the file itself answers: its metadata, or the error of its parse.
  This holds for every server that tells the truth about the bytes it does send and that serves the whole file to a
  plain GET, whatever length and range support it announces, however short its partial contents are, and
  whichever of the range requests fail.\<close>
theorem parseFromURL_exact:
  assumes "truthful sv file" and "sv_get sv = Reply 200 file None" and "sv_head sv \<noteq> None" and "length file \<le> fuel"
  shows "parseFromURL fuel sv = map_sum ParseFailed fst (Parse fuel readBytes file)"
proof -
  have stream: "parseFromURLStreaming fuel sv = map_sum ParseFailed fst (Parse fuel readBytes file)"
    using assms(2) by (simp add: parseFromURLStreaming_def bodyRead_whole)
  obtain len rangeOK where probe: "probeURL sv = Some (len, rangeOK)"
    using assms(3) by (cases "probeURL sv") (auto simp: probeURL_def split: prod.splits if_splits option.splits)
  show ?thesis
  proof (cases "ParseReaderAt fuel sv \<lparr>ra_size = nat len, ra_chunk = [], ra_chunkOff = 0, ra_haveData = False\<rparr>")
    case (Inl e)
    then show ?thesis by (simp add: parseFromURL_def probe stream)
  next
    case (Inr f)
    from ParseReaderAt_sound [OF assms(1,4) this] Inr stream show ?thesis by (simp add: parseFromURL_def probe)
  qed
qed

text \<open>A server that sends at most ten bytes per range, and claims ten bytes more than the file has.\<close>

definition ex_stingy :: Server where
  "ex_stingy = \<lparr>sv_head = Some (200, ''Bytes'', Some 34),
     sv_range = (\<lambda>off end1. Reply 206 (take (min 10 (end1 + 1 - off)) (drop off ex_empty_file)) None),
     sv_get = Reply 200 ex_empty_file None, sv_ctxErr = (\<lambda>_. None)\<rparr>"

lemma ex_stingy_truthful: "truthful ex_stingy ex_empty_file"
  unfolding truthful_def ex_stingy_def by (auto intro: append_take_drop_id [symmetric])

lemma ex_empty_parses: "Parse 30 readBytes ex_empty_file =
    Inr (\<lparr>gf_Header = \<lparr>gh_Version = 3, gh_TensorCount = 0, gh_MetadataKVCount = 0\<rparr>, gf_Metadata = [], gf_TensorInfo = []\<rparr>, [])"
  by (simp add: Parse_def parseHeader_def bindP_def returnP_def readLE_def readBytes_def leNat_def ggufMagic_def ex_empty_file_def)

theorem parseFromURL_exact_witness:
  "parseFromURL 30 ex_stingy =
     Inr \<lparr>gf_Header = \<lparr>gh_Version = 3, gh_TensorCount = 0, gh_MetadataKVCount = 0\<rparr>, gf_Metadata = [], gf_TensorInfo = []\<rparr>"
proof -
  have "sv_get ex_stingy = Reply 200 ex_empty_file None" "sv_head ex_stingy \<noteq> None" "length ex_empty_file \<le> 30"
    by (simp_all add: ex_stingy_def) (simp add: ex_empty_file_def)
  from parseFromURL_exact [OF ex_stingy_truthful this] show ?thesis by (simp add: ex_empty_parses)
qed

text \<open>Over a reliable server the range requests alone are enough: the reader over them answers exactly what
  parsing the announced part of the file in memory answers, errors and end of input included, so that the whole
  file is fetched only when its header cannot be parsed at all.\<close>
lemma ParseReaderAt_exact:
  assumes "reliable sv file" and "n \<le> length file"
  shows "ParseReaderAt fuel sv \<lparr>ra_size = n, ra_chunk = [], ra_chunkOff = 0, ra_haveData = False\<rparr> =
    map_sum id fst (Parse fuel readBytes (take n file))"
proof -
  let ?s = "(0, \<lparr>ra_size = n, ra_chunk = [], ra_chunkOff = 0, ra_haveData = False\<rparr>)"
  have "section_reliable sv file ?s" using assms by (simp add: section_reliable_def cache_ok_def)
  from reliable_ranges.Parse_delivers [OF this, of fuel] show ?thesis by (simp add: ParseReaderAt_def unread_def)
qed

end
