(* ===== verification/Policy_Flags.thy ===== *)
theory Policy_Flags
  imports Go_Prelude
begin

text \<open>
  The typed flag tables of the engines (\<open>src/pkg/agent/policy/flagspecs.go\<close>): for every flag of every runtime
  whether it takes a value, whether that value is a path, and which spelling is its primary one. A Go map
  literal is an association list with distinct keys; the two large tables are written in three parts each.
\<close>

section \<open>Runtimes\<close>

definition RuntimeLlamaServer :: gostring where "RuntimeLlamaServer = ''llama-server''"
definition RuntimeLlamaCPP :: gostring where "RuntimeLlamaCPP = ''llamacpp''"
definition RuntimeMLXServer :: gostring where "RuntimeMLXServer = ''mlx-server''"
definition RuntimeTensorFold :: gostring where "RuntimeTensorFold = ''tensorfold''"
definition RuntimeVLLMSwift :: gostring where "RuntimeVLLMSwift = ''vllm-swift''"

lemmas runtime_defs = RuntimeLlamaServer_def RuntimeLlamaCPP_def RuntimeMLXServer_def RuntimeTensorFold_def RuntimeVLLMSwift_def

section \<open>Flag types\<close>

datatype FlagKind = KindBool | KindValue | KindPath
datatype PathDecode = DecodeNone | DecodeWhole | DecodeCSV | DecodeCSVColon | DecodeNameEqPath

record FlagSpec =
  fs_Kind :: FlagKind
  fs_Decode :: PathDecode
  fs_Multi :: bool
  fs_OptionalValue :: bool
  fs_Arity :: nat
  fs_Canonical :: gostring
  fs_MustExist :: bool

definition zeroSpec :: FlagSpec where
  "zeroSpec = \<lparr>fs_Kind = KindBool, fs_Decode = DecodeNone, fs_Multi = False, fs_OptionalValue = False, fs_Arity = 0,
     fs_Canonical = '''', fs_MustExist = False\<rparr>"

definition asFlag :: "FlagSpec \<Rightarrow> gostring \<Rightarrow> FlagSpec" where
  "asFlag s canonical = s\<lparr>fs_Canonical := canonical\<rparr>"

definition selfCanonical :: "(gostring \<times> FlagSpec) list \<Rightarrow> (gostring \<times> FlagSpec) list" where
  "selfCanonical table = map (\<lambda>(flag, s). (flag, if fs_Canonical s = '''' then s\<lparr>fs_Canonical := flag\<rparr> else s)) table"

definition fBool :: FlagSpec where "fBool = zeroSpec\<lparr>fs_Kind := KindBool\<rparr>"
definition fValue :: FlagSpec where "fValue = zeroSpec\<lparr>fs_Kind := KindValue\<rparr>"
definition fValue2 :: FlagSpec where "fValue2 = zeroSpec\<lparr>fs_Kind := KindValue, fs_Arity := 2\<rparr>"
definition fValueMulti :: FlagSpec where "fValueMulti = zeroSpec\<lparr>fs_Kind := KindValue, fs_Multi := True\<rparr>"
definition fValueOptional :: FlagSpec where "fValueOptional = zeroSpec\<lparr>fs_Kind := KindValue, fs_OptionalValue := True\<rparr>"
definition fPath :: FlagSpec where "fPath = zeroSpec\<lparr>fs_Kind := KindPath, fs_Decode := DecodeWhole\<rparr>"
definition fPathExists :: FlagSpec where "fPathExists = zeroSpec\<lparr>fs_Kind := KindPath, fs_Decode := DecodeWhole, fs_MustExist := True\<rparr>"
definition fPathCSV :: FlagSpec where "fPathCSV = zeroSpec\<lparr>fs_Kind := KindPath, fs_Decode := DecodeCSV\<rparr>"
definition fPathCSVColon :: FlagSpec where "fPathCSVColon = zeroSpec\<lparr>fs_Kind := KindPath, fs_Decode := DecodeCSVColon\<rparr>"
definition fPathNameEqPathMultiExists :: FlagSpec where
  "fPathNameEqPathMultiExists = zeroSpec\<lparr>fs_Kind := KindPath, fs_Decode := DecodeNameEqPath, fs_Multi := True, fs_MustExist := True\<rparr>"

lemmas spec_defs = zeroSpec_def asFlag_def fBool_def fValue_def fValue2_def fValueMulti_def fValueOptional_def fPath_def
  fPathExists_def fPathCSV_def fPathCSVColon_def fPathNameEqPathMultiExists_def

section \<open>The tables\<close>

definition llamaFlagSpecs1 :: "(gostring \<times> FlagSpec) list" where
  "llamaFlagSpecs1 = [
    (''-h'', asFlag fBool ''--help''), (''--help'', fBool), (''--usage'', asFlag fBool ''--help''),
    (''--version'', fBool), (''-cl'', asFlag fBool ''--cache-list''), (''--cache-list'', fBool),
    (''--completion-bash'', fBool), (''-t'', asFlag fValue ''--threads''), (''--threads'', fValue),
    (''-tb'', asFlag fValue ''--threads-batch''), (''--threads-batch'', fValue), (''-C'', asFlag fValue ''--cpu-mask''),
    (''--cpu-mask'', fValue), (''-Cr'', asFlag fValue ''--cpu-range''), (''--cpu-range'', fValue),
    (''--cpu-strict'', fValue), (''--prio'', fValue), (''--poll'', fValue),
    (''-Cb'', asFlag fValue ''--cpu-mask-batch''), (''--cpu-mask-batch'', fValue),
    (''-Crb'', asFlag fValue ''--cpu-range-batch''), (''--cpu-range-batch'', fValue), (''--cpu-strict-batch'', fValue),
    (''--prio-batch'', fValue), (''--poll-batch'', fValue), (''-c'', asFlag fValue ''--ctx-size''),
    (''--ctx-size'', fValue), (''-n'', asFlag fValue ''--predict''), (''--predict'', fValue),
    (''--n-predict'', asFlag fValue ''--predict''), (''-b'', asFlag fValue ''--batch-size''), (''--batch-size'', fValue),
    (''-ub'', asFlag fValue ''--ubatch-size''), (''--ubatch-size'', fValue), (''--keep'', fValue),
    (''--swa-full'', fBool), (''-fa'', asFlag fValue ''--flash-attn''), (''--flash-attn'', fValue), (''--perf'', fBool),
    (''--no-perf'', asFlag fBool ''--perf''), (''-e'', asFlag fBool ''--escape''), (''--escape'', fBool),
    (''--no-escape'', asFlag fBool ''--escape''), (''--rope-scaling'', fValue), (''--rope-scale'', fValue),
    (''--rope-freq-base'', fValue), (''--rope-freq-scale'', fValue), (''--yarn-orig-ctx'', fValue),
    (''--yarn-ext-factor'', fValue), (''--yarn-attn-factor'', fValue), (''--yarn-beta-slow'', fValue),
    (''--yarn-beta-fast'', fValue), (''-kvo'', asFlag fBool ''--kv-offload''), (''--kv-offload'', fBool),
    (''-nkvo'', asFlag fBool ''--kv-offload''), (''--no-kv-offload'', asFlag fBool ''--kv-offload''),
    (''--repack'', fBool), (''-nr'', asFlag fBool ''--repack''), (''--no-repack'', asFlag fBool ''--repack''),
    (''--no-host'', fBool), (''-ctk'', asFlag fValue ''--cache-type-k''), (''--cache-type-k'', fValue),
    (''-ctv'', asFlag fValue ''--cache-type-v''), (''--cache-type-v'', fValue),
    (''-dt'', asFlag fValue ''--defrag-thold''), (''--defrag-thold'', fValue), (''-lm'', asFlag fValue ''--load-mode''),
    (''--load-mode'', fValue), (''-lzm'', asFlag fValue ''--lazy-mode''), (''--lazy-mode'', fValue),
    (''--numa'', fValue), (''-dev'', asFlag fValue ''--device''), (''--device'', fValue), (''--list-devices'', fBool),
    (''-ot'', asFlag fValue ''--override-tensor''), (''--override-tensor'', fValue),
    (''-cmoe'', asFlag fBool ''--cpu-moe''), (''--cpu-moe'', fBool), (''-ncmoe'', asFlag fValue ''--n-cpu-moe''),
    (''--n-cpu-moe'', fValue), (''-ncffn'', asFlag fValue ''--n-cpu-ffn''), (''--n-cpu-ffn'', fValue),
    (''-ngl'', asFlag fValue ''--gpu-layers''), (''--gpu-layers'', fValue),
    (''--n-gpu-layers'', asFlag fValue ''--gpu-layers''), (''-sm'', asFlag fValue ''--split-mode''),
    (''--split-mode'', fValue), (''-ts'', asFlag fValue ''--tensor-split''), (''--tensor-split'', fValue),
    (''-mg'', asFlag fValue ''--main-gpu''), (''--main-gpu'', fValue), (''-fit'', asFlag fValue ''--fit''),
    (''--fit'', fValue), (''-fitt'', asFlag fValue ''--fit-target''), (''--fit-target'', fValue),
    (''-fitc'', asFlag fValue ''--fit-ctx''), (''--fit-ctx'', fValue), (''--check-tensors'', fBool),
    (''--override-kv'', fValue), (''--op-offload'', fBool), (''--no-op-offload'', asFlag fBool ''--op-offload''),
    (''--lora'', fPathCSV), (''--lora-scaled'', fPathCSVColon), (''--control-vector'', fPathCSV),
    (''--control-vector-scaled'', fPathCSVColon), (''--control-vector-layer-range'', fValue2),
    (''-m'', asFlag fPath ''--model''), (''--model'', fPath), (''-mu'', asFlag fValue ''--model-url''),
    (''--model-url'', fValue), (''-dr'', asFlag fValue ''--docker-repo''), (''--docker-repo'', fValue),
    (''-hf'', asFlag fValue ''--hf-repo''), (''-hfr'', asFlag fValue ''--hf-repo''), (''--hf-repo'', fValue),
    (''-hff'', asFlag fPath ''--hf-file''), (''--hf-file'', fPath), (''-hft'', asFlag fValue ''--hf-token''),
    (''--hf-token'', fValue), (''--log-disable'', fBool), (''--log-file'', fPath), (''--log-jsonl'', fBool),
    (''--no-log-jsonl'', asFlag fBool ''--log-jsonl''), (''--log-colors'', fValue), (''-v'', asFlag fBool ''--verbose''),
    (''--verbose'', fBool), (''--log-verbose'', asFlag fBool ''--verbose''), (''--offline'', fBool),
    (''-lv'', asFlag fValue ''--verbosity''), (''--verbosity'', fValue),
    (''--log-verbosity'', asFlag fValue ''--verbosity''), (''--log-prefix'', fBool),
    (''--no-log-prefix'', asFlag fBool ''--log-prefix''), (''--log-timestamps'', fBool),
    (''--no-log-timestamps'', asFlag fBool ''--log-timestamps''), (''--spec-draft-type-k'', fValue),
    (''-ctkd'', asFlag fValue ''--spec-draft-type-k'')]"

definition llamaFlagSpecs2 :: "(gostring \<times> FlagSpec) list" where
  "llamaFlagSpecs2 = [
    (''--cache-type-k-draft'', asFlag fValue ''--spec-draft-type-k''), (''--spec-draft-type-v'', fValue),
    (''-ctvd'', asFlag fValue ''--spec-draft-type-v''),
    (''--cache-type-v-draft'', asFlag fValue ''--spec-draft-type-v''), (''--samplers'', fValue),
    (''-s'', asFlag fValue ''--seed''), (''--seed'', fValue), (''--sampler-seq'', fValue),
    (''--sampling-seq'', asFlag fValue ''--sampler-seq''), (''--ignore-eos'', fBool), (''--temp'', fValue),
    (''--temperature'', asFlag fValue ''--temp''), (''--top-k'', fValue), (''--top-p'', fValue), (''--min-p'', fValue),
    (''--top-nsigma'', fValue), (''--top-n-sigma'', asFlag fValue ''--top-nsigma''), (''--xtc-probability'', fValue),
    (''--xtc-threshold'', fValue), (''--typical'', fValue), (''--typical-p'', asFlag fValue ''--typical''),
    (''--repeat-last-n'', fValue), (''--repeat-penalty'', fValue), (''--presence-penalty'', fValue),
    (''--frequency-penalty'', fValue), (''--dry-multiplier'', fValue), (''--dry-base'', fValue),
    (''--dry-allowed-length'', fValue), (''--dry-penalty-last-n'', fValue), (''--dry-sequence-breaker'', fValue),
    (''--adaptive-target'', fValue), (''--adaptive-decay'', fValue), (''--dynatemp-range'', fValue),
    (''--dynatemp-exp'', fValue), (''--mirostat'', fValue), (''--mirostat-lr'', fValue), (''--mirostat-ent'', fValue),
    (''-l'', asFlag fValue ''--logit-bias''), (''--logit-bias'', fValue), (''--grammar'', fValue),
    (''--grammar-file'', fPath), (''-j'', asFlag fValue ''--json-schema''), (''--json-schema'', fValue),
    (''-jf'', asFlag fPath ''--json-schema-file''), (''--json-schema-file'', fPath),
    (''-bs'', asFlag fBool ''--backend-sampling''), (''--backend-sampling'', fBool), (''--spec-draft-hf'', fValue),
    (''-hfd'', asFlag fValue ''--spec-draft-hf''), (''-hfrd'', asFlag fValue ''--spec-draft-hf''),
    (''--hf-repo-draft'', asFlag fValue ''--spec-draft-hf''), (''--spec-draft-threads'', fValue),
    (''-td'', asFlag fValue ''--spec-draft-threads''), (''--threads-draft'', asFlag fValue ''--spec-draft-threads''),
    (''--spec-draft-threads-batch'', fValue), (''-tbd'', asFlag fValue ''--spec-draft-threads-batch''),
    (''--threads-batch-draft'', asFlag fValue ''--spec-draft-threads-batch''), (''--spec-draft-cpu-mask'', fValue),
    (''-Cd'', asFlag fValue ''--spec-draft-cpu-mask''), (''--cpu-mask-draft'', asFlag fValue ''--spec-draft-cpu-mask''),
    (''--spec-draft-cpu-range'', fValue), (''-Crd'', asFlag fValue ''--spec-draft-cpu-range''),
    (''--cpu-range-draft'', asFlag fValue ''--spec-draft-cpu-range''), (''--spec-draft-cpu-strict'', fValue),
    (''--cpu-strict-draft'', asFlag fValue ''--spec-draft-cpu-strict''), (''--spec-draft-prio'', fValue),
    (''--prio-draft'', asFlag fValue ''--spec-draft-prio''), (''--spec-draft-poll'', fValue),
    (''--poll-draft'', asFlag fValue ''--spec-draft-poll''), (''--spec-draft-cpu-mask-batch'', fValue),
    (''-Cbd'', asFlag fValue ''--spec-draft-cpu-mask-batch''),
    (''--cpu-mask-batch-draft'', asFlag fValue ''--spec-draft-cpu-mask-batch''),
    (''--spec-draft-cpu-strict-batch'', fValue),
    (''--cpu-strict-batch-draft'', asFlag fValue ''--spec-draft-cpu-strict-batch''),
    (''--spec-draft-prio-batch'', fValue), (''--prio-batch-draft'', asFlag fValue ''--spec-draft-prio-batch''),
    (''--spec-draft-poll-batch'', fValue), (''--poll-batch-draft'', asFlag fValue ''--spec-draft-poll-batch''),
    (''--spec-draft-override-tensor'', fValue), (''-otd'', asFlag fValue ''--spec-draft-override-tensor''),
    (''--override-tensor-draft'', asFlag fValue ''--spec-draft-override-tensor''), (''--spec-draft-cpu-moe'', fBool),
    (''-cmoed'', asFlag fBool ''--spec-draft-cpu-moe''), (''--cpu-moe-draft'', asFlag fBool ''--spec-draft-cpu-moe''),
    (''--spec-draft-n-cpu-moe'', fValue), (''--spec-draft-ncmoe'', asFlag fValue ''--spec-draft-n-cpu-moe''),
    (''-ncmoed'', asFlag fValue ''--spec-draft-n-cpu-moe''),
    (''--n-cpu-moe-draft'', asFlag fValue ''--spec-draft-n-cpu-moe''), (''--spec-draft-n-max'', fValue),
    (''--spec-draft-n-min'', fValue), (''--spec-synth-len'', fValue), (''--spec-synth-rates'', fValue),
    (''--spec-draft-p-split'', fValue), (''--draft-p-split'', asFlag fValue ''--spec-draft-p-split''),
    (''--spec-draft-p-min'', fValue), (''--draft-p-min'', asFlag fValue ''--spec-draft-p-min''),
    (''--spec-draft-backend-sampling'', fBool),
    (''--no-spec-draft-backend-sampling'', asFlag fBool ''--spec-draft-backend-sampling''),
    (''--spec-draft-device'', fValue), (''-devd'', asFlag fValue ''--spec-draft-device''),
    (''--device-draft'', asFlag fValue ''--spec-draft-device''), (''--spec-draft-ngl'', fValue),
    (''-ngld'', asFlag fValue ''--spec-draft-ngl''), (''--gpu-layers-draft'', asFlag fValue ''--spec-draft-ngl''),
    (''--n-gpu-layers-draft'', asFlag fValue ''--spec-draft-ngl''), (''--spec-draft-model'', fPath),
    (''-md'', asFlag fPath ''--spec-draft-model''), (''--model-draft'', asFlag fPath ''--spec-draft-model''),
    (''--spec-type'', fValue), (''--spec-ngram-mod-n-min'', fValue), (''--spec-ngram-mod-n-max'', fValue),
    (''--spec-ngram-mod-n-match'', fValue), (''--spec-ngram-simple-size-n'', fValue),
    (''--spec-ngram-simple-size-m'', fValue), (''--spec-ngram-simple-min-hits'', fValue),
    (''--spec-ngram-map-k-size-n'', fValue), (''--spec-ngram-map-k-size-m'', fValue),
    (''--spec-ngram-map-k-min-hits'', fValue), (''--spec-ngram-map-k4v-size-n'', fValue),
    (''--spec-ngram-map-k4v-size-m'', fValue), (''--spec-ngram-map-k4v-min-hits'', fValue), (''--draft'', fValue),
    (''--draft-n'', asFlag fValue ''--draft''), (''--draft-max'', asFlag fValue ''--draft''), (''--draft-min'', fValue),
    (''--draft-n-min'', asFlag fValue ''--draft-min''), (''--spec-ngram-size-n'', fValue),
    (''--spec-ngram-size-m'', fValue), (''--spec-ngram-min-hits'', fValue),
    (''-lcs'', asFlag fPath ''--lookup-cache-static''), (''--lookup-cache-static'', fPath),
    (''-lcd'', asFlag fPath ''--lookup-cache-dynamic''), (''--lookup-cache-dynamic'', fPath),
    (''--kv-unified-per-slot'', fValue), (''-ctxcp'', asFlag fValue ''--ctx-checkpoints''),
    (''--ctx-checkpoints'', fValue), (''--swa-checkpoints'', asFlag fValue ''--ctx-checkpoints'')]"

definition llamaFlagSpecs3 :: "(gostring \<times> FlagSpec) list" where
  "llamaFlagSpecs3 = [
    (''-cms'', asFlag fValue ''--checkpoint-min-step''), (''--checkpoint-min-step'', fValue),
    (''-cram'', asFlag fValue ''--cache-ram''), (''--cache-ram'', fValue), (''-kvu'', asFlag fBool ''--kv-unified''),
    (''--kv-unified'', fBool), (''-no-kvu'', asFlag fBool ''--kv-unified''),
    (''--no-kv-unified'', asFlag fBool ''--kv-unified''), (''--cache-idle-slots'', fBool),
    (''--no-cache-idle-slots'', asFlag fBool ''--cache-idle-slots''), (''--context-shift'', fBool),
    (''--no-context-shift'', asFlag fBool ''--context-shift''), (''-r'', asFlag fValue ''--reverse-prompt''),
    (''--reverse-prompt'', fValue), (''-sp'', asFlag fBool ''--special''), (''--special'', fBool), (''--warmup'', fBool),
    (''--no-warmup'', asFlag fBool ''--warmup''), (''--spm-infill'', fBool), (''--pooling'', fValue),
    (''-np'', asFlag fValue ''--parallel''), (''--parallel'', fValue), (''-cb'', asFlag fBool ''--cont-batching''),
    (''--cont-batching'', fBool), (''-nocb'', asFlag fBool ''--cont-batching''),
    (''--no-cont-batching'', asFlag fBool ''--cont-batching''), (''-mm'', asFlag fPath ''--mmproj''),
    (''--mmproj'', fPath), (''-mmu'', asFlag fValue ''--mmproj-url''), (''--mmproj-url'', fValue),
    (''--mmproj-auto'', fBool), (''--no-mmproj'', asFlag fBool ''--mmproj-auto''),
    (''--no-mmproj-auto'', asFlag fBool ''--mmproj-auto''), (''--mmproj-offload'', fBool),
    (''--no-mmproj-offload'', asFlag fBool ''--mmproj-offload''), (''-mmdev'', asFlag fValue ''--mmproj-device''),
    (''--mmproj-device'', fValue), (''--image-min-tokens'', fValue), (''--image-max-tokens'', fValue),
    (''--mtmd-batch-max-tokens'', fValue), (''--video-fps'', fValue), (''--video-timestamp-interval'', fValue),
    (''--video-ffmpeg-dir'', fPath), (''-a'', asFlag fValue ''--alias''), (''--alias'', fValue), (''--tags'', fValue),
    (''--embd-normalize'', fValue), (''--host'', fPath), (''--port'', fValue), (''--reuse-port'', fBool),
    (''--path'', fPath), (''--cors-origins'', fValue), (''--cors-methods'', fValue), (''--cors-headers'', fValue),
    (''--cors-credentials'', fBool), (''--no-cors-credentials'', asFlag fBool ''--cors-credentials''),
    (''--api-prefix'', fValue), (''--ui-config'', fValue), (''--webui-config'', asFlag fValue ''--ui-config''),
    (''--ui-config-file'', fPath), (''--webui-config-file'', asFlag fPath ''--ui-config-file''),
    (''--ui-mcp-proxy'', fBool), (''--webui-mcp-proxy'', asFlag fBool ''--ui-mcp-proxy''),
    (''--no-ui-mcp-proxy'', asFlag fBool ''--ui-mcp-proxy''),
    (''--no-webui-mcp-proxy'', asFlag fBool ''--ui-mcp-proxy''), (''--tools'', fValue), (''--tools-runtime'', fValue),
    (''--mcp-servers-config'', fPath), (''--mcp-servers-json'', fValue), (''-ag'', asFlag fBool ''--agent''),
    (''--agent'', fBool), (''-no-ag'', asFlag fBool ''--agent''), (''--no-agent'', asFlag fBool ''--agent''),
    (''--ui'', fBool), (''--webui'', asFlag fBool ''--ui''), (''--no-ui'', asFlag fBool ''--ui''),
    (''--no-webui'', asFlag fBool ''--ui''), (''--embedding'', fBool), (''--embeddings'', asFlag fBool ''--embedding''),
    (''--rerank'', fBool), (''--reranking'', asFlag fBool ''--rerank''), (''--api-key'', fValue),
    (''--api-key-file'', fPath), (''--ssl-key-file'', fPath), (''--ssl-cert-file'', fPath),
    (''--chat-template-kwargs'', fValue), (''-to'', asFlag fValue ''--timeout''), (''--timeout'', fValue),
    (''--sse-ping-interval'', fValue), (''--threads-http'', fValue), (''--cache-prompt'', fBool),
    (''--no-cache-prompt'', asFlag fBool ''--cache-prompt''), (''--cache-reuse'', fValue), (''--metrics'', fBool),
    (''--props'', fBool), (''--slots'', fBool), (''--no-slots'', asFlag fBool ''--slots''),
    (''--slot-save-path'', fPath), (''--media-path'', fPath), (''--models-dir'', fPath), (''--models-preset'', fPath),
    (''--models-max'', fValue), (''--models-autoload'', fBool),
    (''--no-models-autoload'', asFlag fBool ''--models-autoload''), (''--jinja'', fBool),
    (''--no-jinja'', asFlag fBool ''--jinja''), (''--reasoning-format'', fValue),
    (''-rea'', asFlag fValue ''--reasoning''), (''--reasoning'', fValue), (''--reasoning-effort'', fValue),
    (''--reasoning-budget'', fValue), (''--reasoning-budget-message'', fValue), (''--reasoning-preserve'', fBool),
    (''--no-reasoning-preserve'', asFlag fBool ''--reasoning-preserve''), (''--chat-template'', fValue),
    (''--chat-template-file'', fPath), (''--skip-chat-parsing'', fBool),
    (''--no-skip-chat-parsing'', asFlag fBool ''--skip-chat-parsing''), (''--prefill-assistant'', fBool),
    (''--no-prefill-assistant'', asFlag fBool ''--prefill-assistant''),
    (''-sps'', asFlag fValue ''--slot-prompt-similarity''), (''--slot-prompt-similarity'', fValue),
    (''--lora-init-without-apply'', fBool), (''--sleep-idle-seconds'', fValue), (''--log-prompts-dir'', fPath),
    (''--embd-gemma-default'', fBool), (''--fim-qwen-1.5b-default'', fBool), (''--fim-qwen-3b-default'', fBool),
    (''--fim-qwen-7b-default'', fBool), (''--fim-qwen-7b-spec'', fBool), (''--fim-qwen-14b-spec'', fBool),
    (''--fim-qwen-30b-default'', fBool), (''--gpt-oss-20b-default'', fBool), (''--gpt-oss-120b-default'', fBool),
    (''--vision-gemma-4b-default'', fBool), (''--vision-gemma-12b-default'', fBool), (''--spec-default'', fBool)]"

definition llamaFlagSpecs :: "(gostring \<times> FlagSpec) list" where
  "llamaFlagSpecs = llamaFlagSpecs1 @ llamaFlagSpecs2 @ llamaFlagSpecs3"

definition mlxServerFlagSpecs :: "(gostring \<times> FlagSpec) list" where
  "mlxServerFlagSpecs = [
    (''--model'', fPath), (''--host'', fValue), (''--port'', fValue), (''--max-slots'', fValue),
    (''--tool-call-format'', fValue), (''--reasoning'', fValue), (''-h'', asFlag fBool ''--help''), (''--help'', fBool)]"

definition tensorfoldFlagSpecs :: "(gostring \<times> FlagSpec) list" where
  "tensorfoldFlagSpecs = [
    (''-h'', asFlag fBool ''--help''), (''--help'', fBool), (''--host'', fValue), (''--port'', fValue),
    (''--name'', fValue), (''--alias'', fValue), (''--context'', fValue), (''--max-tokens'', fValue),
    (''--temperature'', fValue), (''--top-p'', fValue), (''--top-k'', fValue), (''--thinking'', fBool),
    (''--no-thinking'', asFlag fBool ''--thinking''), (''--reasoning-effort'', fValue), (''--thinking-budget'', fValue),
    (''--no-drafts'', fBool), (''--drafter'', fPath), (''--drafter-bits'', fValue), (''--mtp-drafts'', fValue),
    (''--lane-kernels'', fValue), (''--prompt-cache-gib'', fValue), (''--snapshot-dir'', fPath),
    (''--max-snapshots'', fValue), (''--mlx-cache-gib'', fValue), (''--no-update-check'', fBool),
    (''--backend'', fValue), (''--tp'', fValue), (''--rank'', fValue), (''--master'', fValue), (''--master-port'', fValue)]"

definition vllmSwiftFlagSpecs1 :: "(gostring \<times> FlagSpec) list" where
  "vllmSwiftFlagSpecs1 = [
    (''--aggregate-engine-logging'', fBool), (''--api-server-count'', fValue),
    (''-asc'', asFlag fValue ''--api-server-count''), (''--config'', fPath), (''--disable-log-stats'', fBool),
    (''--enable-log-requests'', fBool), (''--no-enable-log-requests'', asFlag fBool ''--enable-log-requests''),
    (''--fail-on-environ-validation'', fBool),
    (''--no-fail-on-environ-validation'', asFlag fBool ''--fail-on-environ-validation''),
    (''--gdn-prefill-backend'', fValue), (''--headless'', fBool), (''--shutdown-timeout'', fValue),
    (''-h'', asFlag fBool ''--help''), (''--help'', fBool), (''--allow-credentials'', fBool),
    (''--no-allow-credentials'', asFlag fBool ''--allow-credentials''), (''--allowed-headers'', fValue),
    (''--allowed-methods'', fValue), (''--allowed-origins'', fValue), (''--api-key'', fValueMulti),
    (''--chat-template'', fPath), (''--chat-template-content-format'', fValue),
    (''--default-chat-template-kwargs'', fValue), (''--disable-access-log-for-endpoints'', fValue),
    (''--disable-fastapi-docs'', fBool), (''--no-disable-fastapi-docs'', asFlag fBool ''--disable-fastapi-docs''),
    (''--disable-uvicorn-access-log'', fBool),
    (''--no-disable-uvicorn-access-log'', asFlag fBool ''--disable-uvicorn-access-log''),
    (''--enable-auto-tool-choice'', fBool),
    (''--no-enable-auto-tool-choice'', asFlag fBool ''--enable-auto-tool-choice''),
    (''--enable-force-include-usage'', fBool),
    (''--no-enable-force-include-usage'', asFlag fBool ''--enable-force-include-usage''),
    (''--enable-log-deltas'', fBool), (''--no-enable-log-deltas'', asFlag fBool ''--enable-log-deltas''),
    (''--enable-log-outputs'', fBool), (''--no-enable-log-outputs'', asFlag fBool ''--enable-log-outputs''),
    (''--enable-offline-docs'', fBool), (''--no-enable-offline-docs'', asFlag fBool ''--enable-offline-docs''),
    (''--enable-prompt-tokens-details'', fBool),
    (''--no-enable-prompt-tokens-details'', asFlag fBool ''--enable-prompt-tokens-details''),
    (''--enable-request-id-headers'', fBool),
    (''--no-enable-request-id-headers'', asFlag fBool ''--enable-request-id-headers''),
    (''--enable-server-load-tracking'', fBool),
    (''--no-enable-server-load-tracking'', asFlag fBool ''--enable-server-load-tracking''),
    (''--enable-ssl-refresh'', fBool), (''--no-enable-ssl-refresh'', asFlag fBool ''--enable-ssl-refresh''),
    (''--enable-tokenizer-info-endpoint'', fBool),
    (''--no-enable-tokenizer-info-endpoint'', asFlag fBool ''--enable-tokenizer-info-endpoint''),
    (''--exclude-tools-when-tool-choice-none'', fBool),
    (''--no-exclude-tools-when-tool-choice-none'', asFlag fBool ''--exclude-tools-when-tool-choice-none''),
    (''--h11-max-header-count'', fValue), (''--h11-max-incomplete-event-size'', fValue), (''--host'', fValue),
    (''--log-config-file'', fPath), (''--log-error-stack'', fBool),
    (''--no-log-error-stack'', asFlag fBool ''--log-error-stack''), (''--lora-modules'', fPathNameEqPathMultiExists),
    (''--max-log-len'', fValue), (''--middleware'', fValue), (''--port'', fValue), (''--response-role'', fValue),
    (''--return-tokens-as-token-ids'', fBool),
    (''--no-return-tokens-as-token-ids'', asFlag fBool ''--return-tokens-as-token-ids''), (''--root-path'', fValue),
    (''--ssl-ca-certs'', fPath), (''--ssl-cert-reqs'', fValue), (''--ssl-certfile'', fPath), (''--ssl-ciphers'', fValue),
    (''--ssl-keyfile'', fPath), (''--tokens-only'', fBool), (''--no-tokens-only'', asFlag fBool ''--tokens-only''),
    (''--tool-call-parser'', fValue), (''--tool-parser-plugin'', fPath), (''--tool-server'', fValue),
    (''--trust-request-chat-template'', fBool),
    (''--no-trust-request-chat-template'', asFlag fBool ''--trust-request-chat-template''), (''--uds'', fPath),
    (''--uvicorn-log-level'', fValue), (''--allow-deprecated-quantization'', fBool),
    (''--no-allow-deprecated-quantization'', asFlag fBool ''--allow-deprecated-quantization''),
    (''--allowed-local-media-path'', fPath), (''--allowed-media-domains'', fValueMulti), (''--code-revision'', fValue),
    (''--config-format'', fValue), (''--convert'', fValue), (''--disable-cascade-attn'', fBool),
    (''--no-disable-cascade-attn'', asFlag fBool ''--disable-cascade-attn''), (''--disable-sliding-window'', fBool),
    (''--no-disable-sliding-window'', asFlag fBool ''--disable-sliding-window''), (''--dtype'', fValue),
    (''--enable-prompt-embeds'', fBool), (''--no-enable-prompt-embeds'', asFlag fBool ''--enable-prompt-embeds''),
    (''--enable-return-routed-experts'', fBool),
    (''--no-enable-return-routed-experts'', asFlag fBool ''--enable-return-routed-experts''),
    (''--enable-sleep-mode'', fBool), (''--no-enable-sleep-mode'', asFlag fBool ''--enable-sleep-mode''),
    (''--enforce-eager'', fBool), (''--no-enforce-eager'', asFlag fBool ''--enforce-eager''),
    (''--generation-config'', fPathExists), (''--hf-config-path'', fPathExists), (''--hf-overrides'', fValue),
    (''--hf-token'', fValueOptional), (''--io-processor-plugin'', fValue), (''--logits-processors'', fValueMulti),
    (''--logprobs-mode'', fValue), (''--max-logprobs'', fValue)]"

definition vllmSwiftFlagSpecs2 :: "(gostring \<times> FlagSpec) list" where
  "vllmSwiftFlagSpecs2 = [
    (''--max-model-len'', fValue), (''--model'', fPath), (''--model-impl'', fValue),
    (''--override-attention-dtype'', fValue), (''--override-generation-config'', fValue), (''--pooler-config'', fValue),
    (''--quantization'', fValue), (''-q'', asFlag fValue ''--quantization''), (''--renderer-num-workers'', fValue),
    (''--revision'', fValue), (''--runner'', fValue), (''--seed'', fValue), (''--served-model-name'', fValueMulti),
    (''--skip-tokenizer-init'', fBool), (''--no-skip-tokenizer-init'', asFlag fBool ''--skip-tokenizer-init''),
    (''--tokenizer'', fPathExists), (''--tokenizer-mode'', fValue), (''--tokenizer-revision'', fValue),
    (''--trust-remote-code'', fBool), (''--no-trust-remote-code'', asFlag fBool ''--trust-remote-code''),
    (''--download-dir'', fPath), (''--ignore-patterns'', fValueMulti), (''--load-format'', fValue),
    (''--model-loader-extra-config'', fValue), (''--pt-load-map-location'', fValue),
    (''--safetensors-load-strategy'', fValue), (''--use-tqdm-on-load'', fBool),
    (''--no-use-tqdm-on-load'', asFlag fBool ''--use-tqdm-on-load''), (''--attention-backend'', fValue),
    (''--reasoning-parser'', fValue), (''--reasoning-parser-plugin'', fPath), (''--all2all-backend'', fValue),
    (''--cp-kv-cache-interleave-size'', fValue), (''--data-parallel-address'', fValue),
    (''-dpa'', asFlag fValue ''--data-parallel-address''), (''--data-parallel-backend'', fValue),
    (''-dpb'', asFlag fValue ''--data-parallel-backend''), (''--data-parallel-external-lb'', fBool),
    (''--no-data-parallel-external-lb'', asFlag fBool ''--data-parallel-external-lb''),
    (''-dpe'', asFlag fBool ''--data-parallel-external-lb''), (''--data-parallel-hybrid-lb'', fBool),
    (''--no-data-parallel-hybrid-lb'', asFlag fBool ''--data-parallel-hybrid-lb''),
    (''-dph'', asFlag fBool ''--data-parallel-hybrid-lb''), (''--data-parallel-rank'', fValue),
    (''-dpn'', asFlag fValue ''--data-parallel-rank''), (''--data-parallel-rpc-port'', fValue),
    (''-dpp'', asFlag fValue ''--data-parallel-rpc-port''), (''--data-parallel-size'', fValue),
    (''-dp'', asFlag fValue ''--data-parallel-size''), (''--data-parallel-size-local'', fValue),
    (''-dpl'', asFlag fValue ''--data-parallel-size-local''), (''--data-parallel-start-rank'', fValue),
    (''-dpr'', asFlag fValue ''--data-parallel-start-rank''), (''--dbo-decode-token-threshold'', fValue),
    (''--dbo-prefill-token-threshold'', fValue), (''--dcp-comm-backend'', fValue),
    (''--dcp-kv-cache-interleave-size'', fValue), (''--decode-context-parallel-size'', fValue),
    (''-dcp'', asFlag fValue ''--decode-context-parallel-size''), (''--disable-custom-all-reduce'', fBool),
    (''--no-disable-custom-all-reduce'', asFlag fBool ''--disable-custom-all-reduce''),
    (''--disable-nccl-for-dp-synchronization'', fBool),
    (''--no-disable-nccl-for-dp-synchronization'', asFlag fBool ''--disable-nccl-for-dp-synchronization''),
    (''--distributed-executor-backend'', fValue), (''--distributed-timeout-seconds'', fValue), (''--enable-dbo'', fBool),
    (''--no-enable-dbo'', asFlag fBool ''--enable-dbo''), (''--enable-elastic-ep'', fBool),
    (''--no-enable-elastic-ep'', asFlag fBool ''--enable-elastic-ep''), (''--enable-ep-weight-filter'', fBool),
    (''--no-enable-ep-weight-filter'', asFlag fBool ''--enable-ep-weight-filter''), (''--enable-eplb'', fBool),
    (''--no-enable-eplb'', asFlag fBool ''--enable-eplb''), (''--enable-expert-parallel'', fBool),
    (''--no-enable-expert-parallel'', asFlag fBool ''--enable-expert-parallel''),
    (''-ep'', asFlag fBool ''--enable-expert-parallel''), (''--eplb-config'', fValue),
    (''--expert-placement-strategy'', fValue), (''--master-addr'', fValue), (''--master-port'', fValue),
    (''--max-parallel-loading-workers'', fValue), (''--nnodes'', fValue), (''-n'', asFlag fValue ''--nnodes''),
    (''--node-rank'', fValue), (''-r'', asFlag fValue ''--node-rank''), (''--pipeline-parallel-size'', fValue),
    (''-pp'', asFlag fValue ''--pipeline-parallel-size''), (''--prefill-context-parallel-size'', fValue),
    (''-pcp'', asFlag fValue ''--prefill-context-parallel-size''), (''--ray-workers-use-nsight'', fBool),
    (''--no-ray-workers-use-nsight'', asFlag fBool ''--ray-workers-use-nsight''), (''--tensor-parallel-size'', fValue),
    (''-tp'', asFlag fValue ''--tensor-parallel-size''), (''--ubatch-size'', fValue), (''--worker-cls'', fValue),
    (''--worker-extension-cls'', fValue), (''--block-size'', fValue), (''--calculate-kv-scales'', fBool),
    (''--no-calculate-kv-scales'', asFlag fBool ''--calculate-kv-scales''), (''--enable-prefix-caching'', fBool),
    (''--no-enable-prefix-caching'', asFlag fBool ''--enable-prefix-caching''), (''--gpu-memory-utilization'', fValue),
    (''--kv-cache-dtype'', fValue), (''--kv-cache-dtype-skip-layers'', fValueMulti),
    (''--kv-cache-memory-bytes'', fValue), (''--kv-offloading-backend'', fValue)]"

definition vllmSwiftFlagSpecs3 :: "(gostring \<times> FlagSpec) list" where
  "vllmSwiftFlagSpecs3 = [
    (''--kv-offloading-size'', fValue), (''--kv-sharing-fast-prefill'', fBool),
    (''--no-kv-sharing-fast-prefill'', asFlag fBool ''--kv-sharing-fast-prefill''), (''--mamba-block-size'', fValue),
    (''--mamba-cache-dtype'', fValue), (''--mamba-cache-mode'', fValue), (''--mamba-ssm-cache-dtype'', fValue),
    (''--num-gpu-blocks-override'', fValue), (''--prefix-caching-hash-algo'', fValue), (''--cpu-offload-gb'', fValue),
    (''--cpu-offload-params'', fValueMulti), (''--offload-backend'', fValue), (''--offload-group-size'', fValue),
    (''--offload-num-in-group'', fValue), (''--offload-params'', fValueMulti), (''--offload-prefetch-step'', fValue),
    (''--enable-mm-embeds'', fBool), (''--no-enable-mm-embeds'', asFlag fBool ''--enable-mm-embeds''),
    (''--interleave-mm-strings'', fBool), (''--no-interleave-mm-strings'', asFlag fBool ''--interleave-mm-strings''),
    (''--language-model-only'', fBool), (''--no-language-model-only'', asFlag fBool ''--language-model-only''),
    (''--limit-mm-per-prompt'', fValue), (''--media-io-kwargs'', fValue), (''--mm-encoder-attn-backend'', fValue),
    (''--mm-encoder-only'', fBool), (''--no-mm-encoder-only'', asFlag fBool ''--mm-encoder-only''),
    (''--mm-encoder-tp-mode'', fValue), (''--mm-processor-cache-gb'', fValue), (''--mm-processor-cache-type'', fValue),
    (''--mm-processor-kwargs'', fValue), (''--mm-shm-cache-max-object-size-mb'', fValue), (''--mm-tensor-ipc'', fValue),
    (''--skip-mm-profiling'', fBool), (''--no-skip-mm-profiling'', asFlag fBool ''--skip-mm-profiling''),
    (''--video-pruning-rate'', fValue), (''--default-mm-loras'', fPath), (''--enable-lora'', fBool),
    (''--no-enable-lora'', asFlag fBool ''--enable-lora''), (''--enable-tower-connector-lora'', fBool),
    (''--no-enable-tower-connector-lora'', asFlag fBool ''--enable-tower-connector-lora''),
    (''--fully-sharded-loras'', fBool), (''--no-fully-sharded-loras'', asFlag fBool ''--fully-sharded-loras''),
    (''--lora-dtype'', fValue), (''--lora-target-modules'', fValueMulti), (''--max-cpu-loras'', fValue),
    (''--max-lora-rank'', fValue), (''--max-loras'', fValue), (''--specialize-active-lora'', fBool),
    (''--no-specialize-active-lora'', asFlag fBool ''--specialize-active-lora''),
    (''--collect-detailed-traces'', fValueMulti), (''--cudagraph-metrics'', fBool),
    (''--no-cudagraph-metrics'', asFlag fBool ''--cudagraph-metrics''), (''--enable-layerwise-nvtx-tracing'', fBool),
    (''--no-enable-layerwise-nvtx-tracing'', asFlag fBool ''--enable-layerwise-nvtx-tracing''),
    (''--enable-logging-iteration-details'', fBool),
    (''--no-enable-logging-iteration-details'', asFlag fBool ''--enable-logging-iteration-details''),
    (''--enable-mfu-metrics'', fBool), (''--no-enable-mfu-metrics'', asFlag fBool ''--enable-mfu-metrics''),
    (''--kv-cache-metrics'', fBool), (''--no-kv-cache-metrics'', asFlag fBool ''--kv-cache-metrics''),
    (''--kv-cache-metrics-sample'', fValue), (''--otlp-traces-endpoint'', fValue),
    (''--show-hidden-metrics-for-version'', fValue), (''--async-scheduling'', fBool),
    (''--no-async-scheduling'', asFlag fBool ''--async-scheduling''), (''--disable-chunked-mm-input'', fBool),
    (''--no-disable-chunked-mm-input'', asFlag fBool ''--disable-chunked-mm-input''),
    (''--disable-hybrid-kv-cache-manager'', fBool),
    (''--no-disable-hybrid-kv-cache-manager'', asFlag fBool ''--disable-hybrid-kv-cache-manager''),
    (''--enable-chunked-prefill'', fBool), (''--no-enable-chunked-prefill'', asFlag fBool ''--enable-chunked-prefill''),
    (''--long-prefill-token-threshold'', fValue), (''--max-long-partial-prefills'', fValue),
    (''--max-num-batched-tokens'', fValue), (''--max-num-partial-prefills'', fValue), (''--max-num-seqs'', fValue),
    (''--scheduler-cls'', fValue), (''--scheduler-reserve-full-isl'', fBool),
    (''--no-scheduler-reserve-full-isl'', asFlag fBool ''--scheduler-reserve-full-isl''),
    (''--scheduling-policy'', fValue), (''--stream-interval'', fValue), (''--cudagraph-capture-sizes'', fValueMulti),
    (''--max-cudagraph-capture-size'', fValue), (''--enable-flashinfer-autotune'', fBool),
    (''--no-enable-flashinfer-autotune'', asFlag fBool ''--enable-flashinfer-autotune''), (''--moe-backend'', fValue),
    (''--additional-config'', fValue), (''--attention-config'', fValue), (''-ac'', asFlag fValue ''--attention-config''),
    (''--compilation-config'', fValue), (''-cc'', asFlag fValue ''--compilation-config''),
    (''--ec-transfer-config'', fValue), (''--kernel-config'', fValue), (''--kv-events-config'', fValue),
    (''--kv-transfer-config'', fValue), (''--optimization-level'', fValue), (''--performance-mode'', fValue),
    (''--profiler-config'', fValue), (''--reasoning-config'', fValue), (''--speculative-config'', fValue),
    (''-sc'', asFlag fValue ''--speculative-config''), (''--structured-outputs-config'', fValue),
    (''--weight-transfer-config'', fValue)]"

definition vllmSwiftFlagSpecs :: "(gostring \<times> FlagSpec) list" where
  "vllmSwiftFlagSpecs = vllmSwiftFlagSpecs1 @ vllmSwiftFlagSpecs2 @ vllmSwiftFlagSpecs3"

definition flagSpecs :: "gostring \<Rightarrow> (gostring \<times> FlagSpec) list" where
  "flagSpecs runtime =
     (if runtime = RuntimeLlamaCPP \<or> runtime = RuntimeLlamaServer then selfCanonical llamaFlagSpecs
      else if runtime = RuntimeMLXServer then selfCanonical mlxServerFlagSpecs
      else if runtime = RuntimeTensorFold then selfCanonical tensorfoldFlagSpecs
      else if runtime = RuntimeVLLMSwift then selfCanonical vllmSwiftFlagSpecs
      else [])"

definition specFor :: "gostring \<Rightarrow> gostring \<Rightarrow> FlagSpec option" where
  "specFor runtime normalizedFlag = map_of (flagSpecs runtime) normalizedFlag"

definition isNonPathLiteral :: "gostring \<Rightarrow> gostring \<Rightarrow> gostring \<Rightarrow> bool" where
  "isNonPathLiteral runtime flag value =
     (if runtime = RuntimeTensorFold \<and> flag = ''--drafter'' then value = ''auto'' \<or> value = ''none''
      else if runtime = RuntimeTensorFold \<and> flag = ''--snapshot-dir'' then toLower value = ''none''
      else if runtime = RuntimeVLLMSwift \<and> flag = ''--generation-config'' then value = ''auto'' \<or> value = ''vllm''
      else False)"

section \<open>The tables are consistent\<close>

lemma selfCanonical_Nil [simp]: "selfCanonical [] = []"
  by (simp add: selfCanonical_def)

lemma map_of_selfCanonical:
  "map_of (selfCanonical t) f = map_option (\<lambda>s. if fs_Canonical s = '''' then s\<lparr>fs_Canonical := f\<rparr> else s) (map_of t f)"
proof (induction t)
  case (Cons x t)
  obtain g s where "x = (g, s)" by (cases x)
  with Cons show ?case by (simp add: selfCanonical_def)
qed simp

end
