(* ===== verification/Policy_Roots.thy ===== *)
theory Policy_Roots
  imports Go_Prelude "HOL-Library.Sublist"
begin

text \<open>
  The path half of the metal agent's start policy (\<open>src/pkg/agent/policy/roots.go\<close>): which paths an engine may be
  handed. The file system is a parameter: what \<open>lstat\<close> answers at a path whose parents are real directories. On it,
  \<open>walk\<close> is the name resolution that \<open>filepath.EvalSymlinks\<close> performs and that the kernel performs for
  \<open>open\<close> and \<open>lstat\<close>; they differ in the last component and in the number of links they follow.

  A cleaned absolute path is the list of its components: \<open>filepath.Dir\<close> is then \<open>butlast\<close>, \<open>filepath.Base\<close> is
  \<open>last\<close> and \<open>filepath.Join\<close> of two clean parts is append.
\<close>

section \<open>Paths\<close>

type_synonym path = "gostring list"

definition filepath_IsAbs :: "gostring \<Rightarrow> bool" where
  "filepath_IsAbs p = has_prefix ''/'' p"

definition cleanStep :: "bool \<Rightarrow> gostring list \<Rightarrow> gostring \<Rightarrow> gostring list" where
  "cleanStep rooted st c =
     (if c = '''' \<or> c = ''.'' then st
      else if c = ''..'' then
        (case st of
           [] \<Rightarrow> if rooted then [] else [c]
         | x # xs \<Rightarrow> if x = ''..'' then c # st else xs)
      else c # st)"

definition cleanParts :: "bool \<Rightarrow> gostring list \<Rightarrow> path" where
  "cleanParts rooted parts = rev (foldl (cleanStep rooted) [] parts)"

definition pathOf :: "path \<Rightarrow> gostring" where
  "pathOf ps = ''/'' @ join_with ''/'' ps"

text \<open>\<open>filepath.Clean\<close> of an absolute path, as components.\<close>

definition cleanAbs :: "gostring \<Rightarrow> path" where
  "cleanAbs p = cleanParts True (split_on (CHR ''/'') p)"

section \<open>The file system\<close>

datatype node = FileNode | DirNode | LinkNode gostring
datatype lookup = Missing | Denied gostring | Found node
type_synonym filesystem = "path \<Rightarrow> lookup"

datatype walk_error = NotExist | NotADirectory | TooManyLinks | WalkFailed gostring

text \<open>\<open>EvalMode\<close> follows every link and needs every component, \<open>LstatMode\<close> does not follow the last one, and
  \<open>CreateMode\<close> (\<open>open\<close> with \<open>O_CREAT\<close>) follows every link and creates the last component when it is missing.\<close>

datatype walk_mode = EvalMode | LstatMode | CreateMode

definition linkBase :: "gostring \<Rightarrow> path \<Rightarrow> path" where
  "linkBase t cur = (if filepath_IsAbs t then [] else cur)"

function walk :: "walk_mode \<Rightarrow> filesystem \<Rightarrow> nat \<Rightarrow> path \<Rightarrow> gostring list \<Rightarrow> walk_error + path" where
  "walk m fs n cur [] = Inr cur"
| "walk m fs n cur (c # cs) =
     (if c = '''' \<or> c = ''.'' then walk m fs n cur cs
      else if c = ''..'' then walk m fs n (butlast cur) cs
      else (case fs (cur @ [c]) of
          Missing \<Rightarrow> if m = CreateMode \<and> cs = [] then Inr (cur @ [c]) else Inl NotExist
        | Denied e \<Rightarrow> Inl (WalkFailed e)
        | Found FileNode \<Rightarrow> if cs = [] then Inr (cur @ [c]) else Inl NotADirectory
        | Found DirNode \<Rightarrow> walk m fs n (cur @ [c]) cs
        | Found (LinkNode t) \<Rightarrow>
            if m = LstatMode \<and> cs = [] then Inr (cur @ [c])
            else (case n of
                0 \<Rightarrow> Inl TooManyLinks
              | Suc k \<Rightarrow> walk m fs k (linkBase t cur) (split_on (CHR ''/'') t @ cs))))"
  by pat_completeness auto
termination by (relation "measures [\<lambda>(m, fs, n, cur, cs). n, \<lambda>(m, fs, n, cur, cs). length cs]") auto

declare walk.simps(2) [simp del]

text \<open>The kernel's own limit on links is a parameter, \<open>L\<close>; \<open>filepath.EvalSymlinks\<close> gives up after 255.\<close>

definition EvalSymlinks :: "filesystem \<Rightarrow> path \<Rightarrow> walk_error + path" where
  "EvalSymlinks fs ps = walk EvalMode fs 255 [] ps"

definition os_Lstat :: "filesystem \<Rightarrow> nat \<Rightarrow> path \<Rightarrow> node option" where
  "os_Lstat fs L ps =
     (case walk LstatMode fs L [] ps of
        Inl _ \<Rightarrow> None
      | Inr [] \<Rightarrow> Some DirNode
      | Inr q \<Rightarrow> (case fs q of Found x \<Rightarrow> Some x | _ \<Rightarrow> None))"

definition isSymlink :: "node option \<Rightarrow> bool" where
  "isSymlink x = (case x of Some (LinkNode _) \<Rightarrow> True | _ \<Rightarrow> False)"

section \<open>Roots\<close>

record Roots =
  ro_dirs :: "gostring list"

datatype path_error =
    EmptyPath
  | HomeUnknown
  | UserTilde
  | NotAbsolute
  | DotDotComponent
  | ResolveFailed walk_error
  | DanglingSymlink gostring

text \<open>The expansion of a leading tilde: the two switches are the same up to the order of their cases.\<close>

definition expandTilde :: "gostring \<Rightarrow> gostring \<Rightarrow> path_error + gostring" where
  "expandTilde p home =
     (if \<not> has_prefix ''~'' p then Inr p
      else if p = ''~'' then (if home = '''' then Inl HomeUnknown else Inr home)
      else if has_prefix ''~/'' p then (if home = '''' then Inl HomeUnknown else Inr (home @ ''/'' @ drop 2 p))
      else Inl UserTilde)"

primrec newRootsLoop :: "filesystem \<Rightarrow> gostring \<Rightarrow> gostring list \<Rightarrow> gostring list \<Rightarrow> gostring list \<Rightarrow>
    path_error + Roots \<times> gostring list" where
  "newRootsLoop fs home dirs ignored [] = Inr (\<lparr>ro_dirs = dirs\<rparr>, ignored)"
| "newRootsLoop fs home dirs ignored (p # ps) =
     (if p = '''' then newRootsLoop fs home dirs ignored ps
      else (case expandTilde p home of
          Inl e \<Rightarrow> Inl e
        | Inr q \<Rightarrow>
            if \<not> filepath_IsAbs q then Inl NotAbsolute
            else (case EvalSymlinks fs (cleanAbs q) of
                Inl NotExist \<Rightarrow> newRootsLoop fs home dirs (ignored @ [q]) ps
              | Inl e \<Rightarrow> Inl (ResolveFailed e)
              | Inr resolved \<Rightarrow> newRootsLoop fs home (dirs @ [pathOf resolved]) ignored ps)))"

definition NewRoots :: "filesystem \<Rightarrow> gostring list \<Rightarrow> gostring \<Rightarrow> path_error + Roots \<times> gostring list" where
  "NewRoots fs paths home = newRootsLoop fs home [] [] paths"

definition StripFileScheme :: "gostring \<Rightarrow> gostring" where
  "StripFileScheme v = (if length v \<ge> 7 \<and> toLower (take 7 v) = ''file://'' then drop 7 v else v)"

text \<open>The absolute path the value stands for, before it is cleaned.\<close>

definition absolutePath :: "gostring \<Rightarrow> gostring \<Rightarrow> gostring \<Rightarrow> path_error + gostring" where
  "absolutePath p0 workDir home =
     (let p = StripFileScheme p0 in
      if p = '''' then Inl EmptyPath
      else if has_prefix ''~'' p \<and> home = '''' then Inl HomeUnknown
      else (case expandTilde p home of
          Inl e \<Rightarrow> Inl e
        | Inr q \<Rightarrow> Inr (if filepath_IsAbs q then q else workDir @ ''/'' @ q)))"

function resolveLoop :: "filesystem \<Rightarrow> nat \<Rightarrow> path \<Rightarrow> path \<Rightarrow> path \<Rightarrow> path_error + path" where
  "resolveLoop fs L p cur rest =
     (case EvalSymlinks fs cur of
        Inr resolved \<Rightarrow> Inr (resolved @ rest)
      | Inl e \<Rightarrow>
          if e \<noteq> NotExist then Inl (ResolveFailed e)
          else if isSymlink (os_Lstat fs L cur) then Inl (DanglingSymlink (pathOf cur))
          else if cur = [] then Inr p
          else resolveLoop fs L p (butlast cur) (last cur # rest))"
  by pat_completeness auto
termination by (relation "measure (\<lambda>(fs, L, p, cur, rest). length cur)") auto

declare resolveLoop.simps [simp del]

definition ResolvePath :: "filesystem \<Rightarrow> nat \<Rightarrow> gostring \<Rightarrow> gostring \<Rightarrow> gostring \<Rightarrow> path_error + gostring" where
  "ResolvePath fs L p workDir home =
     (case absolutePath p workDir home of
        Inl e \<Rightarrow> Inl e
      | Inr q \<Rightarrow>
          if ''..'' \<in> set (split_on (CHR ''/'') q) then Inl DotDotComponent
          else map_sum id pathOf (resolveLoop fs L (cleanAbs q) (cleanAbs q) []))"

definition Contains :: "Roots \<Rightarrow> gostring \<Rightarrow> bool" where
  "Contains r resolved \<longleftrightarrow>
     (\<exists>d \<in> set (ro_dirs r). resolved = d \<or> has_prefix (if has_suffix ''/'' d then d else d @ ''/'') resolved)"

record PathError =
  pe_What :: gostring
  pe_Path :: gostring
  pe_Resolved :: gostring
  pe_Roots :: "gostring list"
  pe_Err :: "path_error option"
  pe_NotExist :: bool
  pe_Hint :: gostring

definition CheckPath :: "filesystem \<Rightarrow> nat \<Rightarrow> Roots \<Rightarrow> gostring \<Rightarrow> gostring \<Rightarrow> gostring \<Rightarrow> gostring \<Rightarrow> PathError option" where
  "CheckPath fs L r what p workDir home =
     (case ResolvePath fs L p workDir home of
        Inl e \<Rightarrow> Some \<lparr>pe_What = what, pe_Path = p, pe_Resolved = '''', pe_Roots = ro_dirs r, pe_Err = Some e, pe_NotExist = False, pe_Hint = ''''\<rparr>
      | Inr resolved \<Rightarrow>
          if Contains r resolved then None
          else Some \<lparr>pe_What = what, pe_Path = p, pe_Resolved = resolved, pe_Roots = ro_dirs r, pe_Err = None, pe_NotExist = False, pe_Hint = ''''\<rparr>)"

definition CheckPathExists :: "filesystem \<Rightarrow> nat \<Rightarrow> Roots \<Rightarrow> gostring \<Rightarrow> gostring \<Rightarrow> gostring \<Rightarrow> gostring \<Rightarrow> PathError option" where
  "CheckPathExists fs L r what p workDir home =
     (case ResolvePath fs L p workDir home of
        Inl e \<Rightarrow> Some \<lparr>pe_What = what, pe_Path = p, pe_Resolved = '''', pe_Roots = ro_dirs r, pe_Err = Some e, pe_NotExist = False, pe_Hint = ''''\<rparr>
      | Inr resolved \<Rightarrow>
          if \<not> Contains r resolved
          then Some \<lparr>pe_What = what, pe_Path = p, pe_Resolved = resolved, pe_Roots = ro_dirs r, pe_Err = None, pe_NotExist = False, pe_Hint = ''''\<rparr>
          else if os_Lstat fs L (cleanAbs resolved) = None
          then Some \<lparr>pe_What = what, pe_Path = p, pe_Resolved = resolved, pe_Roots = ro_dirs r, pe_Err = None, pe_NotExist = True, pe_Hint = ''''\<rparr>
          else None)"

section \<open>Name resolution\<close>

lemma walk_skip [simp]:
  "walk m fs n cur ([] # cs) = walk m fs n cur cs"
  "walk m fs n cur (''.'' # cs) = walk m fs n cur cs"
  "walk m fs n cur (''..'' # cs) = walk m fs n (butlast cur) cs"
  by (simp_all add: walk.simps(2))

definition proper :: "gostring \<Rightarrow> bool" where
  "proper c \<longleftrightarrow> c \<noteq> '''' \<and> c \<noteq> ''.'' \<and> c \<noteq> ''..''"

lemma walk_proper: "proper c \<Longrightarrow> walk m fs n cur (c # cs) =
   (case fs (cur @ [c]) of
      Missing \<Rightarrow> if m = CreateMode \<and> cs = [] then Inr (cur @ [c]) else Inl NotExist
    | Denied e \<Rightarrow> Inl (WalkFailed e)
    | Found FileNode \<Rightarrow> if cs = [] then Inr (cur @ [c]) else Inl NotADirectory
    | Found DirNode \<Rightarrow> walk m fs n (cur @ [c]) cs
    | Found (LinkNode t) \<Rightarrow>
        if m = LstatMode \<and> cs = [] then Inr (cur @ [c])
        else (case n of
            0 \<Rightarrow> Inl TooManyLinks
          | Suc k \<Rightarrow> walk m fs k (linkBase t cur) (split_on (CHR ''/'') t @ cs)))"
  by (simp add: walk.simps(2) proper_def)

lemma proper_cases:
  obtains "c = ''''" | "c = ''.''" | "c = ''..''" | "proper c"
  unfolding proper_def by blast

text \<open>Induction along a walk, one case per kind of component.\<close>

lemma walk_induct [case_names Nil skip up missing denied plain dir tired link]:
  assumes "\<And>n cur. P n cur []"
    and "\<And>n cur c cs. c = '''' \<or> c = ''.'' \<Longrightarrow> P n cur cs \<Longrightarrow> P n cur (c # cs)"
    and "\<And>n cur cs. P n (butlast cur) cs \<Longrightarrow> P n cur (''..'' # cs)"
    and "\<And>n cur c cs. proper c \<Longrightarrow> fs (cur @ [c]) = Missing \<Longrightarrow> P n cur (c # cs)"
    and "\<And>n cur c cs e. proper c \<Longrightarrow> fs (cur @ [c]) = Denied e \<Longrightarrow> P n cur (c # cs)"
    and "\<And>n cur c cs. proper c \<Longrightarrow> fs (cur @ [c]) = Found FileNode \<Longrightarrow> P n cur (c # cs)"
    and "\<And>n cur c cs. proper c \<Longrightarrow> fs (cur @ [c]) = Found DirNode \<Longrightarrow> P n (cur @ [c]) cs \<Longrightarrow> P n cur (c # cs)"
    and "\<And>cur c cs t. proper c \<Longrightarrow> fs (cur @ [c]) = Found (LinkNode t) \<Longrightarrow> P 0 cur (c # cs)"
    and "\<And>n cur c cs t. proper c \<Longrightarrow> fs (cur @ [c]) = Found (LinkNode t) \<Longrightarrow>
      P n (linkBase t cur) (split_on (CHR ''/'') t @ cs) \<Longrightarrow> P (Suc n) cur (c # cs)"
  shows "P n cur cs"
proof (induction EvalMode "id fs" n cur cs rule: walk.induct)
  case (2 n cur c cs)
  show ?case
  proof (cases c rule: proper_cases)
    case 4
    then have c: "\<not> (c = [] \<or> c = ''.'')" "c \<noteq> ''..''" by (auto simp: proper_def)
    show ?thesis
    proof (cases "fs (cur @ [c])")
      case (Found x)
      show ?thesis
      proof (cases x)
        case (LinkNode t)
        show ?thesis
        proof (cases n)
          case 0
          with assms(8) [OF 4] Found LinkNode show ?thesis by simp
        next
          case (Suc k)
          have "P k (linkBase t cur) (split_on (CHR ''/'') t @ cs)" by (rule 2(4) [OF c _ LinkNode _ Suc]) (simp_all add: Found)
          with assms(9) [OF 4] Found LinkNode Suc show ?thesis by simp
        qed
      qed (use 2(3) [OF c] assms(6,7) [OF 4] Found in auto)
    qed (use assms(4,5) [OF 4] in auto)
  qed (use 2 assms(2,3) in auto)
qed (rule assms(1))

lemma walk_more_links: "walk m fs n cur cs = Inr q \<Longrightarrow> n \<le> n' \<Longrightarrow> walk m fs n' cur cs = Inr q"
proof (induction n cur cs arbitrary: n' rule: walk_induct [where fs = fs])
  case (link n cur c cs t)
  then show ?case by (cases n') (auto simp: walk_proper split: if_splits)
qed (auto simp: walk_proper split: if_splits)

lemma walk_eval_create: "walk EvalMode fs n cur cs = Inr q \<Longrightarrow> walk CreateMode fs n cur cs = Inr q"
  by (induction n cur cs rule: walk_induct [where fs = fs]) (auto simp: walk_proper)

lemma walk_error_stays: "walk EvalMode fs n cur xs = Inl e \<Longrightarrow> walk m fs n cur (xs @ y # ys) = Inl e"
  by (induction n cur xs rule: walk_induct [where fs = fs]) (auto simp: walk_proper split: if_splits)

lemma walk_continues:
  "walk EvalMode fs n cur xs = Inr q \<Longrightarrow>
     (\<exists>k. \<forall>m y ys. walk m fs n cur (xs @ y # ys) = walk m fs k q (y # ys)) \<or>
     (\<forall>m y ys. walk m fs n cur (xs @ y # ys) = Inl NotADirectory)"
proof (induction n cur xs rule: walk_induct [where fs = fs])
  case (skip n cur c cs)
  then show ?case by (elim disjE) simp_all
qed (auto simp: walk_proper split: if_splits)

text \<open>Dropping components that name the directory itself keeps where a walk arrives.\<close>

inductive slim :: "gostring list \<Rightarrow> gostring list \<Rightarrow> bool" where
  "slim [] []"
| "slim xs ys \<Longrightarrow> slim (c # xs) (c # ys)"
| "c = '''' \<or> c = ''.'' \<Longrightarrow> slim xs ys \<Longrightarrow> slim (c # xs) ys"

inductive_cases slim_ConsE: "slim (c # xs) ys"
inductive_cases slim_NilE: "slim [] ys"

lemma slim_same: "slim xs ys \<Longrightarrow> slim (zs @ xs) (zs @ ys)"
  by (induction zs) (auto intro: slim.intros)

lemma slim_filter: "slim xs (filter (\<lambda>c. c \<noteq> '''' \<and> c \<noteq> ''.'') xs)"
  by (induction xs) (auto intro: slim.intros)

lemma walk_slim: "walk m fs n cur xs = Inr q \<Longrightarrow> slim xs ys \<Longrightarrow> m \<noteq> LstatMode \<Longrightarrow> walk m fs n cur ys = Inr q"
proof (induction n cur xs arbitrary: ys rule: walk_induct [where fs = fs])
  case (link n cur c cs t)
  from link(1,5) obtain zs where "ys = c # zs" "slim cs zs" by (auto elim!: slim_ConsE simp: proper_def)
  with link show ?case by (auto simp: walk_proper intro: slim_same)
qed (auto simp: walk_proper proper_def elim!: slim_ConsE slim_NilE split: if_splits)

section \<open>Where a resolved path lies\<close>

lemma cleanParts_plain:
  assumes "''..'' \<notin> set parts"
  shows "cleanParts True parts = filter (\<lambda>c. c \<noteq> '''' \<and> c \<noteq> ''.'') parts"
proof -
  have "foldl (cleanStep True) st parts = rev (filter (\<lambda>c. c \<noteq> '''' \<and> c \<noteq> ''.'') parts) @ st" for st
    using assms by (induction parts arbitrary: st) (auto simp: cleanStep_def)
  then show ?thesis by (simp add: cleanParts_def)
qed

lemma resolveLoop_found:
  "resolveLoop fs L p cur rest = Inr r \<Longrightarrow>
     \<exists>k q. k \<le> length cur \<and> walk EvalMode fs 255 [] (take k cur) = Inr q \<and> r = q @ drop k cur @ rest \<and>
       (\<forall>j. k < j \<and> j \<le> length cur \<longrightarrow>
          walk EvalMode fs 255 [] (take j cur) = Inl NotExist \<and> \<not> isSymlink (os_Lstat fs L (take j cur)))"
proof (induction fs L p cur rest rule: resolveLoop.induct)
  case (1 fs L p cur rest)
  show ?case
  proof (cases "EvalSymlinks fs cur")
    case (Inr q)
    with 1(2) have "r = q @ rest" by (simp add: resolveLoop.simps)
    with Inr show ?thesis by (intro exI [of _ "length cur"] exI [of _ q]) (auto simp: EvalSymlinks_def)
  next
    case (Inl e)
    with 1(2) have e: "e = NotExist" "\<not> isSymlink (os_Lstat fs L cur)" by (auto simp: resolveLoop.simps split: if_splits)
    have "cur \<noteq> []" using Inl by (auto simp: EvalSymlinks_def)
    with 1(2) Inl e have "resolveLoop fs L p (butlast cur) (last cur # rest) = Inr r" by (subst (asm) resolveLoop.simps) simp
    from 1(1) [OF Inl _ e(2) \<open>cur \<noteq> []\<close> this] e(1) obtain k q where k: "k \<le> length cur - 1"
      "walk EvalMode fs 255 [] (take k (butlast cur)) = Inr q" "r = q @ drop k (butlast cur) @ last cur # rest"
      and later: "\<forall>j. k < j \<and> j \<le> length cur - 1 \<longrightarrow>
        walk EvalMode fs 255 [] (take j (butlast cur)) = Inl NotExist \<and> \<not> isSymlink (os_Lstat fs L (take j (butlast cur)))"
      by auto
    have short: "take j (butlast cur) = take j cur" if "j \<le> length cur - 1" for j
      using that by (simp add: butlast_conv_take min_def)
    have "drop k (butlast cur) @ last cur # rest = drop k cur @ rest"
      using \<open>cur \<noteq> []\<close> k(1) by (cases cur rule: rev_cases) auto
    moreover have "walk EvalMode fs 255 [] (take j cur) = Inl NotExist \<and> \<not> isSymlink (os_Lstat fs L (take j cur))"
      if "k < j" "j \<le> length cur" for j
    proof (cases "j = length cur")
      case True
      with Inl e show ?thesis by (simp add: EvalSymlinks_def)
    next
      case False
      with that later short [of j] show ?thesis by auto
    qed
    ultimately show ?thesis using k short [of k] by (intro exI [of _ k] exI [of _ q]) auto
  qed
qed

lemma resolveLoop_opens:
  assumes loop: "resolveLoop fs L p ps [] = Inr r" and names: "\<forall>c \<in> set ps. proper c"
    and opened: "walk CreateMode fs L [] ps = Inr place" and L: "L \<le> 255"
  shows "place = r"
proof -
  from resolveLoop_found [OF loop] obtain k q where k: "k \<le> length ps" "walk EvalMode fs 255 [] (take k ps) = Inr q" "r = q @ drop k ps"
    and later: "\<And>j. k < j \<Longrightarrow> j \<le> length ps \<Longrightarrow> walk EvalMode fs 255 [] (take j ps) = Inl NotExist \<and> \<not> isSymlink (os_Lstat fs L (take j ps))"
    by auto
  note opened' = walk_more_links [OF opened L]
  show ?thesis
  proof (cases "k = length ps")
    case True
    with k walk_eval_create [of fs 255 "[]" ps q] opened' show ?thesis by simp
  next
    case False
    with k obtain init c where ps: "ps = init @ [c]" by (cases ps rule: rev_cases) auto
    have not_err: "walk EvalMode fs n [] init \<noteq> Inl e" if "walk CreateMode fs n [] ps = Inr place" for n e
      using walk_error_stays [of fs n "[]" init e CreateMode c "[]"] that by (auto simp: ps)
    then obtain q1 where q1: "walk EvalMode fs L [] init = Inr q1" using opened by (cases "walk EvalMode fs L [] init") auto
    have q2: "walk EvalMode fs 255 [] init = Inr q1" by (rule walk_more_links [OF q1 L])
    have "k = length init" using later [of "length init"] False k(1) q2 by (cases "k < length init") (auto simp: ps)
    then have r: "r = q1 @ [c]" using k q2 by (simp add: ps)
    have "proper c" using names by (simp add: ps)
    from walk_continues [OF q2] opened' obtain n1 where n1: "\<And>m. walk m fs 255 [] ps = walk m fs n1 q1 [c]" by (auto simp: ps)
    from walk_continues [OF q1] opened obtain n2 where n2: "\<And>m. walk m fs L [] ps = walk m fs n2 q1 [c]" by (auto simp: ps)
    have missing: "walk EvalMode fs n1 q1 [c] = Inl NotExist" "\<not> isSymlink (os_Lstat fs L ps)"
      using later [of "length ps"] \<open>k = length init\<close> n1 by (auto simp: ps)
    have "fs (q1 @ [c]) = Missing"
    proof (cases "fs (q1 @ [c])")
      case (Found x)
      show ?thesis
      proof (cases x)
        case (LinkNode t)
        with Found \<open>proper c\<close> n2 [of LstatMode] have "isSymlink (os_Lstat fs L ps)"
          by (cases "q1 @ [c]") (auto simp: os_Lstat_def walk_proper isSymlink_def)
        with missing show ?thesis by simp
      qed (use Found missing \<open>proper c\<close> in \<open>auto simp: walk_proper\<close>)
    qed (use missing \<open>proper c\<close> in \<open>auto simp: walk_proper\<close>)
    with n1 [of CreateMode] opened' \<open>proper c\<close> r show ?thesis by (simp add: walk_proper)
  qed
qed

section \<open>Containment\<close>

definition no_slash :: "gostring list \<Rightarrow> bool" where
  "no_slash ps \<longleftrightarrow> (\<forall>c \<in> set ps. CHR ''/'' \<notin> set c)"

lemma no_slash_simps [simp]:
  "no_slash []"
  "no_slash (xs @ ys) \<longleftrightarrow> no_slash xs \<and> no_slash ys"
  "no_slash (c # ys) \<longleftrightarrow> CHR ''/'' \<notin> set c \<and> no_slash ys"
  by (auto simp: no_slash_def)

lemma split_on_no_slash [simp]: "no_slash (split_on (CHR ''/'') s)"
  by (induction s) (auto split: list.splits)

lemma no_slash_butlast: "no_slash xs \<Longrightarrow> no_slash (butlast xs)"
  by (auto simp: no_slash_def dest: in_set_butlastD)

lemma walk_no_slash: "walk m fs n cur cs = Inr q \<Longrightarrow> no_slash cur \<Longrightarrow> no_slash cs \<Longrightarrow> no_slash q"
  by (induction n cur cs rule: walk_induct [where fs = fs])
    (auto simp: walk_proper linkBase_def no_slash_butlast split: if_splits)

lemma split_on_append: "split_on c (a @ c # b) = split_on c a @ split_on c b"
proof (induction a)
  case (Cons x a)
  then show ?case by (cases "split_on c a") (auto split: list.splits)
qed simp

lemma split_on_single: "c \<notin> set x \<Longrightarrow> split_on c x = [x]"
  by (induction x) auto

lemma split_on_join: "ps \<noteq> [] \<Longrightarrow> no_slash ps \<Longrightarrow> split_on (CHR ''/'') (join_with ''/'' ps) = ps"
proof (induction ps rule: induct_list012)
  case (3 x y zs)
  then show ?case by (simp add: split_on_append split_on_single)
qed (simp_all add: split_on_single)

lemma split_on_pathOf: "ps \<noteq> [] \<Longrightarrow> no_slash ps \<Longrightarrow> split_on (CHR ''/'') (pathOf ps) = [] # ps"
  by (simp add: pathOf_def split_on_join)

lemma join_with_Nil: "join_with ''/'' ps = [] \<Longrightarrow> ps = [] \<or> ps = [[]]"
  by (cases ps; cases "tl ps") auto

lemma contained_prefix:
  assumes "no_slash ds" and "no_slash ps" and "[] \<notin> set ds" and "[] \<notin> set ps"
    and "pathOf ps = pathOf ds \<or> has_prefix (if has_suffix ''/'' (pathOf ds) then pathOf ds else pathOf ds @ ''/'') (pathOf ps)"
  shows "prefix ds ps"
proof (cases "ds = []")
  case False
  then have ds: "split_on (CHR ''/'') (pathOf ds) = [] # ds" using assms(1) by (rule split_on_pathOf)
  have last: "\<not> has_suffix ''/'' (pathOf ds)"
  proof
    assume "has_suffix ''/'' (pathOf ds)"
    then obtain a where "pathOf ds = a @ ''/''" unfolding has_suffix_def has_prefix_iff by (auto simp: rev_eq_Cons_iff)
    then have "[] # ds = split_on (CHR ''/'') a @ [[]]" using ds split_on_append [of "CHR ''/''" a "[]"] by simp
    with False assms(3) show False by (metis last_ConsR last_in_set last_snoc)
  qed
  show ?thesis
  proof (cases "pathOf ps = pathOf ds")
    case True
    then have "ps \<noteq> []" using False assms(3) join_with_Nil [of ds] by (auto simp: pathOf_def)
    with split_on_pathOf [OF this assms(2)] True ds show ?thesis by simp
  next
    case noteq: False
    with assms(5) last obtain r where r: "pathOf ps = pathOf ds @ CHR ''/'' # r" by (auto simp: has_prefix_iff)
    have "ps \<noteq> []" using r by (auto simp: pathOf_def)
    then have "[] # ps = ([] # ds) @ split_on (CHR ''/'') r"
      using split_on_pathOf [OF _ assms(2)] r ds by (simp add: split_on_append)
    then show ?thesis by simp
  qed
qed simp

definition rooted :: "Roots \<Rightarrow> bool" where
  "rooted r \<longleftrightarrow> (\<forall>d \<in> set (ro_dirs r). \<exists>ds. d = pathOf ds \<and> no_slash ds \<and> [] \<notin> set ds)"

lemma walk_nonempty: "walk m fs n cur cs = Inr q \<Longrightarrow> [] \<notin> set cur \<Longrightarrow> [] \<notin> set q"
  by (induction n cur cs rule: walk_induct [where fs = fs])
    (auto simp: walk_proper linkBase_def proper_def dest: in_set_butlastD split: if_splits)

lemma cleanStep_no_slash: "CHR ''/'' \<notin> set c \<Longrightarrow> no_slash st \<Longrightarrow> no_slash (cleanStep True st c)"
  by (cases st) (simp_all add: cleanStep_def)

lemma cleanAbs_no_slash: "no_slash (cleanAbs q)"
proof -
  have "no_slash parts \<Longrightarrow> no_slash st \<Longrightarrow> no_slash (foldl (cleanStep True) st parts)" for parts st
    by (induction parts arbitrary: st) (simp_all add: cleanStep_no_slash)
  from this [OF split_on_no_slash, of "[]"] show ?thesis by (simp add: cleanAbs_def cleanParts_def no_slash_def)
qed

lemma newRootsLoop_rooted:
  "newRootsLoop fs home dirs ignored ps = Inr (r, ign) \<Longrightarrow> rooted \<lparr>ro_dirs = dirs\<rparr> \<Longrightarrow> rooted r"
proof (induction ps arbitrary: dirs ignored)
  case (Cons p ps)
  have more: "rooted \<lparr>ro_dirs = dirs @ [pathOf q]\<rparr>" if "EvalSymlinks fs (cleanAbs x) = Inr q" for q x
    using Cons(3) that walk_no_slash [of EvalMode fs 255 "[]" "cleanAbs x" q] walk_nonempty [of EvalMode fs 255 "[]" "cleanAbs x" q]
    by (auto simp: rooted_def EvalSymlinks_def cleanAbs_no_slash)
  show ?case using Cons more
    by (auto split: if_splits sum.splits walk_error.splits)
qed auto

lemma NewRoots_rooted: "NewRoots fs paths home = Inr (r, ign) \<Longrightarrow> rooted r"
  unfolding NewRoots_def by (erule newRootsLoop_rooted) (simp add: rooted_def)

lemma walk_clean:
  assumes "''..'' \<notin> set (split_on (CHR ''/'') q)" and "walk m fs n [] (split_on (CHR ''/'') q) = Inr r" and "m \<noteq> LstatMode"
  shows "walk m fs n [] (cleanAbs q) = Inr r"
  unfolding cleanAbs_def cleanParts_plain [OF assms(1)] by (rule walk_slim [OF assms(2) slim_filter assms(3)])

lemma ResolvePath_opens_clean:
  assumes "ResolvePath fs L p workDir home = Inr resolved" and "absolutePath p workDir home = Inr q"
    and "walk CreateMode fs L [] (cleanAbs q) = Inr place" and "L \<le> 255"
  shows "resolved = pathOf place"
proof -
  let ?ps = "cleanAbs q"
  from assms(1,2) have dots: "''..'' \<notin> set (split_on (CHR ''/'') q)" by (auto simp: ResolvePath_def split: if_splits)
  from assms(1,2) dots obtain r where r: "resolveLoop fs L ?ps ?ps [] = Inr r" "resolved = pathOf r"
    by (cases "resolveLoop fs L ?ps ?ps []") (auto simp: ResolvePath_def)
  have ps: "?ps = filter (\<lambda>c. c \<noteq> '''' \<and> c \<noteq> ''.'') (split_on (CHR ''/'') q)"
    unfolding cleanAbs_def by (rule cleanParts_plain [OF dots])
  have "\<forall>c \<in> set ?ps. proper c" using dots unfolding ps by (auto simp: proper_def)
  with resolveLoop_opens [OF r(1) _ assms(3,4)] r(2) show ?thesis by blast
qed

lemma ResolvePath_opens:
  assumes "ResolvePath fs L p workDir home = Inr resolved" and "absolutePath p workDir home = Inr q"
    and "walk CreateMode fs L [] (split_on (CHR ''/'') q) = Inr place" and "L \<le> 255"
  shows "resolved = pathOf place \<and> no_slash place \<and> [] \<notin> set place"
proof -
  from assms(1,2) have "''..'' \<notin> set (split_on (CHR ''/'') q)" by (auto simp: ResolvePath_def split: if_splits)
  then have "walk CreateMode fs L [] (cleanAbs q) = Inr place" by (rule walk_clean [OF _ assms(3)]) simp
  from ResolvePath_opens_clean [OF assms(1,2) this assms(4)] walk_no_slash [OF assms(3)] walk_nonempty [OF assms(3)] show ?thesis by simp
qed

lemma Contains_prefix:
  assumes "rooted r" and "Contains r (pathOf ps)" and "no_slash ps" and "[] \<notin> set ps"
  shows "\<exists>ds. pathOf ds \<in> set (ro_dirs r) \<and> prefix ds ps"
proof -
  from assms(2) obtain d where d: "d \<in> set (ro_dirs r)"
    "pathOf ps = d \<or> has_prefix (if has_suffix ''/'' d then d else d @ ''/'') (pathOf ps)"
    unfolding Contains_def by blast
  with assms(1) obtain ds where "d = pathOf ds" "no_slash ds" "[] \<notin> set ds" unfolding rooted_def by blast
  with d contained_prefix [of ds ps] assms(3,4) show ?thesis by blast
qed

lemma CheckPath_None: "CheckPath fs L r what p workDir home = None \<longleftrightarrow>
    (\<exists>resolved. ResolvePath fs L p workDir home = Inr resolved \<and> Contains r resolved)"
  by (auto simp: CheckPath_def split: sum.splits)

lemma CheckPathExists_None: "CheckPathExists fs L r what p workDir home = None \<longleftrightarrow>
    (\<exists>resolved. ResolvePath fs L p workDir home = Inr resolved \<and> Contains r resolved \<and> os_Lstat fs L (cleanAbs resolved) \<noteq> None)"
  by (auto simp: CheckPathExists_def split: sum.splits)

lemma ResolvePath_absolute: "ResolvePath fs L p workDir home = Inr resolved \<Longrightarrow> \<exists>q. absolutePath p workDir home = Inr q"
  by (auto simp: ResolvePath_def split: sum.splits)

section \<open>Properties\<close>

definition opensAt :: "filesystem \<Rightarrow> nat \<Rightarrow> gostring \<Rightarrow> gostring \<Rightarrow> gostring \<Rightarrow> path \<Rightarrow> bool" where
  "opensAt fs L p workDir home place \<longleftrightarrow>
     (\<exists>q. absolutePath p workDir home = Inr q \<and> walk CreateMode fs L [] (split_on (CHR ''/'') q) = Inr place)"

lemma resolved_contained:
  assumes "rooted r" and "ResolvePath fs L p workDir home = Inr resolved" and "Contains r resolved"
    and "opensAt fs L p workDir home place" and "L \<le> 255"
  shows "\<exists>ds. pathOf ds \<in> set (ro_dirs r) \<and> prefix ds place"
proof -
  from assms(4) obtain q where "absolutePath p workDir home = Inr q" "walk CreateMode fs L [] (split_on (CHR ''/'') q) = Inr place"
    by (auto simp: opensAt_def)
  from ResolvePath_opens [OF assms(2) this assms(5)] assms(1,3) show ?thesis by (auto intro: Contains_prefix)
qed

text \<open>C13. No escape: whatever the kernel opens or creates for an accepted path, through any number of symbolic links
  and whether or not the file exists, is a root or lies beneath one. The roots are those of \<open>NewRoots\<close>, the file
  system is arbitrary, and the kernel follows at most as many links as \<open>EvalSymlinks\<close> does.\<close>
theorem checked_path_contained:
  assumes "NewRoots fs' paths home' = Inr (r, ignored)" and "CheckPath fs L r what p workDir home = None"
    and "opensAt fs L p workDir home place" and "L \<le> 255"
  shows "\<exists>ds. pathOf ds \<in> set (ro_dirs r) \<and> prefix ds place"
  using resolved_contained [OF NewRoots_rooted [OF assms(1)] _ _ assms(3,4)] assms(2) unfolding CheckPath_None by blast

text \<open>A model store with a link to a directory beside it, which is also a root.\<close>

definition ex_fs :: filesystem where
  "ex_fs q =
     (if q \<in> {[''m''], [''ext'']} then Found DirNode
      else if q = [''m'', ''link''] then Found (LinkNode ''../ext'')
      else Missing)"

definition ex_roots :: Roots where
  "ex_roots = \<lparr>ro_dirs = [''/m'', ''/ext'']\<rparr>"

lemmas path_eval = absolutePath_def expandTilde_def StripFileScheme_def filepath_IsAbs_def has_prefix_def has_suffix_def
  cleanAbs_def cleanParts_def cleanStep_def pathOf_def linkBase_def EvalSymlinks_def toLower_def ascii_lower_def

lemma ex_roots_New: "NewRoots ex_fs [''/m'', ''~/../ext'', ''/none''] ''/m'' = Inr (ex_roots, [''/none''])"
  by (simp add: NewRoots_def path_eval walk.simps ex_fs_def ex_roots_def)

lemma ex_walks:
  "walk EvalMode ex_fs 255 [] [''m'', ''link'', ''new''] = Inl NotExist"
  "walk EvalMode ex_fs 255 [] [''m'', ''link''] = Inr [''ext'']"
  "walk LstatMode ex_fs 40 [] [''m'', ''link'', ''new''] = Inl NotExist"
  "walk CreateMode ex_fs 40 [] [''m'', ''link'', ''new''] = Inr [''ext'', ''new'']"
  by (simp_all add: walk.simps ex_fs_def linkBase_def filepath_IsAbs_def has_prefix_def numeral_eq_Suc)

lemma ex_opens: "opensAt ex_fs 40 ''link/new'' ''/m'' '''' [''ext'', ''new'']"
proof -
  have "absolutePath ''link/new'' ''/m'' '''' = Inr ''/m/link/new''" by (simp add: path_eval)
  then show ?thesis using ex_walks(4) by (simp add: opensAt_def)
qed

lemma ex_checked: "CheckPath ex_fs 40 ex_roots what ''link/new'' ''/m'' '''' = None"
proof -
  have abs: "absolutePath ''link/new'' ''/m'' '''' = Inr ''/m/link/new''" by (simp add: path_eval)
  have "resolveLoop ex_fs 40 [''m'', ''link'', ''new''] [''m'', ''link'', ''new''] [] = Inr [''ext'', ''new'']"
    by (simp add: resolveLoop.simps EvalSymlinks_def ex_walks os_Lstat_def isSymlink_def)
  then show ?thesis by (simp add: CheckPath_def ResolvePath_def abs path_eval Contains_def ex_roots_def)
qed

theorem checked_path_contained_witness:
  "\<exists>ds. pathOf ds \<in> set (ro_dirs ex_roots) \<and> prefix ds [''ext'', ''new'']"
  using checked_path_contained [OF ex_roots_New ex_checked ex_opens] by simp

end
