(* ===== verification/Policy_Args.thy ===== *)
theory Policy_Args
  imports Policy_Flags Policy_Roots Path_Match
begin

text \<open>
  The flag half of the metal agent's start policy (\<open>src/pkg/agent/policy/args.go\<close>): \<open>parseTyped\<close> splits the extra
  arguments of an engine the way the engine itself would, and \<open>CheckExtraArgs\<close> decides whether they are allowed. Part of
  it cannot be relaxed by the operator's override: flags that move or open a listener.

  \<open>parseTyped\<close> walks the arguments by index and may insert a token behind the current one. Here it is a recursion on the
  tokens that are left; \<open>written\<close> is what the caller wrote for the first of them when that one was inserted.
\<close>

section \<open>Parsed arguments\<close>

record Arg =
  ar_Flag :: gostring
  ar_Name :: gostring
  ar_Spec :: FlagSpec
  ar_Known :: bool
  ar_Values :: "gostring list"
  ar_Inline :: bool

definition zeroArg :: Arg where
  "zeroArg = \<lparr>ar_Flag = '''', ar_Name = '''', ar_Spec = zeroSpec, ar_Known = False, ar_Values = [], ar_Inline = False\<rparr>"

definition Stray :: "Arg \<Rightarrow> bool" where
  "Stray a \<longleftrightarrow> ar_Flag a = ''''"

definition Canonical :: "Arg \<Rightarrow> gostring" where
  "Canonical a = (if ar_Known a then fs_Canonical (ar_Spec a) else ar_Name a)"

definition asciiDigit :: "char \<Rightarrow> bool" where
  "asciiDigit c \<longleftrightarrow> (of_char c :: nat) \<in> {48..57}"

definition negativeNumber :: "gostring \<Rightarrow> bool" where
  "negativeNumber tok \<longleftrightarrow>
     (case tok of
        [] \<Rightarrow> False
      | c # r \<Rightarrow> c = CHR ''-'' \<and>
          (r \<noteq> [] \<and> list_all asciiDigit r \<or>
           (case cut_at (CHR ''.'') r of
              None \<Rightarrow> False
            | Some (a, b) \<Rightarrow> list_all asciiDigit a \<and> b \<noteq> [] \<and> list_all asciiDigit b)))"

definition flagShaped :: "gostring \<Rightarrow> bool" where
  "flagShaped tok \<longleftrightarrow> has_prefix ''-'' tok \<and> \<not> negativeNumber tok"

definition isLlamaRuntime :: "gostring \<Rightarrow> bool" where
  "isLlamaRuntime runtime \<longleftrightarrow> runtime = RuntimeLlamaCPP \<or> runtime = RuntimeLlamaServer"

definition isArgparseRuntime :: "gostring \<Rightarrow> bool" where
  "isArgparseRuntime runtime \<longleftrightarrow> runtime = RuntimeTensorFold \<or> runtime = RuntimeVLLMSwift"

definition dashes :: "gostring \<Rightarrow> gostring" where
  "dashes flag = map (\<lambda>c. if c = CHR ''_'' then CHR ''-'' else c) flag"

definition normalizeFlag :: "gostring \<Rightarrow> gostring \<Rightarrow> gostring" where
  "normalizeFlag runtime flag =
     (if isLlamaRuntime runtime then (if has_prefix ''--'' flag then dashes flag else flag)
      else if runtime \<noteq> RuntimeVLLMSwift then flag
      else (let name = takeWhile (\<lambda>c. c \<noteq> CHR ''.'') (dashes flag) in
            if has_suffix ''+'' name then butlast name else name))"

definition vllmOptLevelValue :: "gostring \<Rightarrow> bool" where
  "vllmOptLevelValue tok \<longleftrightarrow> tok \<in> {''0'', ''1'', ''2'', ''3''}"

definition vllmOptLevelInline :: "gostring \<Rightarrow> bool" where
  "vllmOptLevelInline tok \<longleftrightarrow>
     (case cut_prefix ''-O'' tok of
        None \<Rightarrow> False
      | Some r \<Rightarrow> vllmOptLevelValue r \<or> (case cut_prefix ''='' r of None \<Rightarrow> False | Some d \<Rightarrow> vllmOptLevelValue d))"

definition withSpec :: "gostring \<Rightarrow> Arg \<Rightarrow> Arg" where
  "withSpec runtime a =
     (case specFor runtime (ar_Name a) of
        None \<Rightarrow> a\<lparr>ar_Spec := zeroSpec, ar_Known := False\<rparr>
      | Some s \<Rightarrow> a\<lparr>ar_Spec := s, ar_Known := True\<rparr>)"

lemma withSpec_fields [simp]:
  "ar_Flag (withSpec runtime a) = ar_Flag a" "ar_Name (withSpec runtime a) = ar_Name a"
  "ar_Values (withSpec runtime a) = ar_Values a" "ar_Inline (withSpec runtime a) = ar_Inline a"
  "ar_Known (withSpec runtime a) \<longleftrightarrow> specFor runtime (ar_Name a) \<noteq> None"
  by (auto simp: withSpec_def split: option.splits)

definition vllmOptimizationLevel :: "gostring \<Rightarrow> gostring list \<Rightarrow> (Arg \<times> nat) option" where
  "vllmOptimizationLevel runtime rest =
     (if runtime \<noteq> RuntimeVLLMSwift then None
      else (let tok = hd rest; a = withSpec runtime (zeroArg\<lparr>ar_Flag := tok, ar_Name := ''--optimization-level''\<rparr>) in
        if vllmOptLevelInline tok then Some (a\<lparr>ar_Values := [[last tok]], ar_Inline := True\<rparr>, 1)
        else if tok = ''-O'' \<and> length rest > 1 \<and> vllmOptLevelValue (rest ! 1) then Some (a\<lparr>ar_Values := [rest ! 1]\<rparr>, 2)
        else None))"

text \<open>The rewritten argument, and the token to parse next (empty when there is none).\<close>

definition attachedShort :: "gostring \<Rightarrow> Arg \<Rightarrow> Arg \<times> gostring" where
  "attachedShort runtime a =
     (if ar_Known a \<or> \<not> isArgparseRuntime runtime \<or> has_prefix ''--'' (ar_Flag a) \<or> length (ar_Flag a) \<le> 2 \<or>
         length (ar_Name a) < 2 \<or> take 2 (ar_Flag a) \<noteq> take 2 (ar_Name a) then (a, '''')
      else (let short = take 2 (ar_Name a) in
        case specFor runtime short of
          None \<Rightarrow> (a, '''')
        | Some spec \<Rightarrow>
            (let rest = drop 2 (ar_Flag a) @ (if ar_Inline a then ''='' @ hd (ar_Values a) else '''');
                 a' = a\<lparr>ar_Name := short, ar_Spec := spec, ar_Known := True\<rparr> in
             if fs_Kind spec = KindBool then (a'\<lparr>ar_Values := [], ar_Inline := False\<rparr>, ''-'' @ rest)
             else (a'\<lparr>ar_Values := [rest], ar_Inline := True\<rparr>, ''''))))"

definition valueTokens :: "gostring \<Rightarrow> Arg \<Rightarrow> gostring list \<Rightarrow> nat" where
  "valueTokens runtime a rest =
     (if \<not> ar_Known a \<or> fs_Kind (ar_Spec a) = KindBool then 0
      else if fs_Multi (ar_Spec a) then
        (if ar_Inline a then 0 else length (takeWhile (\<lambda>t. \<not> flagShaped t) rest))
      else if fs_OptionalValue (ar_Spec a) then
        (if ar_Inline a \<or> rest = [] \<or> flagShaped (hd rest) then 0 else 1)
      else if isArgparseRuntime runtime \<or> runtime = RuntimeMLXServer then
        length (takeWhile (\<lambda>t. \<not> flagShaped t) (take (max (fs_Arity (ar_Spec a)) 1 - length (ar_Values a)) rest))
      else min (max (fs_Arity (ar_Spec a)) 1 - length (ar_Values a)) (length rest))"

definition flagArg :: "gostring \<Rightarrow> gostring \<Rightarrow> Arg" where
  "flagArg runtime tok =
     (let a = (case cut_at (CHR ''='') tok of
           None \<Rightarrow> zeroArg\<lparr>ar_Flag := tok\<rparr>
         | Some (name, v) \<Rightarrow> zeroArg\<lparr>ar_Flag := name, ar_Values := [v], ar_Inline := True\<rparr>) in
      withSpec runtime (a\<lparr>ar_Name := normalizeFlag runtime (ar_Flag a)\<rparr>))"

text \<open>One flag token: its argument, the inserted token if any, and the tokens left.\<close>

definition parseFlag :: "gostring \<Rightarrow> gostring option \<Rightarrow> gostring \<Rightarrow> gostring list \<Rightarrow> Arg \<times> gostring option \<times> gostring list" where
  "parseFlag runtime written tok rest =
     (let a0 = flagArg runtime tok; (a1, chained) = attachedShort runtime a0;
          rest' = (if chained = '''' then rest else chained # rest);
          written' = (if chained = '''' then None else Some (case written of None \<Rightarrow> ar_Flag a0 | Some w \<Rightarrow> w));
          a2 = (case written of None \<Rightarrow> a1 | Some w \<Rightarrow> a1\<lparr>ar_Flag := w\<rparr>);
          n = valueTokens runtime a2 rest' in
      (a2\<lparr>ar_Values := ar_Values a2 @ take n rest'\<rparr>, if n = 0 then written' else None, drop n rest'))"

definition tokensSize :: "gostring list \<Rightarrow> nat" where
  "tokensSize toks = sum_list (map (\<lambda>t. Suc (length t)) toks)"

lemma tokensSize_drop: "tokensSize (drop n toks) \<le> tokensSize toks"
proof (induction toks arbitrary: n)
  case (Cons t toks)
  show ?case using Cons [of "n - 1"] by (cases n) (auto simp: tokensSize_def)
qed (simp add: tokensSize_def)

lemma tokensSize_rest: "tokensSize (drop n toks) < tokensSize (t # toks)" "tokensSize toks < tokensSize (t # toks)"
  using tokensSize_drop [of n toks] by (simp_all add: tokensSize_def)

lemma flagArg_length:
  "length (ar_Flag (flagArg runtime tok)) + (if ar_Inline (flagArg runtime tok) then Suc (length (hd (ar_Values (flagArg runtime tok)))) else 0) = length tok"
  by (auto simp: flagArg_def zeroArg_def Let_def cut_at_Some_iff split: option.splits)

lemma attachedShort_chained:
  "attachedShort runtime a = (a', chained) \<Longrightarrow>
     length chained < length (ar_Flag a) + (if ar_Inline a then Suc (length (hd (ar_Values a))) else 0) \<or> chained = ''''"
  by (auto simp: attachedShort_def Let_def split: if_splits option.splits)

lemma parseFlag_shorter: "parseFlag runtime written tok rest = (a, w, rest') \<Longrightarrow> tokensSize rest' < tokensSize (tok # rest)"
proof -
  assume h: "parseFlag runtime written tok rest = (a, w, rest')"
  obtain a1 chained where ch: "attachedShort runtime (flagArg runtime tok) = (a1, chained)" by fastforce
  let ?rest = "if chained = '''' then rest else chained # rest"
  have "rest' = drop (valueTokens runtime (case written of None \<Rightarrow> a1 | Some w \<Rightarrow> a1\<lparr>ar_Flag := w\<rparr>) ?rest) ?rest"
    using h ch by (simp add: parseFlag_def Let_def)
  moreover have "tokensSize ?rest < tokensSize (tok # rest)"
    using attachedShort_chained [OF ch] flagArg_length [of runtime tok] by (auto simp: tokensSize_def)
  ultimately show ?thesis using tokensSize_drop order.strict_trans1 by blast
qed

function parseLoop :: "gostring \<Rightarrow> gostring option \<Rightarrow> gostring list \<Rightarrow> Arg list" where
  "parseLoop runtime written [] = []"
| "parseLoop runtime written (tok # rest) =
     (if \<not> flagShaped tok then zeroArg\<lparr>ar_Values := [tok]\<rparr> # parseLoop runtime None rest
      else (case vllmOptimizationLevel runtime (tok # rest) of
          Some (a, n) \<Rightarrow> a # parseLoop runtime None (drop (n - 1) rest)
        | None \<Rightarrow>
            (case parseFlag runtime written tok rest of
               (a, written', rest') \<Rightarrow> a # parseLoop runtime written' rest')))"
  by pat_completeness auto
termination
  by (relation "measure (\<lambda>(runtime, written, toks). tokensSize toks)")
    (auto simp: tokensSize_rest dest: parseFlag_shorter [OF sym])

definition parseTyped :: "gostring \<Rightarrow> gostring list \<Rightarrow> Arg list" where
  "parseTyped runtime args = parseLoop runtime None args"

section \<open>Refusals\<close>

record ArgsInput =
  in_Runtime :: gostring
  in_Args :: "gostring list"
  in_Roots :: Roots
  in_WorkDir :: gostring
  in_Home :: gostring
  in_AllowUnsafe :: bool

record RejectedError =
  re_Runtime :: gostring
  re_Flag :: gostring
  re_Rule :: gostring
  re_Why :: gostring
  re_Relaxable :: bool

datatype policy_error = Rejected RejectedError | BadPath PathError

record flagRule =
  fr_why :: gostring
  fr_bind :: bool

definition downloadsModel :: gostring where "downloadsModel = ''downloads a model''"
definition multiNodeWhy :: gostring where "multiNodeWhy = ''opens a data-parallel or multi-node network listener''"
definition distributedWhy :: gostring where "distributedWhy = ''can open network listeners or start distributed backends''"
definition torchLoadEmbedsWhy :: gostring where
  "torchLoadEmbedsWhy = ''lets any API client submit a serialized tensor the server deserializes with torch.load''"

definition llamaRefused :: "(gostring \<times> flagRule) list" where
  "llamaRefused = [
    (''--host'', \<lparr>fr_why = ''sets the bind address'', fr_bind = True\<rparr>),
    (''--port'', \<lparr>fr_why = ''sets the port'', fr_bind = True\<rparr>),
    (''--reuse-port'', \<lparr>fr_why = ''changes socket binding'', fr_bind = True\<rparr>),
    (''--path'', \<lparr>fr_why = ''serves files over HTTP'', fr_bind = False\<rparr>),
    (''--api-prefix'', \<lparr>fr_why = ''changes the served path'', fr_bind = False\<rparr>),
    (''--log-file'', \<lparr>fr_why = ''writes a file'', fr_bind = False\<rparr>),
    (''--api-key'', \<lparr>fr_why = ''sets auth keys'', fr_bind = False\<rparr>),
    (''--api-key-file'', \<lparr>fr_why = ''reads a file'', fr_bind = False\<rparr>),
    (''--ssl-key-file'', \<lparr>fr_why = ''reads a key file'', fr_bind = False\<rparr>),
    (''--ssl-cert-file'', \<lparr>fr_why = ''reads a cert file'', fr_bind = False\<rparr>),
    (''--slot-save-path'', \<lparr>fr_why = ''writes files'', fr_bind = False\<rparr>),
    (''--log-prompts-dir'', \<lparr>fr_why = ''writes prompts to disk'', fr_bind = False\<rparr>),
    (''--media-path'', \<lparr>fr_why = ''serves local files'', fr_bind = False\<rparr>),
    (''--models-dir'', \<lparr>fr_why = ''loads other models'', fr_bind = False\<rparr>),
    (''--models-preset'', \<lparr>fr_why = ''reads a preset file'', fr_bind = False\<rparr>),
    (''--video-ffmpeg-dir'', \<lparr>fr_why = ''runs binaries from a directory'', fr_bind = False\<rparr>),
    (''--tools'', \<lparr>fr_why = ''enables built-in agent tools'', fr_bind = False\<rparr>),
    (''--tools-runtime'', \<lparr>fr_why = ''runs tools'', fr_bind = False\<rparr>),
    (''--mcp-servers-config'', \<lparr>fr_why = ''starts MCP servers'', fr_bind = False\<rparr>),
    (''--mcp-servers-json'', \<lparr>fr_why = ''starts MCP servers'', fr_bind = False\<rparr>),
    (''--ui-mcp-proxy'', \<lparr>fr_why = ''proxies MCP'', fr_bind = False\<rparr>),
    (''--webui-mcp-proxy'', \<lparr>fr_why = ''proxies MCP'', fr_bind = False\<rparr>),
    (''-m'', \<lparr>fr_why = ''overrides the model the agent chose'', fr_bind = False\<rparr>),
    (''--model'', \<lparr>fr_why = ''overrides the model the agent chose'', fr_bind = False\<rparr>),
    (''-a'', \<lparr>fr_why = ''overrides the model alias the agent sets'', fr_bind = False\<rparr>),
    (''--alias'', \<lparr>fr_why = ''overrides the model alias the agent sets'', fr_bind = False\<rparr>),
    (''-ag'', \<lparr>fr_why = ''enables built-in agent tools and a CORS proxy over HTTP'', fr_bind = False\<rparr>),
    (''--agent'', \<lparr>fr_why = ''enables built-in agent tools and a CORS proxy over HTTP'', fr_bind = False\<rparr>),
    (''-mu'', \<lparr>fr_why = downloadsModel, fr_bind = False\<rparr>),
    (''--model-url'', \<lparr>fr_why = downloadsModel, fr_bind = False\<rparr>),
    (''-dr'', \<lparr>fr_why = downloadsModel, fr_bind = False\<rparr>),
    (''--docker-repo'', \<lparr>fr_why = downloadsModel, fr_bind = False\<rparr>),
    (''-hf'', \<lparr>fr_why = downloadsModel, fr_bind = False\<rparr>),
    (''-hfr'', \<lparr>fr_why = downloadsModel, fr_bind = False\<rparr>),
    (''--hf-repo'', \<lparr>fr_why = downloadsModel, fr_bind = False\<rparr>),
    (''-hff'', \<lparr>fr_why = downloadsModel, fr_bind = False\<rparr>),
    (''--hf-file'', \<lparr>fr_why = downloadsModel, fr_bind = False\<rparr>),
    (''-hft'', \<lparr>fr_why = ''sets a token'', fr_bind = False\<rparr>),
    (''--hf-token'', \<lparr>fr_why = ''sets a token'', fr_bind = False\<rparr>),
    (''-hfd'', \<lparr>fr_why = downloadsModel, fr_bind = False\<rparr>),
    (''-hfrd'', \<lparr>fr_why = downloadsModel, fr_bind = False\<rparr>),
    (''--hf-repo-draft'', \<lparr>fr_why = downloadsModel, fr_bind = False\<rparr>),
    (''--spec-draft-hf'', \<lparr>fr_why = downloadsModel, fr_bind = False\<rparr>),
    (''-mmu'', \<lparr>fr_why = ''downloads a file'', fr_bind = False\<rparr>),
    (''--mmproj-url'', \<lparr>fr_why = ''downloads a file'', fr_bind = False\<rparr>)]"

definition mlxRefused :: "(gostring \<times> flagRule) list" where
  "mlxRefused = [
    (''--host'', \<lparr>fr_why = ''sets the bind address'', fr_bind = True\<rparr>),
    (''--port'', \<lparr>fr_why = ''sets the port'', fr_bind = True\<rparr>),
    (''--model'', \<lparr>fr_why = ''overrides the model the agent chose'', fr_bind = False\<rparr>)]"

definition tensorfoldRefused :: "(gostring \<times> flagRule) list" where
  "tensorfoldRefused = [
    (''--host'', \<lparr>fr_why = ''sets the bind address'', fr_bind = True\<rparr>),
    (''--port'', \<lparr>fr_why = ''sets the port'', fr_bind = True\<rparr>),
    (''--name'', \<lparr>fr_why = ''overrides the model id the agent set'', fr_bind = False\<rparr>),
    (''--alias'', \<lparr>fr_why = ''overrides the model id the agent set'', fr_bind = False\<rparr>),
    (''--backend'', \<lparr>fr_why = ''changes the backend'', fr_bind = False\<rparr>),
    (''--tp'', \<lparr>fr_why = ''joins or opens a multi-node group'', fr_bind = True\<rparr>),
    (''--rank'', \<lparr>fr_why = ''joins or opens a multi-node group'', fr_bind = True\<rparr>),
    (''--master'', \<lparr>fr_why = ''sets the multi-node group's master address'', fr_bind = True\<rparr>),
    (''--master-port'', \<lparr>fr_why = ''opens a multi-node group port'', fr_bind = True\<rparr>)]"

definition vllmSwiftRefused :: "(gostring \<times> flagRule) list" where
  "vllmSwiftRefused = [
    (''--host'', \<lparr>fr_why = ''sets the bind address'', fr_bind = True\<rparr>),
    (''--port'', \<lparr>fr_why = ''sets the port'', fr_bind = True\<rparr>),
    (''--uds'', \<lparr>fr_why = ''binds a unix socket'', fr_bind = True\<rparr>),
    (''--headless'', \<lparr>fr_why = ''changes serving mode'', fr_bind = True\<rparr>),
    (''--api-server-count'', \<lparr>fr_why = ''starts extra servers'', fr_bind = True\<rparr>),
    (''-asc'', \<lparr>fr_why = ''starts extra servers'', fr_bind = True\<rparr>),
    (''--config'', \<lparr>fr_why = ''a config file can set any flag, including the listen address and port'', fr_bind = True\<rparr>),
    (''--model'', \<lparr>fr_why = ''overrides the model the agent chose'', fr_bind = False\<rparr>),
    (''--served-model-name'', \<lparr>fr_why = ''overrides the model id the agent set'', fr_bind = False\<rparr>),
    (''--data-parallel-address'', \<lparr>fr_why = multiNodeWhy, fr_bind = True\<rparr>),
    (''-dpa'', \<lparr>fr_why = multiNodeWhy, fr_bind = True\<rparr>),
    (''--data-parallel-size'', \<lparr>fr_why = multiNodeWhy, fr_bind = True\<rparr>),
    (''-dp'', \<lparr>fr_why = multiNodeWhy, fr_bind = True\<rparr>),
    (''--data-parallel-size-local'', \<lparr>fr_why = multiNodeWhy, fr_bind = True\<rparr>),
    (''-dpl'', \<lparr>fr_why = multiNodeWhy, fr_bind = True\<rparr>),
    (''--data-parallel-rpc-port'', \<lparr>fr_why = multiNodeWhy, fr_bind = True\<rparr>),
    (''-dpp'', \<lparr>fr_why = multiNodeWhy, fr_bind = True\<rparr>),
    (''--data-parallel-external-lb'', \<lparr>fr_why = multiNodeWhy, fr_bind = True\<rparr>),
    (''-dpe'', \<lparr>fr_why = multiNodeWhy, fr_bind = True\<rparr>),
    (''--data-parallel-hybrid-lb'', \<lparr>fr_why = multiNodeWhy, fr_bind = True\<rparr>),
    (''-dph'', \<lparr>fr_why = multiNodeWhy, fr_bind = True\<rparr>),
    (''--data-parallel-start-rank'', \<lparr>fr_why = multiNodeWhy, fr_bind = True\<rparr>),
    (''-dpr'', \<lparr>fr_why = multiNodeWhy, fr_bind = True\<rparr>),
    (''--master-addr'', \<lparr>fr_why = multiNodeWhy, fr_bind = True\<rparr>),
    (''--master-port'', \<lparr>fr_why = multiNodeWhy, fr_bind = True\<rparr>),
    (''--nnodes'', \<lparr>fr_why = multiNodeWhy, fr_bind = True\<rparr>),
    (''-n'', \<lparr>fr_why = multiNodeWhy, fr_bind = True\<rparr>),
    (''--node-rank'', \<lparr>fr_why = multiNodeWhy, fr_bind = True\<rparr>),
    (''-r'', \<lparr>fr_why = multiNodeWhy, fr_bind = True\<rparr>),
    (''--data-parallel-rank'', \<lparr>fr_why = multiNodeWhy, fr_bind = True\<rparr>),
    (''-dpn'', \<lparr>fr_why = multiNodeWhy, fr_bind = True\<rparr>),
    (''--data-parallel-backend'', \<lparr>fr_why = multiNodeWhy, fr_bind = True\<rparr>),
    (''-dpb'', \<lparr>fr_why = multiNodeWhy, fr_bind = True\<rparr>),
    (''--kv-events-config'', \<lparr>fr_why = distributedWhy, fr_bind = True\<rparr>),
    (''--kv-transfer-config'', \<lparr>fr_why = distributedWhy, fr_bind = True\<rparr>),
    (''--ec-transfer-config'', \<lparr>fr_why = distributedWhy, fr_bind = True\<rparr>),
    (''--weight-transfer-config'', \<lparr>fr_why = distributedWhy, fr_bind = True\<rparr>),
    (''--distributed-executor-backend'', \<lparr>fr_why = distributedWhy, fr_bind = True\<rparr>)]"

definition vllmRefused :: "(gostring \<times> gostring) list" where
  "vllmRefused = [
    (''--trust-remote-code'', ''runs model-supplied code''),
    (''--code-revision'', ''runs model-supplied code''),
    (''--middleware'', ''imports Python code''),
    (''--logits-processors'', ''imports Python code''),
    (''--tool-server'', ''connects to a tool server''),
    (''--log-config-file'', ''reads a logging config that can name Python classes''),
    (''--download-dir'', ''writes downloads to a directory''),
    (''--allowed-local-media-path'', ''serves local files''),
    (''--root-path'', ''changes the served path''),
    (''--api-key'', ''sets auth keys''),
    (''--ssl-keyfile'', ''reads a key file''),
    (''--ssl-certfile'', ''reads a cert file''),
    (''--ssl-ca-certs'', ''reads CA files''),
    (''--allowed-origins'', ''changes CORS''),
    (''--allow-credentials'', ''changes CORS''),
    (''--otlp-traces-endpoint'', ''sends traces to a remote endpoint''),
    (''--trust-request-chat-template'', ''lets any API client, not only the InferenceService writer, supply a chat template for the server to render''),
    (''--enable-prompt-embeds'', torchLoadEmbedsWhy),
    (''--enable-mm-embeds'', torchLoadEmbedsWhy)]"

definition refusedByRuntime :: "gostring \<Rightarrow> (gostring \<times> flagRule) list option" where
  "refusedByRuntime runtime =
     (if isLlamaRuntime runtime then Some llamaRefused
      else if runtime = RuntimeMLXServer then Some mlxRefused
      else if runtime = RuntimeTensorFold then Some tensorfoldRefused
      else if runtime = RuntimeVLLMSwift then Some vllmSwiftRefused
      else None)"

definition bindFlagNames :: "gostring \<Rightarrow> gostring list" where
  "bindFlagNames runtime =
     (case refusedByRuntime runtime of None \<Rightarrow> [] | Some table \<Rightarrow> map fst (filter (\<lambda>(flag, rule). fr_bind rule) table))"

definition abbreviatesBindFlag :: "gostring \<Rightarrow> gostring \<Rightarrow> bool" where
  "abbreviatesBindFlag runtime flag \<longleftrightarrow> (\<exists>bf \<in> set (bindFlagNames runtime). flag \<noteq> bf \<and> has_prefix flag bf)"

definition llamaPreset :: "gostring \<Rightarrow> bool" where
  "llamaPreset flag \<longleftrightarrow> has_prefix ''--fim-'' flag \<or> has_suffix ''-default'' flag"

definition presetWhy :: "gostring \<Rightarrow> gostring" where
  "presetWhy flag =
     (if flag = ''--spec-default'' then ''changes the speculative decoding configuration to a bundled preset''
      else ''downloads a preset model'')"

definition prefixesKnownFlag :: "gostring \<Rightarrow> gostring \<Rightarrow> bool" where
  "prefixesKnownFlag runtime name \<longleftrightarrow> (\<exists>(flag, s) \<in> set (flagSpecs runtime). flag \<noteq> name \<and> has_prefix name flag)"

definition isNegation :: "Arg \<Rightarrow> gostring \<Rightarrow> bool" where
  "isNegation a canonical \<longleftrightarrow>
     \<not> ar_Inline a \<and> ar_Name a \<noteq> canonical \<and> (has_prefix ''--no-'' (ar_Name a) \<or> has_prefix ''-no-'' (ar_Name a))"

primrec checkOptTokens :: "gostring \<Rightarrow> gostring list \<Rightarrow> RejectedError option" where
  "checkOptTokens runtime [] = None"
| "checkOptTokens runtime (tok # rest) =
     (if \<not> has_prefix ''-O'' tok \<or> vllmOptLevelInline tok then checkOptTokens runtime rest
      else if tok = ''-O'' \<and> rest \<noteq> [] \<and> vllmOptLevelValue (hd rest) then checkOptTokens runtime rest
      else Some \<lparr>re_Runtime = runtime, re_Flag = tok, re_Rule = ''bind'',
        re_Why = ''vLLM rewrites -O tokens, which can carry other flags; only -O0..-O3, -O=N and -O N are allowed'', re_Relaxable = False\<rparr>)"

text \<open>A loop that returns the first error of its elements.\<close>

primrec firstError :: "('a \<Rightarrow> 'e option) \<Rightarrow> 'a list \<Rightarrow> 'e option" where
  "firstError f [] = None"
| "firstError f (x # xs) = (case f x of Some e \<Rightarrow> Some e | None \<Rightarrow> firstError f xs)"

definition checkOptimizationRewrite :: "ArgsInput \<Rightarrow> RejectedError option" where
  "checkOptimizationRewrite inp =
     (if in_Runtime inp \<noteq> RuntimeVLLMSwift then None else checkOptTokens (in_Runtime inp) (in_Args inp))"

definition tableRule :: "(gostring \<times> flagRule) list \<Rightarrow> Arg \<Rightarrow> flagRule option" where
  "tableRule table a =
     (case map_of table (ar_Name a) of
        Some r \<Rightarrow> Some r
      | None \<Rightarrow> if isNegation a (Canonical a) then None else map_of table (Canonical a))"

definition tableHit :: "ArgsInput \<Rightarrow> (gostring \<times> flagRule) list \<Rightarrow> Arg \<Rightarrow> flagRule option" where
  "tableHit inp table a =
     (case tableRule table a of
        Some r \<Rightarrow> if fr_bind r \<or> \<not> in_AllowUnsafe inp then Some r else None
      | None \<Rightarrow> None)"

definition checkFlag :: "ArgsInput \<Rightarrow> (gostring \<times> flagRule) list \<Rightarrow> Arg \<Rightarrow> RejectedError option" where
  "checkFlag inp table a =
     (let rt = in_Runtime inp; isArgparse = isArgparseRuntime rt; canonical = Canonical a;
          refuse = (\<lambda>rule why relaxable. Some \<lparr>re_Runtime = rt, re_Flag = ar_Flag a, re_Rule = rule, re_Why = why, re_Relaxable = relaxable\<rparr>) in
      if isArgparse \<and> (ar_Name a = ''-'' \<or> ar_Name a = ''--'')
      then refuse ''refused-flag'' ''bare option separators are not allowed in extraArgs'' False
      else (case tableHit inp table a of
          Some r \<Rightarrow> refuse (if fr_bind r then ''bind'' else ''refused-flag'') (fr_why r) (\<not> fr_bind r)
        | None \<Rightarrow>
            if isArgparse \<and> abbreviatesBindFlag rt (ar_Name a)
            then refuse ''bind'' ''abbreviates a flag that controls how the engine listens or is registered'' False
            else if in_AllowUnsafe inp then None
            else if isLlamaRuntime rt \<and> (llamaPreset (ar_Name a) \<or> llamaPreset canonical)
            then refuse ''refused-flag'' (presetWhy (if llamaPreset (ar_Name a) then ar_Name a else canonical)) True
            else if \<not> ar_Known a
            then refuse ''unknown-flag'' (''not a recognized flag for this engine version'' @
                (if isArgparse \<and> prefixesKnownFlag rt (ar_Name a)
                 then '' (argparse would accept it as an abbreviation of another flag)'' else '''')) True
            else None))"

section \<open>Code loading\<close>

definition vllmConfigAllowed :: "gostring \<Rightarrow> bool" where
  "vllmConfigAllowed f \<longleftrightarrow> f \<in> {''--generation-config'', ''--override-generation-config''}"

definition vllmJSONAllowed :: "gostring \<Rightarrow> bool" where
  "vllmJSONAllowed f \<longleftrightarrow> f = ''--override-generation-config''"

text \<open>\<open>unicode.IsSpace\<close> and the byte-order mark.\<close>

definition trimmedRune :: "nat \<Rightarrow> bool" where
  "trimmedRune r \<longleftrightarrow> r \<in> {9..13} \<or> r \<in> {32, 133, 160, 5760, 8232, 8233, 8239, 8287, 12288, 65279} \<or> r \<in> {8192..8202}"

function trimLeftSpace :: "gostring \<Rightarrow> gostring" where
  "trimLeftSpace v =
     (if v \<noteq> [] \<and> trimmedRune (fst (decodeRune v)) then trimLeftSpace (drop (snd (decodeRune v)) v) else v)"
  by pat_completeness auto
termination
proof (relation "measure length", goal_cases)
  case (2 v)
  then show ?case using decodeRune_width [of v] by auto
qed simp

declare trimLeftSpace.simps [simp del]

definition inlineJinja :: "gostring \<Rightarrow> bool" where
  "inlineJinja v =
     (let t = trimLeftSpace v in has_prefix ''{%'' t \<or> has_prefix ''{{'' t \<or> has_prefix ''{#'' t)"

definition inlineJSON :: "gostring \<Rightarrow> bool" where
  "inlineJSON v = (let t = trimLeftSpace v in has_prefix ''{'' t \<or> has_prefix ''['' t)"

definition vllmDottedKey :: "gostring \<Rightarrow> gostring option" where
  "vllmDottedKey tok =
     (let name = takeWhile (\<lambda>c. c \<noteq> CHR ''='') tok in
      if has_prefix ''-'' tok \<and> CHR ''.'' \<in> set name then Some name else None)"

definition codeRefusal :: "gostring \<Rightarrow> gostring \<Rightarrow> gostring \<Rightarrow> RejectedError" where
  "codeRefusal runtime flag why =
     \<lparr>re_Runtime = runtime, re_Flag = flag, re_Rule = ''code-loading'', re_Why = why, re_Relaxable = True\<rparr>"

definition dottedWhy :: gostring where
  "dottedWhy = ''dotted-key flags set fields inside JSON config and bypass inline-JSON checks''"

definition dottedValueWhy :: gostring where
  "dottedValueWhy = ''vLLM's parser reads any value starting with '' @ [CHR 0x22] @ ''-'' @ [CHR 0x22] @ '' that contains '' @ [CHR 0x22] @ ''.'' @
     [CHR 0x22] @ '' as a dotted-key flag, which sets fields inside JSON config''"



definition checkCodeArg :: "gostring \<Rightarrow> Arg \<Rightarrow> RejectedError option" where
  "checkCodeArg rt a =
     (let canonical = Canonical a in
      if Stray a then None
      else if vllmDottedKey (ar_Flag a) \<noteq> None then Some (codeRefusal rt (ar_Flag a) dottedWhy)
      else (case firstError vllmDottedKey (if ar_Inline a then tl (ar_Values a) else ar_Values a) of
          Some name \<Rightarrow> Some (codeRefusal rt name dottedValueWhy)
        | None \<Rightarrow>
            (case (if isNegation a canonical then None else map_of vllmRefused canonical) of
               Some why \<Rightarrow> Some (codeRefusal rt (ar_Flag a) why)
             | None \<Rightarrow>
                 if \<not> vllmConfigAllowed canonical \<and>
                    (has_suffix ''-cls'' canonical \<or> has_suffix ''-plugin'' canonical \<or> has_suffix ''-config'' canonical)
                 then Some (codeRefusal rt (ar_Flag a) ''can load Python classes or modules'')
                 else if vllmJSONAllowed canonical then None
                 else if \<exists>v \<in> set (ar_Values a). \<not> (canonical = ''--chat-template'' \<and> inlineJinja v) \<and> inlineJSON v
                 then Some (codeRefusal rt (ar_Flag a) ''inline JSON config can name Python modules or files'')
                 else None)))"



definition checkCodeLoading :: "ArgsInput \<Rightarrow> Arg list \<Rightarrow> RejectedError option" where
  "checkCodeLoading inp parsed =
     (if in_Runtime inp \<noteq> RuntimeVLLMSwift then None else firstError (checkCodeArg (in_Runtime inp)) parsed)"

section \<open>Path values\<close>

fun csvQuoted :: "gostring \<Rightarrow> gostring \<times> gostring" where
  "csvQuoted [] = ([], [])"
| "csvQuoted [c] = (if c \<noteq> CHR 0x22 then ([c], []) else ([], []))"
| "csvQuoted (c # d # s) =
     (if c \<noteq> CHR 0x22 then apfst (Cons c) (csvQuoted (d # s))
      else if d = CHR 0x22 then apfst (Cons d) (csvQuoted s)
      else ([], d # s))"

definition csvField :: "gostring \<Rightarrow> gostring \<times> gostring" where
  "csvField s =
     (case s of
        [] \<Rightarrow> ([], [])
      | c # s' \<Rightarrow>
          if c = CHR 0x22
          then (case csvQuoted s' of
              (content, r) \<Rightarrow> (content @ takeWhile (\<lambda>x. x \<noteq> CHR '','') r, dropWhile (\<lambda>x. x \<noteq> CHR '','') r))
          else (takeWhile (\<lambda>x. x \<noteq> CHR '','') s, dropWhile (\<lambda>x. x \<noteq> CHR '','') s))"

lemma csvQuoted_rest: "length (snd (csvQuoted s)) \<le> length s"
  by (induction s rule: csvQuoted.induct) auto

lemma csvField_Cons:
  "csvField (c # s) =
     (if c = CHR 0x22 then (fst (csvQuoted s) @ takeWhile (\<lambda>x. x \<noteq> CHR '','') (snd (csvQuoted s)), dropWhile (\<lambda>x. x \<noteq> CHR '','') (snd (csvQuoted s)))
      else (takeWhile (\<lambda>x. x \<noteq> CHR '','') (c # s), dropWhile (\<lambda>x. x \<noteq> CHR '','') (c # s)))"
  unfolding csvField_def by (simp only: list.case case_prod_beta)

lemma csvField_rest: "length (snd (csvField s)) \<le> length s"
proof (cases s)
  case (Cons c s')
  show ?thesis
  proof (cases "c = CHR 0x22")
    case True
    then have "length (snd (csvField s)) \<le> length (snd (csvQuoted s'))" by (simp add: Cons csvField_Cons length_dropWhile_le)
    then show ?thesis using csvQuoted_rest [of s'] by (simp add: Cons)
  next
    case False
    then show ?thesis unfolding Cons csvField_Cons by (simp only: if_False snd_conv length_dropWhile_le)
  qed
qed (simp add: csvField_def)

function parseCSVRow :: "gostring \<Rightarrow> gostring list" where
  "parseCSVRow s =
     (case csvField s of
        (field, []) \<Rightarrow> [field]
      | (field, c # r) \<Rightarrow> field # parseCSVRow r)"
  by pat_completeness auto
termination
proof (relation "measure length", goal_cases)
  case (2 s field rest c r)
  then have "csvField s = (field, c # r)" by simp
  then show ?case using csvField_rest [of s] by simp
qed simp

declare parseCSVRow.simps [simp del]

definition nameEqPathWhy :: gostring where
  "nameEqPathWhy = ''value is not a name=path entry (vLLM would parse it as JSON or fail); only name=path is allowed''"

definition decodePaths :: "PathDecode \<Rightarrow> gostring \<Rightarrow> gostring + gostring list" where
  "decodePaths d v =
     (case d of
        DecodeWhole \<Rightarrow> Inr [v]
      | DecodeCSV \<Rightarrow> Inr (parseCSVRow v)
      | DecodeCSVColon \<Rightarrow> Inr (map (\<lambda>f. hd (split_on (CHR '':'') f)) (parseCSVRow v))
      | DecodeNameEqPath \<Rightarrow>
          if CHR '','' \<in> set v \<or> length (filter (\<lambda>c. c = CHR ''='') v) \<noteq> 1 then Inl nameEqPathWhy
          else Inr [(case cut_at (CHR ''='') v of None \<Rightarrow> '''' | Some (n, p) \<Rightarrow> p)]
      | DecodeNone \<Rightarrow> Inl ''no decode rule for this path flag'')"

definition extraArgsPathHint :: gostring where
  "extraArgsPathHint = ''add its directory to --allowed-model-roots, or set --allow-unsafe-extra-args on the agent to override''"

definition checkPath :: "filesystem \<Rightarrow> nat \<Rightarrow> ArgsInput \<Rightarrow> gostring \<Rightarrow> gostring \<Rightarrow> bool \<Rightarrow> policy_error option" where
  "checkPath fs L inp what p mustExist =
     (case (if mustExist then CheckPathExists fs L (in_Roots inp) what p (in_WorkDir inp) (in_Home inp)
            else CheckPath fs L (in_Roots inp) what p (in_WorkDir inp) (in_Home inp)) of
        None \<Rightarrow> None
      | Some pe \<Rightarrow> Some (BadPath (pe\<lparr>pe_Hint := extraArgsPathHint\<rparr>)))"

text \<open>\<open>filepath.Join(filepath.Dir(filepath.Clean(p)), "session-snapshots")\<close> on components.\<close>

definition tensorfoldSessionSnapshots :: "gostring \<Rightarrow> gostring \<Rightarrow> gostring \<Rightarrow> gostring list" where
  "tensorfoldSessionSnapshots value workDir home =
     (let p = (if value = ''~'' \<and> home \<noteq> '''' then home
               else if has_prefix ''~/'' value \<and> home \<noteq> '''' then home @ ''/'' @ drop 2 value
               else value);
          q = (if filepath_IsAbs p then p else if workDir = '''' then p else workDir @ ''/'' @ p);
          dir = butlast (cleanParts (filepath_IsAbs q) (split_on (CHR ''/'') q)) in
      [(if filepath_IsAbs q then ''/'' else '''') @ join_with ''/'' (dir @ [''session-snapshots''])])"

definition extraPathsFor :: "gostring \<Rightarrow> gostring \<Rightarrow> (gostring \<Rightarrow> gostring \<Rightarrow> gostring \<Rightarrow> gostring list) option" where
  "extraPathsFor runtime flag =
     (if runtime = RuntimeTensorFold \<and> flag = ''--snapshot-dir'' then Some tensorfoldSessionSnapshots else None)"

definition checkValue :: "filesystem \<Rightarrow> nat \<Rightarrow> ArgsInput \<Rightarrow> Arg \<Rightarrow> gostring \<Rightarrow> policy_error option" where
  "checkValue fs L inp a v =
     (let what = ''extraArgs value for '' @ ar_Flag a in
      if isNonPathLiteral (in_Runtime inp) (fs_Canonical (ar_Spec a)) v then None
      else (case decodePaths (fs_Decode (ar_Spec a)) v of
          Inl why \<Rightarrow> Some (Rejected \<lparr>re_Runtime = in_Runtime inp, re_Flag = ar_Flag a, re_Rule = ''path'', re_Why = why, re_Relaxable = True\<rparr>)
        | Inr paths \<Rightarrow>
            (case firstError (\<lambda>p. checkPath fs L inp what p (fs_MustExist (ar_Spec a))) paths of
               Some e \<Rightarrow> Some e
             | None \<Rightarrow>
                 (case extraPathsFor (in_Runtime inp) (fs_Canonical (ar_Spec a)) of
                    None \<Rightarrow> None
                  | Some extra \<Rightarrow> firstError (\<lambda>p. checkPath fs L inp what p False) (extra v (in_WorkDir inp) (in_Home inp))))))"

definition checkPathArg :: "filesystem \<Rightarrow> nat \<Rightarrow> ArgsInput \<Rightarrow> Arg \<Rightarrow> policy_error option" where
  "checkPathArg fs L inp a =
     (if \<not> ar_Known a \<or> fs_Kind (ar_Spec a) \<noteq> KindPath then None
      else firstError (checkValue fs L inp a) (ar_Values a))"

definition checkPaths :: "filesystem \<Rightarrow> nat \<Rightarrow> ArgsInput \<Rightarrow> Arg list \<Rightarrow> policy_error option" where
  "checkPaths fs L inp args = firstError (checkPathArg fs L inp) args"

section \<open>The whole check\<close>

definition checkStray :: "gostring \<Rightarrow> Arg \<Rightarrow> RejectedError option" where
  "checkStray rt a =
     (if Stray a then Some \<lparr>re_Runtime = rt, re_Flag = hd (ar_Values a), re_Rule = ''stray-token'',
        re_Why = ''no flag takes it as a value; positional arguments are not allowed in extraArgs'', re_Relaxable = True\<rparr>
      else None)"

definition CheckExtraArgs :: "filesystem \<Rightarrow> nat \<Rightarrow> ArgsInput \<Rightarrow> policy_error option" where
  "CheckExtraArgs fs L inp =
     (case refusedByRuntime (in_Runtime inp) of
        None \<Rightarrow>
          if in_Args inp = [] then None
          else Some (Rejected \<lparr>re_Runtime = in_Runtime inp, re_Flag = hd (in_Args inp), re_Rule = ''unsupported-runtime'',
            re_Why = ''extraArgs are not supported for this runtime'', re_Relaxable = False\<rparr>)
      | Some table \<Rightarrow>
          (case checkOptimizationRewrite inp of
             Some e \<Rightarrow> Some (Rejected e)
           | None \<Rightarrow>
               (let args = parseTyped (in_Runtime inp) (in_Args inp) in
                case firstError (\<lambda>a. if Stray a then None else checkFlag inp table a) args of
                  Some e \<Rightarrow> Some (Rejected e)
                | None \<Rightarrow>
                    if in_AllowUnsafe inp then None
                    else (case firstError (checkStray (in_Runtime inp)) args of
                        Some e \<Rightarrow> Some (Rejected e)
                      | None \<Rightarrow>
                          (case checkCodeLoading inp args of
                             Some e \<Rightarrow> Some (Rejected e)
                           | None \<Rightarrow> checkPaths fs L inp args)))))"

section \<open>Loops and tables\<close>


lemma firstError_Some_in: "firstError f xs = Some e \<Longrightarrow> \<exists>x \<in> set xs. f x = Some e"
  by (induction xs) (auto split: option.splits)










section \<open>Override\<close>

abbreviation unsafe :: "ArgsInput \<Rightarrow> ArgsInput" where
  "unsafe inp \<equiv> inp\<lparr>in_AllowUnsafe := True\<rparr>"

lemma checkFlag_override:
  assumes "\<not> in_AllowUnsafe inp"
  shows "checkFlag (unsafe inp) table a = (case checkFlag inp table a of
      None \<Rightarrow> None
    | Some e \<Rightarrow> if re_Relaxable e then checkFlag (unsafe inp) table a else Some e)"
  using assms
  by (cases "tableRule table a") (auto simp: checkFlag_def tableHit_def Let_def split: option.splits if_splits)

lemma checkFlag_unsafe: "checkFlag (unsafe inp) table a = Some e \<Longrightarrow> \<not> re_Relaxable e"
  by (cases "tableRule table a") (auto simp: checkFlag_def tableHit_def Let_def split: option.splits if_splits)

lemma checkFlag_bind_rule: "checkFlag inp table a = Some e \<Longrightarrow> re_Rule e = ''bind'' \<Longrightarrow> \<not> re_Relaxable e"
  by (cases "tableRule table a") (auto simp: checkFlag_def tableHit_def Let_def split: option.splits if_splits)

lemma firstError_same:
  assumes "firstError f xs = Some e" and "P e" and "\<And>x. f x = None \<Longrightarrow> g x = None"
    and "\<And>x e. f x = Some e \<Longrightarrow> P e \<Longrightarrow> g x = Some e"
  shows "firstError g xs = Some e"
  using assms by (induction xs) (auto split: option.splits)

definition overrideHint :: gostring where
  "overrideHint = ''; set --allow-unsafe-extra-args on the agent to override''"

definition errorHint :: "RejectedError \<Rightarrow> gostring" where
  "errorHint e =
     (if re_Rule e = ''bind'' then ''; the agent controls how this engine listens and is registered''
      else if re_Relaxable e then overrideHint
      else '''')"

lemma errorHint_override: "errorHint e = overrideHint \<longleftrightarrow> re_Rule e \<noteq> ''bind'' \<and> re_Relaxable e"
  by (simp add: errorHint_def overrideHint_def)

definition flagErrors :: "ArgsInput \<Rightarrow> (gostring \<times> flagRule) list \<Rightarrow> RejectedError option" where
  "flagErrors inp table =
     firstError (\<lambda>a. if Stray a then None else checkFlag inp table a) (parseTyped (in_Runtime inp) (in_Args inp))"

lemma flagErrors_rule: "flagErrors inp table = Some e \<Longrightarrow> re_Rule e = ''bind'' \<Longrightarrow> \<not> re_Relaxable e"
  unfolding flagErrors_def by (drule firstError_Some_in) (auto split: if_splits dest: checkFlag_bind_rule)

lemma flagErrors_unsafe: "flagErrors (unsafe inp) table = Some e \<Longrightarrow> \<not> re_Relaxable e"
  unfolding flagErrors_def by (drule firstError_Some_in) (auto split: if_splits dest: checkFlag_unsafe)

lemma flagErrors_override:
  assumes "\<not> in_AllowUnsafe inp" and "flagErrors inp table = Some e" and "\<not> re_Relaxable e"
  shows "flagErrors (unsafe inp) table = Some e"
  unfolding flagErrors_def
proof (rule firstError_same [where P = "\<lambda>e. \<not> re_Relaxable e"])
  show "firstError (\<lambda>a. if Stray a then None else checkFlag inp table a)
      (parseTyped (in_Runtime (unsafe inp)) (in_Args (unsafe inp))) = Some e"
    using assms(2) by (simp add: flagErrors_def)
next
  fix a
  assume "(if Stray a then None else checkFlag inp table a) = None"
  then show "(if Stray a then None else checkFlag (unsafe inp) table a) = None"
    using checkFlag_override [OF assms(1), of table a] by (auto split: if_splits)
next
  fix a e
  assume "(if Stray a then None else checkFlag inp table a) = Some e" "\<not> re_Relaxable e"
  then show "(if Stray a then None else checkFlag (unsafe inp) table a) = Some e"
    using checkFlag_override [OF assms(1), of table a] by (auto split: if_splits)
qed (rule assms(3))

lemma CheckExtraArgs_cases:
  assumes "CheckExtraArgs fs L inp = Some (Rejected e)"
  obtains (unsupported) "refusedByRuntime (in_Runtime inp) = None" "re_Rule e = ''unsupported-runtime''" "\<not> re_Relaxable e"
  | (rewritten) table where "refusedByRuntime (in_Runtime inp) = Some table" "checkOptimizationRewrite inp = Some e"
  | (flag) table where "refusedByRuntime (in_Runtime inp) = Some table" "checkOptimizationRewrite inp = None" "flagErrors inp table = Some e"
  | (later) table where "refusedByRuntime (in_Runtime inp) = Some table" "checkOptimizationRewrite inp = None" "flagErrors inp table = None"
      "\<not> in_AllowUnsafe inp" "re_Relaxable e" "re_Rule e \<noteq> ''bind''"
proof (cases "refusedByRuntime (in_Runtime inp)")
  case None
  with assms show ?thesis by (intro unsupported) (auto simp: CheckExtraArgs_def split: if_splits)
next
  case (Some table)
  note run = assms [unfolded CheckExtraArgs_def Some, simplified, folded flagErrors_def]
  have code: "re_Relaxable e" "re_Rule e \<noteq> ''bind''" if "checkCodeLoading inp args = Some e" for args
    using that by (auto simp: checkCodeLoading_def checkCodeArg_def codeRefusal_def Let_def split: if_splits option.splits dest!: firstError_Some_in)
  have stray: "re_Relaxable e" "re_Rule e \<noteq> ''bind''" if "firstError (checkStray rt) args = Some e" for rt args
    using that by (auto simp: checkStray_def split: if_splits dest!: firstError_Some_in)
  have paths: "re_Relaxable e" "re_Rule e \<noteq> ''bind''" if "checkPaths fs L inp args = Some (Rejected e)" for args
    using that by (auto simp: checkPaths_def checkPathArg_def checkValue_def checkPath_def Let_def split: if_splits option.splits sum.splits dest!: firstError_Some_in)
  show ?thesis
  proof (cases "checkOptimizationRewrite inp")
    case (Some e')
    with run rewritten [OF \<open>refusedByRuntime (in_Runtime inp) = Some table\<close>] show ?thesis by simp
  next
    case None
    show ?thesis
    proof (cases "flagErrors inp table")
      case (Some e')
      with run None flag [OF \<open>refusedByRuntime (in_Runtime inp) = Some table\<close> None] show ?thesis by (simp add: flagErrors_def)
    next
      case none: None
      have "\<not> in_AllowUnsafe inp \<and> re_Relaxable e \<and> re_Rule e \<noteq> ''bind''"
        using run None none code stray paths by (auto simp: flagErrors_def Let_def split: if_splits option.splits)
      with later [OF \<open>refusedByRuntime (in_Runtime inp) = Some table\<close> None none] show ?thesis by blast
    qed
  qed
qed

lemma checkOptimizationRewrite_bind:
  "checkOptimizationRewrite inp = Some e \<Longrightarrow> re_Rule e = ''bind'' \<and> \<not> re_Relaxable e"
proof -
  have "checkOptTokens rt toks = Some e \<Longrightarrow> re_Rule e = ''bind'' \<and> \<not> re_Relaxable e" for rt toks
    by (induction toks) (auto split: if_splits)
  then show "checkOptimizationRewrite inp = Some e \<Longrightarrow> ?thesis" by (auto simp: checkOptimizationRewrite_def split: if_splits)
qed

lemma CheckExtraArgs_unsafe:
  "CheckExtraArgs fs L (unsafe inp) =
     (case refusedByRuntime (in_Runtime inp) of
        None \<Rightarrow> CheckExtraArgs fs L inp
      | Some table \<Rightarrow>
          (case checkOptimizationRewrite inp of
             Some e \<Rightarrow> Some (Rejected e)
           | None \<Rightarrow> map_option Rejected (flagErrors (unsafe inp) table)))"
  by (simp add: CheckExtraArgs_def flagErrors_def checkOptimizationRewrite_def Let_def split: option.splits)

lemma override_exact:
  assumes "CheckExtraArgs fs L inp = Some (Rejected e)" and "\<not> in_AllowUnsafe inp"
  shows "errorHint e = overrideHint \<longleftrightarrow> CheckExtraArgs fs L (unsafe inp) \<noteq> Some (Rejected e)"
  using assms(1)
proof (cases rule: CheckExtraArgs_cases)
  case unsupported
  with assms(1) show ?thesis by (simp add: errorHint_override CheckExtraArgs_unsafe)
next
  case (rewritten table)
  with checkOptimizationRewrite_bind [OF rewritten(2)] show ?thesis by (simp add: errorHint_override CheckExtraArgs_unsafe)
next
  case (flag table)
  have unsafe: "CheckExtraArgs fs L (unsafe inp) = map_option Rejected (flagErrors (unsafe inp) table)"
    using flag by (simp add: CheckExtraArgs_unsafe)
  show ?thesis
  proof (cases "re_Relaxable e")
    case True
    with flagErrors_rule [OF flag(3)] flagErrors_unsafe [of inp table e] show ?thesis by (auto simp: unsafe errorHint_override)
  next
    case False
    with flagErrors_override [OF assms(2) flag(3)] show ?thesis by (simp add: unsafe errorHint_override)
  qed
next
  case (later table)
  with flagErrors_unsafe [of inp table e] show ?thesis by (auto simp: errorHint_override CheckExtraArgs_unsafe)
qed

section \<open>How the engines read a token\<close>




















section \<open>Comma-separated values\<close>

definition csvQuote :: "gostring \<Rightarrow> gostring" where
  "csvQuote f = CHR 0x22 # concat (map (\<lambda>c. if c = CHR 0x22 then [c, c] else [c]) f) @ [CHR 0x22]"

lemma csvQuoted_escaped:
  assumes "r = [] \<or> hd r \<noteq> CHR 0x22"
  shows "csvQuoted (concat (map (\<lambda>c. if c = CHR 0x22 then [c, c] else [c]) f) @ CHR 0x22 # r) = (f, r)"
proof (induction f)
  case Nil
  show ?case using assms by (cases r) auto
next
  case (Cons c f)
  show ?case
  proof (cases "c = CHR 0x22")
    case True
    with Cons show ?thesis by simp
  next
    case False
    obtain d s where ds: "concat (map (\<lambda>c. if c = CHR 0x22 then [c, c] else [c]) f) @ CHR 0x22 # r = d # s"
      by (cases "concat (map (\<lambda>c. if c = CHR 0x22 then [c, c] else [c]) f) @ CHR 0x22 # r") auto
    from False have "csvQuoted (c # d # s) = apfst (Cons c) (csvQuoted (d # s))" by simp
    with False Cons show ?thesis unfolding ds [symmetric] by simp
  qed
qed

lemma csvField_quoted: "r = [] \<or> hd r = CHR '','' \<Longrightarrow> csvField (csvQuote f @ r) = (f, r)"
  using csvQuoted_escaped [of r f] by (cases r) (auto simp: csvQuote_def csvField_Cons)

lemma parseCSVRow_quoted: "fs \<noteq> [] \<Longrightarrow> parseCSVRow (join_with '','' (map csvQuote fs)) = fs"
proof (induction fs rule: induct_list012)
  case (2 f)
  show ?case using csvField_quoted [of "[]" f] by (subst parseCSVRow.simps) simp
next
  case (3 f g fs)
  have "csvField (csvQuote f @ '','' @ join_with '','' (map csvQuote (g # fs))) = (f, '','' @ join_with '','' (map csvQuote (g # fs)))"
    by (rule csvField_quoted) simp
  then have "parseCSVRow (join_with '','' (map csvQuote (f # g # fs))) = f # parseCSVRow (join_with '','' (map csvQuote (g # fs)))"
    by (subst parseCSVRow.simps) simp
  with 3 show ?case by simp
qed simp

section \<open>Properties\<close>















text \<open>The advice in a refusal is right: it tells the operator about the override exactly when the override does not
  lead to the very same refusal.\<close>
lemma override_hint_exact:
  assumes "CheckExtraArgs fs L inp = Some (Rejected e)" and "\<not> in_AllowUnsafe inp"
  shows "errorHint e = overrideHint \<longleftrightarrow> CheckExtraArgs fs L (inp\<lparr>in_AllowUnsafe := True\<rparr>) \<noteq> Some (Rejected e)"
  using assms by (rule override_exact)

text \<open>C31. Round trip: \<open>parseCSVRow\<close> reads back any fields that are written with every field in quotes and the quotes in
  them doubled, whatever commas and quotes they contain.\<close>
theorem parseCSVRow_roundtrip:
  assumes "row \<noteq> []"
  shows "parseCSVRow (join_with '','' (map csvQuote row)) = row"
  using assms by (rule parseCSVRow_quoted)

theorem parseCSVRow_roundtrip_witness:
  "parseCSVRow (join_with '','' (map csvQuote [''a,b'', [CHR 0x22], []])) = [''a,b'', [CHR 0x22], []]"
  by (rule parseCSVRow_roundtrip) simp

end
