(* ===== verification/Start_Policy.thy ===== *)
theory Start_Policy
  imports Policy_Args
begin

text \<open>
  The checks that stand between an InferenceService and a running engine on the metal host
  (\<open>src/pkg/agent/refusal.go\<close>, \<open>digest_memo.go\<close>), with the functions of the executors that turn the source of a Model into
  the path handed to the engine. The properties relate the two: what is checked and what is opened.
\<close>

section \<open>Local sources\<close>

definition hasFileScheme :: "gostring \<Rightarrow> bool" where
  "hasFileScheme source \<longleftrightarrow> length source \<ge> 7 \<and> toLower (take 7 source) = ''file://''"

definition isLocalModelSource :: "gostring \<Rightarrow> bool" where
  "isLocalModelSource source \<longleftrightarrow> hasFileScheme source \<or> has_prefix ''/'' source"

definition localSourcePath :: "gostring \<Rightarrow> gostring" where
  "localSourcePath source = (if hasFileScheme source then drop 7 source else source)"

fun containsSub :: "gostring \<Rightarrow> gostring \<Rightarrow> bool" where
  "containsSub sub [] = (sub = [])"
| "containsSub sub (c # s) = (has_prefix sub (c # s) \<or> containsSub sub s)"


section \<open>The memo of refused downloads\<close>

datatype download_error = DigestMismatch gostring | DownloadTooLarge gostring

type_synonym NamespacedName = "gostring \<times> gostring"

record digestMismatchEntry =
  de_source :: gostring
  de_sha256 :: gostring
  de_err :: download_error

record digestMismatchMemo =
  dm_entries :: "NamespacedName \<Rightarrow> digestMismatchEntry option"
  dm_isvcRefs :: "gostring \<Rightarrow> NamespacedName option"

definition newDigestMismatchMemo :: digestMismatchMemo where
  "newDigestMismatchMemo = \<lparr>dm_entries = Map.empty, dm_isvcRefs = Map.empty\<rparr>"

definition noteRef :: "digestMismatchMemo \<Rightarrow> gostring \<Rightarrow> NamespacedName \<Rightarrow> digestMismatchMemo" where
  "noteRef m isvcKey model = m\<lparr>dm_isvcRefs := (dm_isvcRefs m)(isvcKey \<mapsto> model)\<rparr>"

definition forgetISVC :: "digestMismatchMemo \<Rightarrow> gostring \<Rightarrow> digestMismatchMemo" where
  "forgetISVC m isvcKey =
     (case dm_isvcRefs m isvcKey of
        None \<Rightarrow> m
      | Some model \<Rightarrow> m\<lparr>dm_isvcRefs := (dm_isvcRefs m)(isvcKey := None), dm_entries := (dm_entries m)(model := None)\<rparr>)"

definition recordRefusal :: "digestMismatchMemo \<Rightarrow> NamespacedName \<Rightarrow> gostring \<Rightarrow> gostring \<Rightarrow> download_error \<Rightarrow> digestMismatchMemo" where
  "recordRefusal m model source sha256 err =
     m\<lparr>dm_entries := (dm_entries m)(model \<mapsto> \<lparr>de_source = source, de_sha256 = sha256, de_err = err\<rparr>)\<rparr>"

definition memoCheck :: "digestMismatchMemo \<Rightarrow> NamespacedName \<Rightarrow> gostring \<Rightarrow> gostring \<Rightarrow> digestMismatchMemo \<times> download_error option" where
  "memoCheck m model source sha256 =
     (case dm_entries m model of
        None \<Rightarrow> (m, None)
      | Some entry \<Rightarrow>
          if de_source entry \<noteq> source \<or> de_sha256 entry \<noteq> sha256 then (m\<lparr>dm_entries := (dm_entries m)(model := None)\<rparr>, None)
          else (m, Some (de_err entry)))"

definition memoClear :: "digestMismatchMemo \<Rightarrow> NamespacedName \<Rightarrow> digestMismatchMemo" where
  "memoClear m model = m\<lparr>dm_entries := (dm_entries m)(model := None)\<rparr>"

section \<open>Refusals\<close>

record ModelObject =
  mo_Key :: NamespacedName
  mo_Source :: gostring
  mo_SHA256 :: gostring
  mo_Failed :: bool
  mo_Conditions :: "(gostring \<times> bool \<times> gostring) list"

datatype refusal_cause =
    ModelFailed gostring
  | DotDotSegment
  | PathRefused PathError
  | SlotNotRegular gostring
  | RefusedDownload download_error
  | ArgsRefused policy_error

record Refusal =
  rf_Reason :: gostring
  rf_Cause :: refusal_cause

record MetalAgent =
  ag_ModelStorePath :: gostring
  ag_home :: gostring
  ag_roots :: Roots
  ag_AllowUnsafe :: bool
  ag_memo :: digestMismatchMemo


definition modelFailureReason :: "ModelObject \<Rightarrow> gostring" where
  "modelFailureReason model =
     (case List.find (\<lambda>(ty, status, reason). ty = ''Degraded'' \<and> status \<and> reason \<noteq> '''') (mo_Conditions model) of
        Some (ty, status, reason) \<Rightarrow> reason
      | None \<Rightarrow> ''no reason recorded'')"

definition sourceNotAllowed :: "refusal_cause \<Rightarrow> Refusal" where
  "sourceNotAllowed c = \<lparr>rf_Reason = ''ModelSourceNotAllowed'', rf_Cause = c\<rparr>"

definition checkModelPaths :: "filesystem \<Rightarrow> nat \<Rightarrow> MetalAgent \<Rightarrow> ModelObject \<Rightarrow> gostring \<Rightarrow> Refusal option" where
  "checkModelPaths fs L ag model pagedSSDCacheDir =
     (let source = mo_Source model; workDir = ag_ModelStorePath ag;
          path = (\<lambda>what p. map_option (\<lambda>e. sourceNotAllowed (PathRefused e)) (CheckPath fs L (ag_roots ag) what p workDir (ag_home ag))) in
      if mo_Failed model then Some (sourceNotAllowed (ModelFailed (modelFailureReason model)))
      else if ''..'' \<in> set (split_on (CHR ''/'') source) then Some (sourceNotAllowed DotDotSegment)
      else (case (if isLocalModelSource source then path ''model path'' (localSourcePath source)
                  else if \<not> containsSub ''://'' source then path ''model path'' source
                  else None) of
          Some r \<Rightarrow> Some r
        | None \<Rightarrow> if pagedSSDCacheDir \<noteq> '''' then path ''pagedSSDCacheDir'' pagedSSDCacheDir else None))"



definition refusedDownload :: "download_error \<Rightarrow> Refusal" where
  "refusedDownload e =
     \<lparr>rf_Reason = (case e of DigestMismatch _ \<Rightarrow> ''ModelDigestMismatch'' | DownloadTooLarge _ \<Rightarrow> ''ModelDownloadTooLarge''),
      rf_Cause = RefusedDownload e\<rparr>"

definition checkModelDigestMemo :: "MetalAgent \<Rightarrow> ModelObject \<Rightarrow> MetalAgent \<times> Refusal option" where
  "checkModelDigestMemo ag model =
     (case memoCheck (ag_memo ag) (mo_Key model) (mo_Source model) (mo_SHA256 model) of
        (memo, e) \<Rightarrow> (ag\<lparr>ag_memo := memo\<rparr>, map_option refusedDownload e))"


definition checkExtraArgs :: "filesystem \<Rightarrow> nat \<Rightarrow> MetalAgent \<Rightarrow> gostring \<Rightarrow> gostring list \<Rightarrow> Refusal option" where
  "checkExtraArgs fs L ag runtime args =
     (if args = [] then None
      else map_option (\<lambda>e. \<lparr>rf_Reason = ''ExtraArgsRejected'', rf_Cause = ArgsRefused e\<rparr>)
        (CheckExtraArgs fs L \<lparr>in_Runtime = runtime, in_Args = args, in_Roots = ag_roots ag, in_WorkDir = ag_ModelStorePath ag,
           in_Home = ag_home ag, in_AllowUnsafe = ag_AllowUnsafe ag\<rparr>))"

datatype start_error = DownloadRefused download_error | CacheEntryNotRegular gostring | RecordWriteFailed | OtherStartError gostring

text \<open>What a failed start leaves: a remembered refusal, a refusal, or a plain error that is only logged.\<close>

definition handleStartProcessError :: "MetalAgent \<Rightarrow> ModelObject \<Rightarrow> start_error \<Rightarrow> MetalAgent \<times> Refusal option" where
  "handleStartProcessError ag model e =
     (case e of
        DownloadRefused d \<Rightarrow>
          (ag\<lparr>ag_memo := recordRefusal (ag_memo ag) (mo_Key model) (mo_Source model) (mo_SHA256 model) d\<rparr>, Some (refusedDownload d))
      | CacheEntryNotRegular p \<Rightarrow> (ag, Some (sourceNotAllowed (SlotNotRegular p)))
      | RecordWriteFailed \<Rightarrow> (ag, None)
      | OtherStartError _ \<Rightarrow> (ag, None))"

section \<open>What the executors open\<close>

text \<open>The model path of tensorfold, and of mlx-server and vllm-swift before and after they resolve links.\<close>

definition joinStore :: "gostring \<Rightarrow> gostring \<Rightarrow> gostring" where
  "joinStore store p = pathOf (cleanAbs (store @ ''/'' @ p))"

definition tensorfoldModelPath :: "gostring \<Rightarrow> ModelObject \<Rightarrow> gostring" where
  "tensorfoldModelPath store model =
     (if mo_Source model = '''' then joinStore store (snd (mo_Key model))
      else if filepath_IsAbs (mo_Source model) then mo_Source model
      else joinStore store (mo_Source model))"


text \<open>llama-server loads a local source in place, when it is a regular file that is not empty.\<close>

definition resolveLocalModelSource :: "filesystem \<Rightarrow> nat \<Rightarrow> (path \<Rightarrow> nat) \<Rightarrow> gostring \<Rightarrow> gostring option" where
  "resolveLocalModelSource fs L sizeOf source =
     (let p = localSourcePath source in
      if \<not> filepath_IsAbs p then None
      else (case walk EvalMode fs L [] (cleanAbs p) of
          Inr q \<Rightarrow> if fs q = Found FileNode \<and> sizeOf q \<noteq> 0 then Some (pathOf (cleanAbs p)) else None
        | Inl _ \<Rightarrow> None))"


section \<open>Resolved paths\<close>


























definition ex_agent :: MetalAgent where
  "ex_agent = \<lparr>ag_ModelStorePath = ''/m'', ag_home = '''', ag_roots = ex_roots, ag_AllowUnsafe = False, ag_memo = newDigestMismatchMemo\<rparr>"

definition ex_model :: "gostring \<Rightarrow> ModelObject" where
  "ex_model source = \<lparr>mo_Key = (''ns'', ''model''), mo_Source = source, mo_SHA256 = '''', mo_Failed = False, mo_Conditions = []\<rparr>"



section \<open>File URIs\<close>

lemma cleanAbs_below:
  assumes "''..'' \<notin> set (split_on (CHR ''/'') p)"
  shows "cleanAbs (store @ ''/'' @ p) = cleanAbs store @ cleanAbs p"
proof -
  have plain: "foldl (cleanStep True) st parts = rev (filter (\<lambda>c. c \<noteq> '''' \<and> c \<noteq> ''.'') parts) @ st"
    if "''..'' \<notin> set parts" for st parts
    using that by (induction parts arbitrary: st) (auto simp: cleanStep_def)
  show ?thesis
    by (simp add: cleanAbs_def cleanParts_def split_on_append plain [OF assms])
qed

lemma file_scheme:
  "hasFileScheme (''file://'' @ p)" "localSourcePath (''file://'' @ p) = p" "isLocalModelSource (''file://'' @ p)"
  "\<not> filepath_IsAbs (''file://'' @ p)"
  by (simp_all add: hasFileScheme_def localSourcePath_def isLocalModelSource_def filepath_IsAbs_def has_prefix_def toLower_def ascii_lower_def)

lemma absolute_local:
  assumes "filepath_IsAbs p"
  shows "isLocalModelSource p" "localSourcePath p = p"
proof -
  from assms obtain q where "p = CHR ''/'' # q" by (auto simp: filepath_IsAbs_def has_prefix_iff)
  then have "\<not> hasFileScheme p" by (simp add: hasFileScheme_def toLower_def ascii_lower_def)
  with assms show "isLocalModelSource p" "localSourcePath p = p" by (simp_all add: isLocalModelSource_def localSourcePath_def filepath_IsAbs_def)
qed

lemma split_file_scheme: "split_on (CHR ''/'') (''file://'' @ p) = ''file:'' # '''' # split_on (CHR ''/'') p"
  by (simp split: list.splits)

text \<open>C40. A file URI of an absolute path is admitted exactly as the path is, and llama-server loads the path; tensorfold,
  which is handed the path when the source is the path, is handed for the URI a directory \<open>file:\<close> of the model store
  with the path below it, so that it does not find the Model that was checked.\<close>
theorem file_source_misread:
  assumes "filepath_IsAbs p" and "checkModelPaths fs L ag (model\<lparr>mo_Source := p\<rparr>) d = None"
  shows "checkModelPaths fs L ag (model\<lparr>mo_Source := ''file://'' @ p\<rparr>) d = None
    \<and> resolveLocalModelSource fs L sizeOf (''file://'' @ p) = resolveLocalModelSource fs L sizeOf p
    \<and> tensorfoldModelPath store (model\<lparr>mo_Source := p\<rparr>) = p
    \<and> tensorfoldModelPath store (model\<lparr>mo_Source := ''file://'' @ p\<rparr>) = pathOf (cleanAbs store @ ''file:'' # cleanAbs p)"
proof -
  have dots: "''..'' \<notin> set (split_on (CHR ''/'') p)"
    using assms(2) by (auto simp: checkModelPaths_def Let_def split: if_splits)
  define u where "u = ''file://'' @ p"
  have u: "isLocalModelSource u" "localSourcePath u = p" "\<not> filepath_IsAbs u" "u \<noteq> ''''"
    "split_on (CHR ''/'') u = ''file:'' # '''' # split_on (CHR ''/'') p"
    unfolding u_def by (rule file_scheme)+ (simp, rule split_file_scheme)
  have "cleanAbs u = ''file:'' # cleanAbs p"
    unfolding cleanAbs_def u(5) using dots by (simp add: cleanParts_plain)
  with cleanAbs_below [of u store] dots u(5)
  have below: "cleanAbs (store @ ''/'' @ u) = cleanAbs store @ ''file:'' # cleanAbs p" by simp
  have "p \<noteq> ''''" using assms(1) by (auto simp: filepath_IsAbs_def has_prefix_iff)
  then have "checkModelPaths fs L ag (model\<lparr>mo_Source := u\<rparr>) d = None
    \<and> resolveLocalModelSource fs L sizeOf u = resolveLocalModelSource fs L sizeOf p
    \<and> tensorfoldModelPath store (model\<lparr>mo_Source := p\<rparr>) = p
    \<and> tensorfoldModelPath store (model\<lparr>mo_Source := u\<rparr>) = pathOf (cleanAbs store @ ''file:'' # cleanAbs p)"
    using assms dots u below absolute_local [OF assms(1)]
    by (simp add: checkModelPaths_def resolveLocalModelSource_def tensorfoldModelPath_def joinStore_def Let_def split: if_splits)
  then show ?thesis unfolding u_def .
qed

lemma ex_absolute: "CheckPath ex_fs 40 ex_roots what ''/m/link/new'' ''/m'' '''' = None"
proof -
  have abs: "absolutePath ''/m/link/new'' ''/m'' '''' = Inr ''/m/link/new''" by (simp add: path_eval)
  have "resolveLoop ex_fs 40 [''m'', ''link'', ''new''] [''m'', ''link'', ''new''] [] = Inr [''ext'', ''new'']"
    by (simp add: resolveLoop.simps EvalSymlinks_def ex_walks os_Lstat_def isSymlink_def)
  then show ?thesis by (simp add: CheckPath_def ResolvePath_def abs path_eval Contains_def ex_roots_def)
qed

theorem file_source_misread_witness:
  "checkModelPaths ex_fs 40 ex_agent (ex_model ''file:///m/link/new'') '''' = None
   \<and> tensorfoldModelPath ''/m'' (ex_model ''file:///m/link/new'') = ''/m/file:/m/link/new''"
proof -
  have local: "filepath_IsAbs ''/m/link/new''" by (simp add: filepath_IsAbs_def has_prefix_def)
  have "checkModelPaths ex_fs 40 ex_agent ((ex_model '''')\<lparr>mo_Source := ''/m/link/new''\<rparr>) '''' = None"
    using absolute_local [OF local] by (simp add: checkModelPaths_def ex_agent_def ex_model_def ex_absolute)
  from file_source_misread [OF local this, of "\<lambda>_. 1" "''/m''"] show ?thesis
    by (simp add: ex_model_def cleanAbs_def cleanParts_def cleanStep_def pathOf_def)
qed

section \<open>Refusals that last\<close>

text \<open>The calls on the memo: a reconcile that fetched its Model notes the reference and later checks the Model, a start that
  fails records it, a stop or a deletion of a service forgets it, and a Model that is gone is cleared.\<close>

datatype memo_event =
    Fetched gostring NamespacedName
  | Checked ModelObject
  | StartFailed ModelObject start_error
  | Stopped gostring
  | ModelGone NamespacedName

fun memoStep :: "MetalAgent \<Rightarrow> memo_event \<Rightarrow> MetalAgent" where
  "memoStep ag (Fetched isvcKey k) = ag\<lparr>ag_memo := noteRef (ag_memo ag) isvcKey k\<rparr>"
| "memoStep ag (Checked model) = fst (checkModelDigestMemo ag model)"
| "memoStep ag (StartFailed model e) = fst (handleStartProcessError ag model e)"
| "memoStep ag (Stopped isvcKey) = ag\<lparr>ag_memo := forgetISVC (ag_memo ag) isvcKey\<rparr>"
| "memoStep ag (ModelGone k) = ag\<lparr>ag_memo := memoClear (ag_memo ag) k\<rparr>"

definition sameSpec :: "ModelObject \<Rightarrow> ModelObject \<Rightarrow> bool" where
  "sameSpec a b \<longleftrightarrow> mo_Source a = mo_Source b \<and> mo_SHA256 a = mo_SHA256 b"

fun touches :: "ModelObject \<Rightarrow> MetalAgent \<Rightarrow> memo_event \<Rightarrow> bool" where
  "touches model ag (Checked m) = (mo_Key m = mo_Key model \<and> \<not> sameSpec m model)"
| "touches model ag (StartFailed m e) = (mo_Key m = mo_Key model \<and> \<not> sameSpec m model)"
| "touches model ag (Stopped isvcKey) = (dm_isvcRefs (ag_memo ag) isvcKey = Some (mo_Key model))"
| "touches model ag (ModelGone k) = (k = mo_Key model)"
| "touches model ag (Fetched _ _) = False"

fun untouched :: "ModelObject \<Rightarrow> MetalAgent \<Rightarrow> memo_event list \<Rightarrow> bool" where
  "untouched model ag [] = True"
| "untouched model ag (ev # evs) = (\<not> touches model ag ev \<and> untouched model (memoStep ag ev) evs)"

definition remembered :: "ModelObject \<Rightarrow> MetalAgent \<Rightarrow> bool" where
  "remembered model ag \<longleftrightarrow>
     (case dm_entries (ag_memo ag) (mo_Key model) of
        None \<Rightarrow> False
      | Some e \<Rightarrow> de_source e = mo_Source model \<and> de_sha256 e = mo_SHA256 model)"

lemma remembered_refused: "remembered model ag \<longleftrightarrow> snd (checkModelDigestMemo ag model) \<noteq> None"
  by (auto simp: remembered_def checkModelDigestMemo_def memoCheck_def split: option.splits)

lemma memoStep_remembers: "remembered model ag \<Longrightarrow> \<not> touches model ag ev \<Longrightarrow> remembered model (memoStep ag ev)"
  by (cases ev)
    (auto simp: remembered_def sameSpec_def noteRef_def checkModelDigestMemo_def memoCheck_def handleStartProcessError_def recordRefusal_def
      forgetISVC_def memoClear_def split: option.splits start_error.splits)

lemma memoRun_remembers: "remembered model ag \<Longrightarrow> untouched model ag evs \<Longrightarrow> remembered model (foldl memoStep ag evs)"
  by (induction evs arbitrary: ag) (auto intro: memoStep_remembers)

text \<open>C30. No download storm: once a download of a Model was refused, every later check refuses the Model before the
  download, after any sequence of calls on the memo for this and other Models, as long as the Model is neither edited
  nor gone and no service that refers to it is stopped; and a Model edited since then is let through at once.\<close>
theorem refused_download_remembered:
  assumes "ag' = fst (handleStartProcessError ag model (DownloadRefused e))" and "untouched model ag' evs"
  shows "snd (checkModelDigestMemo (foldl memoStep ag' evs) model) \<noteq> None
    \<and> (mo_Key edited = mo_Key model \<and> \<not> sameSpec edited model \<longrightarrow> snd (checkModelDigestMemo ag' edited) = None)"
proof
  have "remembered model ag'"
    by (simp add: assms(1) remembered_def handleStartProcessError_def recordRefusal_def)
  from memoRun_remembers [OF this assms(2)]
  show "snd (checkModelDigestMemo (foldl memoStep ag' evs) model) \<noteq> None" by (simp add: remembered_refused)
  show "mo_Key edited = mo_Key model \<and> \<not> sameSpec edited model \<longrightarrow> snd (checkModelDigestMemo ag' edited) = None"
    by (auto simp: assms(1) checkModelDigestMemo_def memoCheck_def handleStartProcessError_def recordRefusal_def sameSpec_def)
qed

theorem refused_download_remembered_witness:
  "snd (checkModelDigestMemo
      (foldl memoStep (fst (handleStartProcessError ex_agent (ex_model ''hf://a'') (DownloadRefused (DownloadTooLarge ''big''))))
        [Fetched ''ns/a'' (''ns'', ''model''), Checked (ex_model ''hf://a''), Stopped ''ns/b'', ModelGone (''ns'', ''other'')])
      (ex_model ''hf://a'')) \<noteq> None"
proof -
  let ?ag = "fst (handleStartProcessError ex_agent (ex_model ''hf://a'') (DownloadRefused (DownloadTooLarge ''big'')))"
  let ?evs = "[Fetched ''ns/a'' (''ns'', ''model''), Checked (ex_model ''hf://a''), Stopped ''ns/b'', ModelGone (''ns'', ''other'')]"
  have "untouched (ex_model ''hf://a'') ?ag ?evs"
    by (simp add: sameSpec_def ex_model_def ex_agent_def newDigestMismatchMemo_def handleStartProcessError_def recordRefusal_def
        noteRef_def checkModelDigestMemo_def memoCheck_def)
  from refused_download_remembered [OF refl this, of "ex_model ''hf://b''"] show ?thesis by blast
qed

end
