(* ===== verification/Spec2Isabelle.thy ===== *)
theory Spec2Isabelle
  imports Router_Proxy Router_Reconcile Gguf_Remote Start_Policy
begin

text \<open>
  LLMKube's model router, GGUF reader and start policy, verified.

  LLMKube is a Kubernetes operator for self-hosted language models. Its data plane is a router
  proxy (src/cmd/router-proxy, src/internal/router): an OpenAI- and Anthropic-compatible HTTP
  proxy that reads a request, picks a rule, checks that sensitive data stays on local backends,
  admits the request against token and dollar budgets, makes the model resident in its pool,
  places it on a pod of the backend, forwards it, streams the answer back, and charges the usage.
  Its control plane (src/internal/controller) validates a ModelRouter resource, compiles it to the
  configuration of the proxy, and keeps the objects that run the proxy in sync with it. This
  library models both, and this theory joins them: what the validation of the resource promises
  holds of the requests the proxy sends. Two more parts stand at the edge of trust. The reader of
  GGUF model files (src/pkg/gguf) parses bytes that anyone may have written, from a file or from a
  URL by ranges. The metal agent (src/pkg/agent) starts engines on a host outside the cluster from
  sources and arguments that the writer of a resource chose, and its policy decides which of them
  may reach the engine.

  \<^bold>\<open>Parts and theories.\<close> Each theory holds the types and operations of one part under the names
  the code uses (record fields carry a short prefix), followed by its invariant and lemmas.

  \<^item> Go_Prelude: the Go runtime as far as the code observes it: int64 and int32 wrap-around
    (wrap64, wrap32), durations and instants in nanoseconds since the zero time, iterated maps as
    association lists, strings as character lists, and the locale step_invariant for reachability.
  \<^item> Router_Config (config.go): the configuration types and the whole of Validate.
  \<^item> Path_Match: path.Match, the glob of model patterns, as the matcher uses it.
  \<^item> Router_Match (match.go): rule predicates and the resolution order of Match.
  \<^item> Router_Budget (budget.go): the bucketed rolling-window store; Allowed, Charge, Snapshot.
  \<^item> Picker (picker/picker.go): load score, least-loaded scan, consistent-hash ring.
  \<^item> Sessions (picker/sessions.go): session bindings, expiry, capacity, and the pressure gate.
  \<^item> Router_Usage (usage.go): usage extraction, pricing, the stream-usage rewrite.
  \<^item> Dispatcher_State (backend.go): health entries, quarantine, round robin, endpoint sets.
  \<^item> Endpoint_Load (endpoint_load.go): in-flight and prefill counters with their release handles,
    as a step relation over concurrent requests and the janitor.
  \<^item> Router_Dispatcher (backend.go, placement.go, endpoint_load.go): placement, the outbound
    request, the stale-connection retry, the response body.
  \<^item> Activator (activator.go, activator_k8s.go): the model pool. Every critical section of the code
    is one step of proxy_step, so all interleavings of callers, the swap goroutine and asynchronous
    deactivations are covered.
  \<^item> Router_Proxy (proxy.go): NewProxy, handleCompletion and everything it calls.
  \<^item> Model_Router (modelrouter_types.go, modelrouter_validation.go): the ModelRouter spec and
    validateModelRouter.
  \<^item> Router_Compile (router_config_builder.go, modelrouter_backend_auth.go, endpoint_auth.go):
    compileRouterConfig and the resolution of each backend against the cluster.
  \<^item> Router_Reconcile (modelrouter_controller.go, router_deployment_builder.go,
    router_service_builder.go, router_activation_rbac.go, modelrouter_budget_status.go): Reconcile
    over the map of the cluster objects, with the status it records.
  \<^item> Gguf_Parser (pkg/gguf/parser.go): Parse and its accessors over an arbitrary reader, with the
    file format as a declarative encoder.
  \<^item> Gguf_Remote (pkg/gguf/remote.go): the HEAD probe, the range reader with its cached chunk, and
    the streaming fallback, against a server that is a parameter.
  \<^item> Policy_Roots (pkg/agent/policy/roots.go): the allowed roots and ResolvePath, over a file system
    with symbolic links; walk is the name resolution of filepath.EvalSymlinks, os.Lstat and open.
  \<^item> Policy_Flags (pkg/agent/policy/flagspecs.go): the flag tables of the engines, entry by entry.
  \<^item> Policy_Args (pkg/agent/policy/args.go): the token parser, the refusal tables and CheckExtraArgs.
  \<^item> Start_Policy (pkg/agent/refusal.go, digest_memo.go, and the path functions of executor.go,
    executor_tensorfold.go, executor_mlx_server.go, executor_vllm_swift.go): the preflight checks,
    the memo of refused downloads, and what each executor hands to its engine.

  \<^bold>\<open>State.\<close> A Go struct is a record with one field per Go field that any operation reads. Methods
  with a pointer receiver take the record and return it updated. A mutex makes a method one
  transition; concurrency is modelled where the code releases its lock in the middle of an
  operation (Activator, Endpoint_Load) and is sequential elsewhere. float64 quantities (prices, KV
  usage, gauges) are rationals: rounding is not modelled.

  \<^bold>\<open>Parameters.\<close> Code outside the repository is an argument. Router_Dispatcher takes an Env (HTTP
  transport, environment variables, JSON) and Router_Proxy a Run (a codec, the clock readings, the
  outcome of each pool acquisition, the chunks read and written). The Kubernetes API is the cluster
  record of Activator with a flag per call for whether it succeeds, the lookups Kube of
  Router_Compile, and the record Api of Router_Reconcile, whose SetControllerReference has the
  contract set_ref_ok that controller-runtime documents. JSON encoding and decoding, SHA-256 and
  strconv.ParseFloat are parameters of the compiler. The HTTP server of a GGUF file is the parameter
  Server of Gguf_Remote. The file system of the policy theories is a function from paths to nodes,
  arbitrary in every property, and the number of links the kernel follows is a parameter L.

  \<^bold>\<open>What is shown.\<close>

  \<^item> Confidentiality: a sensitive request decided fail-closed is sent to local backends only, in every
    reachable state of the proxy, and a client credential never reaches an upstream.
  \<^item> Budgets: the store refines a ledger of all charges; admission is exact on that ledger, a
    rejection carries a usable retry-after, scopes recover, and buckets stay bounded. The handler
    charges exactly the reported usage.
  \<^item> Pools: at most one swap at a time and none over a busy incumbent; a deactivation never hits a
    wanted member; a sleeping caller has nothing to wake for; a failure reaches exactly its waiters.
  \<^item> Resources: every counter equals the sum of the live handles, and every request gives back what
    it took unless the handler panics, which one input can cause.
  \<^item> Placement: the chosen pod is live, least loaded, or sticky per session; sessions move only for
    the reasons the code documents; the ring moves only the keys of a removed endpoint.
  \<^item> Configuration and matching: validation is equivalent to a declarative contract and the first
    matching rule decides.
  \<^item> Control plane: static validation is equivalent to a contract on the spec; an accepted spec whose
    backends resolve compiles to a configuration the proxy accepts; a reconcile writes only objects
    the router controls, keeps the store well-typed, leaves the data plane in sync with the compile,
    and is idempotent.
  \<^item> GGUF: the parser accepts precisely the encodings of the format within the limits and answers the
    encoded file; parsing ends on every input; reading by ranges answers what reading the file does;
    the limits do not bound the nesting of arrays, which is proved as well.
  \<^item> Start policy: what the kernel opens for an accepted path lies inside an allowed root, whatever
    links there are; no accepted token can be read by an engine as a flag that moves its listener,
    under abbreviation, attachment, chaining or respelling; without the override every token is a
    listed flag and every decoded path is contained; what the preflight admits is what each executor
    opens, except that a file URI is misread by the executors that resolve sources themselves; a
    refused download is remembered until its Model changes.
  \<^item> End to end (this theory): a sensitive request that a classification rule of an accepted resource
    decides reaches local backends only. The premise that matters is the tier: an external backend
    whose tier the schema defaults to local is not protected, which is proved as well.

  \<^bold>\<open>Interfaces.\<close> The locales usage_meter (what the ledger argument needs of a meter), pod_policy (what
  placement needs of a pick), breaker (a quarantine with a window), step_invariant (an invariant
  along a step relation), sound_source and byte_source (what the GGUF reader needs of its source) are interpreted on the model's own definitions, and the properties rest on
  the interpreted facts.

  \<^bold>\<open>Termination and fuel.\<close> Every definition is total. Loops over lists are structural or have a measure
  on what is left of their input. Only the nesting of GGUF arrays has fuel: each level consumes input,
  so fuel beyond the length of the input is never used up, which Parse_terminates shows. A walk
  along a path counts the links it follows, 255 for filepath.EvalSymlinks as in the Go library and L
  for the kernel, and the containment theorems assume L at most 255 (kernels follow 32 or 40). Waiting
  loops (the hold of AcquireWithMode, the poll of WaitReady) are steps of the relation, not
  recursion, so a caller that waits forever is a state that is not left.

  \<^bold>\<open>Not modelled.\<close> Prometheus metrics, tracing and log output other than the audit line; YAML and JSON
  parsing; goroutine wiring of cmd/router-proxy (informers, tickers and scrapes, whose effects are
  the modelled SetEndpoints, RecordSample, SweepSessions and ExpirePrefill). In the control plane: the
  texts of status messages, pod resources, probes and security contexts, the watch mappings, and the
  gateway data planes, which compile onto third-party gateways. In the GGUF reader: the names that are
  only printed. In the metal agent: the texts of refusals, the status write and Event made of one, the
  download itself, and the supervision of processes; file systems that change between the check and
  the use. The rest of the operator: the other reconcilers, the command line and foreman, whose
  effects are I/O.
\<close>

section \<open>From the resource to the wire\<close>

lemma compiled_backends:
  assumes "compileRouterConfig k co mr = Inr (cc, ev)" and "unmarshal (cc_JSON cc) = Some cfg"
    and "\<forall>c s. co_marshal co c = Some s \<longrightarrow> unmarshal s = Some c"
  obtains wires where "list_all2 (resolvesTo k co (meta_Namespace mr)) (spec_Backends (mr_Spec mr)) wires"
    and "cfg = wireConfig co (mr_Spec mr) wires"
proof -
  from assms(1) obtain wires where "list_all2 (resolvesTo k co (meta_Namespace mr)) (spec_Backends (mr_Spec mr)) wires"
    and "co_marshal co (wireConfig co (mr_Spec mr) wires) = Some (cc_JSON cc)"
    by (rule compileRouterConfig_cases)
  with assms(2,3) show thesis by (intro that [of wires]) auto
qed

lemma px_cfg_NewProxy:
  assumes "\<forall>opt \<in> set opts. proxyOption opt"
  shows "px_cfg (NewProxy cfg opts) = cfg"
proof -
  have step: "px_cfg (opt q) = px_cfg q" if "proxyOption opt" for q opt
    using that by (auto simp: proxyOption_def WithRouterName_def WithActivator_def WithDispatcherOptions_def)
  have "px_cfg (foldl (\<lambda>p opt. opt p) q opts) = px_cfg q" for q
    using assms step by (induction opts arbitrary: q) simp_all
  then show ?thesis by (simp add: NewProxy_def)
qed

lemma compiledTier_local:
  assumes "backend_spec_ok b" and "compiledTier b = ''local''"
  shows "rb_InferenceServiceRef b \<noteq> None \<and> rb_Tier b \<noteq> backendTierCloud \<or> rb_External b \<noteq> None \<and> rb_Tier b = backendTierLocal"
  using assms
  by (cases "rb_Tier b = ''''"; cases "rb_InferenceServiceRef b"; cases "rb_External b")
    (simp_all add: compiledTier_def backend_spec_ok_def backendTierCloud_def backendTierLocal_def)

lemma accepted_rule_failClosed:
  assumes "validateModelRouter pf mr = []" and "r \<in> set (spec_Rules (mr_Spec mr))"
    and "matchedSensitive (sensitiveClassificationSet (spec_Policy (mr_Spec mr))) r \<noteq> []"
  shows "rr_FailClosed r"
  using assms unfolding validateModelRouter_iff router_spec_ok_def rule_spec_ok_def by blast

text \<open>C2. End to end, from the resource to the wire. Take a ModelRouter the static validation accepts, its
  compiled configuration loaded by a proxy (with a JSON decoder that inverts the encoder), and any reachable
  state of that proxy. When a request whose classification is sensitive under the policy of the resource is
  decided by a rule that matches on classification, every backend the request is sent to is a backend of the
  resource with the tier local: one that references an InferenceService, or an external one whose tier the
  resource itself sets to local.\<close>
theorem accepted_router_protects:
  assumes "validateModelRouter (co_parseFloat co) mr = []" and "compileRouterConfig k co mr = Inr (cc, ev)"
    and "readFile path = Some (cc_JSON cc)" and "\<forall>c s. co_marshal co c = Some s \<longrightarrow> unmarshal s = Some c"
    and "LoadConfig readFile unmarshal (co_validName co) path = Inr cfg"
    and "\<forall>opt \<in> set opts. proxyOption opt" and "request_step\<^sup>*\<^sup>* (NewProxy cfg opts) p"
    and "extractFeatures (run_codec run) body headers (ClassificationHeader cfg) = Some (f, isStream)"
    and "mr_Rule (Match (NewMatcher cfg) f) = Some rule" and "DataClassification (rule_Match rule) \<noteq> []"
    and "rf_Classification f \<in> sensitiveClassificationSet (spec_Policy (mr_Spec mr))"
  shows "set (hd_sent (handleCompletion endpoint p run headers body)) \<subseteq>
    rb_Name ` {b \<in> set (spec_Backends (mr_Spec mr)). rb_Name b \<in> set (route_Backends (rule_Route rule)) \<and>
      (rb_InferenceServiceRef b \<noteq> None \<and> rb_Tier b \<noteq> backendTierCloud \<or> rb_External b \<noteq> None \<and> rb_Tier b = backendTierLocal)}"
proof
  fix name
  assume sent: "name \<in> set (hd_sent (handleCompletion endpoint p run headers body))"
  have decoded: "unmarshal (cc_JSON cc) = Some cfg" using assms(3,5) by (auto simp: LoadConfig_def split: option.splits)
  from assms(2) decoded assms(4) obtain wires where
    wires: "list_all2 (resolvesTo k co (meta_Namespace mr)) (spec_Backends (mr_Spec mr)) wires"
    and cfg: "cfg = wireConfig co (mr_Spec mr) wires" by (rule compiled_backends)
  have start: "proxy_start (NewProxy cfg opts)" using assms(6) by (auto simp: proxy_start_def)
  have inv: "proxy_inv p" using start assms(7) by (rule requests.holds_reachable)
  have px: "px_cfg p = cfg" "px_matcher p = NewMatcher cfg"
    using reachable_cfg [OF assms(7) proxy_start_inv [OF start]] px_cfg_NewProxy [OF assms(6)] inv
    by (simp_all add: proxy_inv_def)
  from Match_rule_in [OF assms(9)] obtain r where r: "r \<in> set (spec_Rules (mr_Spec mr))" "rule = translateRule r"
    and "ruleMatches (NewMatcher cfg) rule f"
    by (auto simp: cfg wireConfig_def)
  then have "rf_Classification f \<in> set (DataClassification (rule_Match rule))"
    using assms(10) by (auto simp: ruleMatches_def contains_def Let_def split: if_splits)
  then obtain m where "rr_Match r = Some m" "rf_Classification f \<in> set (rms_DataClassification m)"
    unfolding r(2) translateRule_fields by (cases "rr_Match r") simp_all
  then have "matchedSensitive (sensitiveClassificationSet (spec_Policy (mr_Spec mr))) r \<noteq> []"
    using assms(11) by (auto simp: matchedSensitive_def filter_empty_conv)
  with assms(1) r(1) have "rule_FailClosed rule" unfolding r(2) translateRule_fields by (rule accepted_rule_failClosed)
  then have dec: "mr_FailClosed (Match (NewMatcher cfg) f)" "mr_Backends (Match (NewMatcher cfg) f) = route_Backends (rule_Route rule)"
    using Match_of_rule [OF assms(9)] by simp_all
  have sensitive: "rf_Classification f \<in> SensitiveSet cfg" using assms(11) by (simp add: cfg SensitiveSet_wireConfig)
  from sent_guarded [OF inv, unfolded px, OF assms(8) sent] obtain w where w: "w \<in> set wires" "be_Name w = name" "be_Tier w = ''local''"
    and routed: "name \<in> set (route_Backends (rule_Route rule))"
    using dec sensitive by (auto simp: cfg wireConfig_def)
  from wires w(1) obtain b where b: "b \<in> set (spec_Backends (mr_Spec mr))" "resolvesTo k co (meta_Namespace mr) b w"
    by (blast dest: list_all2_right)
  have "backend_spec_ok b" using assms(1) b(1) unfolding validateModelRouter_iff router_spec_ok_def by blast
  then have "rb_InferenceServiceRef b \<noteq> None \<and> rb_Tier b \<noteq> backendTierCloud \<or> rb_External b \<noteq> None \<and> rb_Tier b = backendTierLocal"
    using resolvesTo_fields(2) [OF b(2)] w(3) by (intro compiledTier_local) simp_all
  moreover have "rb_Name b = name" using resolvesTo_fields(1) [OF b(2)] w(2) by simp
  ultimately show "name \<in> rb_Name ` {b \<in> set (spec_Backends (mr_Spec mr)). rb_Name b \<in> set (route_Backends (rule_Route rule)) \<and>
      (rb_InferenceServiceRef b \<noteq> None \<and> rb_Tier b \<noteq> backendTierCloud \<or> rb_External b \<noteq> None \<and> rb_Tier b = backendTierLocal)}"
    using b(1) routed by (intro image_eqI [of _ _ b]) simp_all
qed

text \<open>The example: the mixed router of \<open>Router_Compile\<close>, with a codec that knows its one configuration.\<close>

definition ex_wire :: "RouterBackend \<Rightarrow> Backend" where
  "ex_wire b = fst (projr (resolveBackend (ex_kube [''llama'']) '''' (\<lambda>_. None) 0 ''ml'' b))"

definition ex_wired :: Config where
  "ex_wired = wireConfig ex_compiler (mr_Spec ex_mixed) (map ex_wire (spec_Backends (mr_Spec ex_mixed)))"

definition ex_coder :: Compiler where
  "ex_coder = ex_compiler\<lparr>co_marshal := (\<lambda>c. if c = ex_wired then Some ''{}'' else None)\<rparr>"

lemma ex_coder_fields:
  "co_parseFloat ex_coder = co_parseFloat ex_compiler" "co_validName ex_coder = co_validName ex_compiler"
  "co_LiteLLMURL ex_coder = co_LiteLLMURL ex_compiler" "wireConfig ex_coder = wireConfig ex_compiler"
  "resolvesTo k ex_coder = resolvesTo k ex_compiler" "backend_reachable k ex_coder = backend_reachable k ex_compiler"
  by (simp_all add: ex_coder_def fun_eq_iff wireConfig_def resolvesTo_def backend_reachable_def split: option.splits)

lemma ex_wired_wires:
  assumes "list_all2 (resolvesTo (ex_kube [''llama'']) ex_compiler (meta_Namespace ex_mixed)) bs wires"
  shows "wires = map ex_wire bs"
  using assms
  by (induction rule: list_all2_induct)
    (auto simp: resolvesTo_def ex_wire_def ex_compiler_def ex_mixed_def ex_router_def)

lemma ex_wired_compiled:
  "\<exists>cc ev. compileRouterConfig (ex_kube [''llama'']) ex_coder ex_mixed = Inr (cc, ev) \<and> cc_JSON cc = ''{}'' \<and>
    LoadConfig (\<lambda>_. Some ''{}'') (\<lambda>_. Some ex_wired) (co_validName ex_coder) path = Inr ex_wired"
proof -
  have marshal: "co_marshal ex_coder (wireConfig ex_coder (mr_Spec ex_mixed) wires) \<noteq> None"
    if "list_all2 (resolvesTo (ex_kube [''llama'']) ex_coder (meta_Namespace ex_mixed)) (spec_Backends (mr_Spec ex_mixed)) wires" for wires
    using ex_wired_wires [OF that [unfolded ex_coder_fields]]
    by (simp add: ex_coder_fields) (simp add: ex_coder_def ex_wired_def)
  obtain cc ev cfg where cc: "compileRouterConfig (ex_kube [''llama'']) ex_coder ex_mixed = Inr (cc, ev)"
    "co_marshal ex_coder cfg = Some (cc_JSON cc)" "Validate (co_validName ex_coder) cfg = None"
    using compile_accepted [OF ex_mixed_accepted ex_mixed_ok(1-6) [folded ex_coder_fields] marshal] by blast
  moreover have "co_marshal ex_coder cfg = (if cfg = ex_wired then Some ''{}'' else None)" by (simp add: ex_coder_def)
  moreover from this cc(2) have "cfg = ex_wired" "cc_JSON cc = ''{}''" by (simp_all split: if_splits)
  ultimately show ?thesis by (simp add: LoadConfig_def)
qed

lemma ex_wired_match:
  "extractFeatures (run_codec (ex_run t)) body ex_headers (ClassificationHeader ex_wired) = Some (ex_sensitive, False)"
  "mr_Rule (Match (NewMatcher ex_wired) ex_sensitive) = Some (translateRule (ex_pii_rule ''gpu''))"
proof -
  have "ClassificationHeader ex_wired = ClassificationHeader ex_config"
    by (simp add: ClassificationHeader_def ex_wired_def wireConfig_def translatePolicy_def ex_mixed_def ex_router_def ex_config_def)
  then show "extractFeatures (run_codec (ex_run t)) body ex_headers (ClassificationHeader ex_wired) = Some (ex_sensitive, False)"
    by (simp only: ex_extract)
  have "ruleMatches (NewMatcher ex_wired) (translateRule (ex_pii_rule ''gpu'')) ex_sensitive"
    by (simp add: ruleMatches_def translateRule_def ex_pii_rule_def ex_sensitive_def contains_def matchModels_def matchHeaders_def
        satisfiesRequiredCapabilities_def)
  moreover have "cfg_Rules ex_wired = [translateRule (ex_pii_rule ''gpu'')]"
    by (simp add: ex_wired_def wireConfig_def ex_mixed_def ex_router_def)
  ultimately show "mr_Rule (Match (NewMatcher ex_wired) ex_sensitive) = Some (translateRule (ex_pii_rule ''gpu''))"
    by (simp add: Match_rule)
qed

theorem accepted_router_protects_witness:
  "set (hd_sent (handleCompletion ''/v1/chat/completions'' (NewProxy ex_wired [WithActivator True]) (ex_run minute) ex_headers ''{}''))
     \<subseteq> {''gpu''}"
proof -
  obtain cc ev where cc: "compileRouterConfig (ex_kube [''llama'']) ex_coder ex_mixed = Inr (cc, ev)"
    and json: "Some ''{}'' = Some (cc_JSON cc)"
    and load: "LoadConfig (\<lambda>_. Some ''{}'') (\<lambda>_. Some ex_wired) (co_validName ex_coder) ''config.json'' = Inr ex_wired"
    using ex_wired_compiled [of "''config.json''"] by auto
  have "set (hd_sent (handleCompletion ''/v1/chat/completions'' (NewProxy ex_wired [WithActivator True]) (ex_run minute) ex_headers ''{}''))
    \<subseteq> rb_Name ` {b \<in> set (spec_Backends (mr_Spec ex_mixed)).
        rb_Name b \<in> set (route_Backends (rule_Route (translateRule (ex_pii_rule ''gpu'')))) \<and>
        (rb_InferenceServiceRef b \<noteq> None \<and> rb_Tier b \<noteq> backendTierCloud \<or> rb_External b \<noteq> None \<and> rb_Tier b = backendTierLocal)}"
    by (rule accepted_router_protects [OF ex_mixed_accepted cc json _ load _ rtranclp.rtrancl_refl ex_wired_match])
      (simp_all add: ex_coder_def ex_pii_rule_def ex_sensitive_def sensitiveClassificationSet_def ex_mixed_def ex_router_def
        proxyOption_def)
  then show ?thesis by (auto simp: ex_pii_rule_def)
qed

section \<open>An external backend with the default tier\<close>

lemma external_resolves: "rb_InferenceServiceRef b = None \<Longrightarrow> \<exists>w. resolvesTo k co ns b w"
  by (cases "rb_External b") (simp_all add: resolvesTo_def resolveBackend_def split_beta)

text \<open>C37. The tier an external backend gets when it is omitted defeats the protection. The schema defaults
  it to local, static validation then accepts a fail-closed rule on sensitive data that routes to the provider,
  the backend compiles to the tier local with the address of the provider, and the fail-closed gate of the
  proxy lets the request through, for every classification.\<close>
theorem defaulted_external_unprotected:
  assumes "rb_InferenceServiceRef b = None" and "rb_External b = Some p" and "rb_Tier b = ''''" and "rb_Name b \<noteq> ''''"
    and "timeout_ok (rb_Timeout b)" and "rr_FailClosed r" and "rrs_Backends (rr_Route r) = [rb_Name b]" and "timeout_ok (rr_Timeout r)"
    and "spec_Backends (mr_Spec mr) = [defaultTier b]" and "spec_Rules (mr_Spec mr) = [r]"
    and "spec_DefaultRoute (mr_Spec mr) = ''''" and "spec_Policy (mr_Spec mr) = None"
    and "resolvesTo k co (meta_Namespace mr) (defaultTier b) w"
  shows "validateModelRouter pf mr = [] \<and> be_Tier w = ''local'' \<and> be_Address w = fst (resolveExternalURL (co_LiteLLMURL co) p) \<and>
    gateBackends (NewMatcher (wireConfig co (mr_Spec mr) [w])) classification (rrs_Backends (rr_Route r)) = None"
proof -
  have b: "rb_Tier (defaultTier b) = backendTierLocal" "rb_Name (defaultTier b) = rb_Name b"
    "rb_InferenceServiceRef (defaultTier b) = None" "rb_External (defaultTier b) = Some p" "rb_Timeout (defaultTier b) = rb_Timeout b"
    using assms(1-3) by (simp_all add: defaultTier_def)
  have tier: "backendTierLocal \<noteq> backendTierCloud" "backendTierLocal = ''local''" by (simp_all add: backendTierLocal_def backendTierCloud_def)
  have "backend_spec_ok (defaultTier b)" using assms(4,5) tier(1) unfolding backend_spec_ok_def b by simp
  moreover have "rule_spec_ok [defaultTier b] sensitive r" for sensitive
    using assms(6,7,8) tier(1) b unfolding rule_spec_ok_def by simp
  ultimately have valid: "validateModelRouter pf mr = []"
    unfolding validateModelRouter_iff router_spec_ok_def specBudgets_def assms(9-12) by simp
  have w: "be_Name w = rb_Name b" "be_Tier w = ''local''"
    unfolding resolvesTo_fields [OF assms(13)] compiledTier_def b by (simp_all add: backendTierLocal_def)
  moreover have "be_Address w = fst (resolveExternalURL (co_LiteLLMURL co) p)"
    using resolvesTo_address [OF assms(13)] b by simp
  moreover have "Matcher_BackendByName (NewMatcher (wireConfig co (mr_Spec mr) [w])) (rb_Name b) = Some w"
    using w by (simp add: Matcher_BackendByName_def NewMatcher_def wireConfig_def)
  ultimately show ?thesis using valid assms(7) by simp
qed

theorem defaulted_external_unprotected_witness:
  "(let b = ex_specBackend ''api'' None (Some ex_provider) ''''; mr = ex_router [defaultTier b] [ex_pii_rule ''api''] in
    validateModelRouter (\<lambda>_. None) mr = [] \<and>
    (\<exists>w. be_Tier w = ''local'' \<and> be_Address w = ''https://api.anthropic.com'' \<and>
       gateBackends (NewMatcher (wireConfig ex_compiler (mr_Spec mr) [w])) ''pii'' [''api''] = None))"
proof -
  let ?b = "ex_specBackend ''api'' None (Some ex_provider) ''''"
  let ?mr = "ex_router [defaultTier ?b] [ex_pii_rule ''api'']"
  have ref: "rb_InferenceServiceRef (defaultTier ?b) = None" by (simp add: defaultTier_def ex_specBackend_def)
  obtain w where w: "resolvesTo (ex_kube []) ex_compiler (meta_Namespace ?mr) (defaultTier ?b) w"
    using external_resolves [of "defaultTier ?b" "ex_kube []" ex_compiler "meta_Namespace ?mr"] ref by blast
  have "validateModelRouter (\<lambda>_. None) ?mr = [] \<and> be_Tier w = ''local'' \<and>
    be_Address w = fst (resolveExternalURL (co_LiteLLMURL ex_compiler) ex_provider) \<and>
    gateBackends (NewMatcher (wireConfig ex_compiler (mr_Spec ?mr) [w])) ''pii'' (rrs_Backends (rr_Route (ex_pii_rule ''api''))) = None"
    by (rule defaulted_external_unprotected [OF _ _ _ _ _ _ _ _ _ _ _ _ w])
      (simp_all add: ex_specBackend_def ex_router_def ex_pii_rule_def timeout_ok_def)
  moreover have "fst (resolveExternalURL (co_LiteLLMURL ex_compiler) ex_provider) = ''https://api.anthropic.com''"
    by (simp add: resolveExternalURL_def ex_provider_def defaultAnthropicURL_def)
  ultimately show ?thesis by (auto simp: Let_def ex_pii_rule_def)
qed

end
